(* ===== verification/Prelude.thy ===== *)
theory Prelude
  imports Main "HOL-Library.Word"
begin

text \<open>
  Shared vocabulary of the development: the machine types of the Go sources, the
  collections of rewrite and elimination facts the component theories fill, and the generic
  facts on lists, options, sums, words and functional maps that their proofs share.
\<close>

unbundle bit_operations_syntax

section \<open>Machine types\<close>

text \<open>
  A Go \<^verbatim>\<open>byte\<close> is an 8-bit word, a \<^verbatim>\<open>[]byte\<close> a list of them; \<^verbatim>\<open>uint64\<close> is a 64-bit word
  (heights, stakes, nonces) and \<^verbatim>\<open>*big.Int\<close> an unbounded integer (balances).
\<close>

type_synonym byte = "8 word"
type_synonym bytes = "byte list"
type_synonym u16 = "16 word"
type_synonym u64 = "64 word"
type_synonym bigint = int

section \<open>Collections of facts\<close>

named_theorems iface_simps \<open>what an operation of an interface returns after another one\<close>
named_theorems frame_simps \<open>what an operation leaves unchanged\<close>
named_theorems inv_intros \<open>operations preserve the invariant of their component\<close>

section \<open>Lists\<close>

lemma butlast_snoc_last: "xs \<noteq> [] \<Longrightarrow> butlast xs @ [last xs] = xs"
  by simp

lemma take_append_drop_eq: "take n xs = ys \<Longrightarrow> ys @ drop n xs = xs"
  by auto

lemma drop_eq_ConsD: "drop n xs = x # r \<Longrightarrow> n < length xs \<and> xs ! n = x \<and> drop (Suc n) xs = r"
proof (induction xs arbitrary: n)
  case (Cons y ys)
  then show ?case by (cases n) auto
qed simp

lemma in_set_tlD: "x \<in> set (tl xs) \<Longrightarrow> x \<in> set xs"
  by (cases xs) auto

lemma list_update_nth_ne [simp]: "i \<noteq> j \<Longrightarrow> (xs[i := v]) ! j = xs ! j"
  by simp

lemma nth_list_update_if: "i < length xs \<Longrightarrow> (xs[i := v]) ! j = (if i = j then v else xs ! j)"
  by simp

lemma sum_list_map_remove1_int:
  "x \<in> set xs \<Longrightarrow> sum_list (map f (remove1 x xs)) = sum_list (map f xs) - (f x :: int)"
  by (induction xs) auto

section \<open>Words\<close>

lemma word_less_iff_unat: "x < y \<longleftrightarrow> unat x < unat y"
  by (rule word_less_nat_alt)

lemma word_le_iff_unat: "x \<le> y \<longleftrightarrow> unat x \<le> unat y"
  by (rule word_le_nat_alt)

lemma unat_eq_eq [simp]: "unat x = unat y \<longleftrightarrow> x = y"
  by (rule word_unat_eq_iff [symmetric])

text \<open>The overflow test the sources use: \<^verbatim>\<open>if a+b < a\<close>.\<close>

lemma unat_add_no_wrap:
  fixes a b :: "'a::len word"
  assumes "\<not> a + b < a"
  shows "unat (a + b) = unat a + unat b"
  using assms unat_plus_simple [of a b] by (auto simp: not_less)

lemma unat_sub_no_borrow:
  fixes a b :: "'a::len word"
  assumes "b \<le> a"
  shows "unat (a - b) = unat a - unat b"
  using assms by (simp add: unat_sub)

lemma unat_less_pow [simp]: "unat (x :: u64) < 18446744073709551616"
  using unsigned_less [of x] by simp

lemma unat_byte_less [simp]: "unat (x :: byte) < 256"
  using unsigned_less [of x] by simp

lemma unat_of_nat_byte: "i < 256 \<Longrightarrow> unat (of_nat i :: byte) = i"
  by (simp add: unsigned_of_nat take_bit_eq_mod)

text \<open>
  The two nibbles of a byte and back: what the trie key encodings rest on.
\<close>

lemma byte_nibble_hi: "(b :: byte) div 16 < 16"
proof -
  have "unat b div 16 < 16" using unat_byte_less [of b] by linarith
  then show ?thesis by (simp add: word_less_iff_unat unat_div)
qed

lemma byte_nibble_lo: "(b :: byte) mod 16 < 16"
  by (simp add: word_less_iff_unat unat_mod)

lemma byte_div16: "(b :: byte) div 16 = drop_bit 4 b"
  by (simp add: drop_bit_eq_div)

lemma byte_mod16: "(b :: byte) mod 16 = take_bit 4 b"
  by (simp add: take_bit_eq_mod)

lemma nibble_take_bit: "(x :: byte) < 16 \<Longrightarrow> take_bit 4 x = x"
  by (simp add: take_bit_eq_mod mod_word_less)

lemma nibble_bit: "(x :: byte) < 16 \<Longrightarrow> bit x n \<Longrightarrow> n < 4"
  using nibble_take_bit [of x] by (metis bit_take_bit_iff)

lemma nibbles_hi: "(x :: byte) < 16 \<Longrightarrow> y < 16 \<Longrightarrow> (push_bit 4 x OR y) div 16 = x"
  unfolding byte_div16
  by (rule bit_word_eqI) (auto simp: bit_simps dest: nibble_bit)

lemma nibbles_lo: "(x :: byte) < 16 \<Longrightarrow> y < 16 \<Longrightarrow> (push_bit 4 x OR y) mod 16 = y"
  unfolding byte_mod16
  by (rule bit_word_eqI) (auto simp: bit_simps dest: nibble_bit)

lemma nibbles_join: "push_bit 4 ((b :: byte) div 16) OR b mod 16 = b"
  unfolding byte_mod16 byte_div16
  by (rule bit_word_eqI) (auto simp: bit_simps)

lemmas nibble_simps = nibbles_hi nibbles_lo nibbles_join byte_nibble_hi byte_nibble_lo

section \<open>Binary search\<close>

text \<open>\<^verbatim>\<open>sort.Search\<close> on the interval from \<open>i\<close> to \<open>j\<close>.\<close>

function goSearch :: "(nat \<Rightarrow> bool) \<Rightarrow> nat \<Rightarrow> nat \<Rightarrow> nat" where
  "goSearch f i j =
    (if i < j then let h = (i + j) div 2 in if \<not> f h then goSearch f (h + 1) j else goSearch f i h else i)"
  by auto
termination by (relation "measure (\<lambda>(f, i, j). j - i)") auto

declare goSearch.simps [simp del]

text \<open>On a monotone predicate the search finds the least index that satisfies it, or the end.\<close>

lemma goSearch_least:
  assumes "\<And>x y. x \<le> y \<Longrightarrow> y < j \<Longrightarrow> f x \<Longrightarrow> f y" and "i \<le> j" and "\<And>x. x < i \<Longrightarrow> \<not> f x"
  shows "i \<le> goSearch f i j \<and> goSearch f i j \<le> j \<and>
    (\<forall>x < goSearch f i j. \<not> f x) \<and> (goSearch f i j < j \<longrightarrow> f (goSearch f i j))"
  using assms
proof (induction f i j rule: goSearch.induct)
  case (1 f i j)
  show ?case
  proof (cases "i < j")
    case True
    define h where "h = (i + j) div 2"
    have h: "i \<le> h" "h < j" using True by (auto simp: h_def)
    show ?thesis
    proof (cases "f h")
      case True
      have eq: "goSearch f i j = goSearch f i h"
        using True \<open>i < j\<close> by (subst goSearch.simps) (simp add: h_def)
      have "\<not> \<not> f h" using True by simp
      from 1(2) [OF \<open>i < j\<close> h_def this _ h(1) 1(5)] 1(3) h(2)
      have "i \<le> goSearch f i h \<and> goSearch f i h \<le> h \<and> (\<forall>x < goSearch f i h. \<not> f x) \<and>
        (goSearch f i h < h \<longrightarrow> f (goSearch f i h))" by auto
      with h True show ?thesis unfolding eq by (cases "goSearch f i h = h") auto
    next
      case False
      have eq: "goSearch f i j = goSearch f (h + 1) j"
        using False \<open>i < j\<close> by (subst goSearch.simps) (simp add: h_def)
      have below: "\<not> f x" if "x < h + 1" for x using that h False 1(3) [of x h] by auto
      have "h + 1 \<le> j" using h(2) by simp
      have "h + 1 \<le> goSearch f (h + 1) j \<and> goSearch f (h + 1) j \<le> j \<and>
          (\<forall>x < goSearch f (h + 1) j. \<not> f x) \<and> (goSearch f (h + 1) j < j \<longrightarrow> f (goSearch f (h + 1) j))"
        by (rule 1(1) [OF \<open>i < j\<close> h_def False]) (use 1(3) below \<open>h + 1 \<le> j\<close> in auto)
      with h(1) show ?thesis unfolding eq by simp
    qed
  next
    case False
    with 1(4) have "i = j" by simp
    moreover have "goSearch f j j = j" by (subst goSearch.simps) simp
    ultimately show ?thesis using 1(5) by simp
  qed
qed

end
