(* ===== verification/Common.thy ===== *)
theory Common
  imports Prelude
begin

text \<open>
  The shared data of \<^verbatim>\<open>src/common\<close>: 32-byte hashes and addresses, the big-endian integer
  encodings, the well-known state addresses and storage keys, and the coin units. A Go array
  \<^verbatim>\<open>[32]byte\<close> is a byte list of length 32 (\<open>fixed32\<close>).
\<close>

section \<open>Hashes and addresses\<close>

type_synonym address = bytes
type_synonym hash = bytes

definition HashLength :: nat where
  "HashLength = 32"

definition AddressLength :: nat where
  "AddressLength = 32"

definition fixed32 :: "bytes \<Rightarrow> bool" where
  "fixed32 b \<longleftrightarrow> length b = 32"

text \<open>Cropped from the left when too long, left-padded with zeros when too short.\<close>

definition BytesToHash :: "bytes \<Rightarrow> hash" where
  "BytesToHash b0 =
    (let b = (if length b0 > HashLength then drop (length b0 - HashLength) b0 else b0)
     in replicate (HashLength - length b) 0 @ b)"

definition BytesToAddress :: "bytes \<Rightarrow> address" where
  "BytesToAddress b0 =
    (let b = (if length b0 > AddressLength then drop (length b0 - AddressLength) b0 else b0)
     in replicate (AddressLength - length b) 0 @ b)"

lemma fixed32_BytesToHash [simp]: "fixed32 (BytesToHash b)"
  by (simp add: fixed32_def BytesToHash_def HashLength_def Let_def)

lemma fixed32_BytesToAddress [simp]: "fixed32 (BytesToAddress b)"
  by (simp add: fixed32_def BytesToAddress_def AddressLength_def Let_def)

lemma BytesToHash_id [simp]: "fixed32 b \<Longrightarrow> BytesToHash b = b"
  by (simp add: fixed32_def BytesToHash_def HashLength_def)

lemma BytesToAddress_id [simp]: "fixed32 b \<Longrightarrow> BytesToAddress b = b"
  by (simp add: fixed32_def BytesToAddress_def AddressLength_def)

section \<open>Big-endian integers\<close>

definition Uint64ToByte :: "u64 \<Rightarrow> bytes" where
  "Uint64ToByte i = map (\<lambda>k. ucast (drop_bit (56 - 8 * k) i)) [0..<8]"

text \<open>\<^verbatim>\<open>binary.BigEndian.Uint64\<close>: reads the first eight bytes and panics on fewer.\<close>

definition beUint64 :: "bytes \<Rightarrow> u64" where
  "beUint64 b = fold (\<lambda>x acc. push_bit 8 acc OR ucast x) (take 8 b) 0"

definition ByteToUint64 :: "bytes \<Rightarrow> u64 option" where
  "ByteToUint64 bs = (if length bs < 8 then None else Some (beUint64 bs))"

text \<open>\<^verbatim>\<open>binary.Read\<close> with the error dropped: a short input leaves the zero value.\<close>

definition ByteToUInt64 :: "bytes \<Rightarrow> u64" where
  "ByteToUInt64 b = (if length b < 8 then 0 else beUint64 b)"

definition UInt16ToByte :: "u16 \<Rightarrow> bytes" where
  "UInt16ToByte i = [ucast (drop_bit 8 i), ucast i]"

definition ByteToUInt16 :: "bytes \<Rightarrow> u16" where
  "ByteToUInt16 b = (if length b < 2 then 0 else push_bit 8 (ucast (b ! 0)) OR ucast (b ! 1))"

lemma length_Uint64ToByte [simp]: "length (Uint64ToByte x) = 8"
  by (simp add: Uint64ToByte_def)

lemma Uint64ToByte_not_Nil [simp]: "Uint64ToByte x \<noteq> []"
  by (metis length_Uint64ToByte list.size(3) zero_neq_numeral)

lemma be_first: "(ucast (ucast (drop_bit 56 x) :: byte) :: u64) = drop_bit 56 (x :: u64)"
  by (rule bit_word_eqI) (auto simp: bit_simps dest: bit_imp_le_length)

lemma be_step:
  "push_bit 8 (drop_bit (m + 8) x) OR ucast (ucast (drop_bit m x) :: byte) = drop_bit m (x :: u64)"
  by (rule bit_word_eqI) (auto simp: bit_simps add.commute add.left_commute)

lemmas be_steps = be_step [of 48] be_step [of 40] be_step [of 32] be_step [of 24] be_step [of 16]
  be_step [of 8] be_step [of 0]

lemma upt_0_8: "[0..<8] = [0, 1, 2, 3, 4, 5, 6, 7 :: nat]"
  by (simp add: upt_rec)

lemma beUint64_Uint64ToByte [simp]: "beUint64 (Uint64ToByte x) = x"
  using be_steps [of x] be_first [of x] by (simp add: Uint64ToByte_def beUint64_def upt_0_8)

lemma ByteToUInt64_Uint64ToByte [simp]: "ByteToUInt64 (Uint64ToByte x) = x"
  by (simp add: ByteToUInt64_def)

lemma ByteToUint64_Uint64ToByte: "ByteToUint64 (Uint64ToByte x) = Some x"
  by (simp add: ByteToUint64_def)

lemma ByteToUInt16_UInt16ToByte [simp]: "ByteToUInt16 (UInt16ToByte x) = x"
  by (rule bit_word_eqI) (auto simp: UInt16ToByte_def ByteToUInt16_def bit_simps)

section \<open>Well-known addresses and keys\<close>

text \<open>A Go string literal converted to bytes.\<close>

definition ascii :: "string \<Rightarrow> bytes" where
  "ascii s = map of_char s"

definition numAddress :: "byte \<Rightarrow> address" where
  "numAddress n = BytesToAddress (if n = 0 then [] else [n])"

definition MinerPoolAddr :: address where "MinerPoolAddr = numAddress 1"
definition RewardStoreAddr :: address where "RewardStoreAddr = numAddress 2"
definition MinerPoolTicketsAddr :: address where "MinerPoolTicketsAddr = numAddress 4"
definition FundGuardNodeAddr :: address where "FundGuardNodeAddr = numAddress 5"
definition FullStakeGuardNodeAddr :: address where "FullStakeGuardNodeAddr = numAddress 6"
definition ScanAllFundGuardStatusAddr :: address where "ScanAllFundGuardStatusAddr = numAddress 7"
definition PunishmentDetailAddr :: address where "PunishmentDetailAddr = numAddress 0"
definition emptyAddress :: address where "emptyAddress = replicate 32 0"

definition PrefixMiner :: bytes where "PrefixMiner = ascii ''minfo''"
definition PrefixDetail :: bytes where "PrefixDetail = ascii ''dt''"
definition PrefixPoolProposal :: bytes where "PrefixPoolProposal = ascii ''p''"
definition PrefixPoolVerifier :: bytes where "PrefixPoolVerifier = ascii ''v''"
definition KeyPoolProposalTotalStake :: bytes where "KeyPoolProposalTotalStake = ascii ''totalstake''"
definition KeyVote :: bytes where "KeyVote = ascii ''votekey''"
definition KeyTickets :: bytes where "KeyTickets = ascii ''tickets''"
definition KeyGuardNodes :: bytes where "KeyGuardNodes = ascii ''guard''"
definition KeyScanSixAddFiveNodes :: bytes where "KeyScanSixAddFiveNodes = ascii ''s1''"
definition KeyScanSixAddSixNodes :: bytes where "KeyScanSixAddSixNodes = ascii ''s2''"

lemmas address_defs = MinerPoolAddr_def RewardStoreAddr_def MinerPoolTicketsAddr_def
  FundGuardNodeAddr_def FullStakeGuardNodeAddr_def ScanAllFundGuardStatusAddr_def
  PunishmentDetailAddr_def numAddress_def BytesToAddress_def AddressLength_def

lemmas key_defs = PrefixMiner_def PrefixDetail_def PrefixPoolProposal_def PrefixPoolVerifier_def
  KeyPoolProposalTotalStake_def KeyVote_def KeyTickets_def KeyGuardNodes_def
  KeyScanSixAddFiveNodes_def KeyScanSixAddSixNodes_def ascii_def of_char_def

section \<open>Coin units\<close>

definition RA :: u64 where "RA = 1"
definition KRA :: u64 where "KRA = 1000"
definition MRA :: u64 where "MRA = 1000000"
definition ZVC :: u64 where "ZVC = 1000000000"

section \<open>The bytes of a number\<close>

text \<open>\<^verbatim>\<open>big.Int.Bytes\<close>: the absolute value, big-endian, without leading zeros.\<close>

fun natBytes :: "nat \<Rightarrow> bytes" where
  "natBytes n = (if n = 0 then [] else natBytes (n div 256) @ [of_nat n])"

declare natBytes.simps [simp del]

definition bigBytes :: "bigint \<Rightarrow> bytes" where
  "bigBytes z = natBytes (nat \<bar>z\<bar>)"

definition bytesNat :: "bytes \<Rightarrow> nat" where
  "bytesNat bs = fold (\<lambda>b acc. acc * 256 + unat b) bs 0"

lemma bytesNat_snoc [simp]: "bytesNat (bs @ [b]) = bytesNat bs * 256 + unat b"
  by (simp add: bytesNat_def)

lemma unat_of_nat_mod: "unat (of_nat n :: byte) = n mod 256"
  by (simp add: unsigned_of_nat take_bit_eq_mod)

lemma bytesNat_natBytes [simp]: "bytesNat (natBytes n) = n"
proof (induction n rule: natBytes.induct)
  case (1 n)
  show ?case
  proof (cases "n = 0")
    case True
    then show ?thesis by (simp add: natBytes.simps [of 0] bytesNat_def)
  next
    case False
    with 1 show ?thesis by (subst natBytes.simps) (simp add: unat_of_nat_mod)
  qed
qed

lemma natBytes_inject [simp]: "natBytes m = natBytes n \<longleftrightarrow> m = n"
  by (metis bytesNat_natBytes)

lemma bigBytes_inject [simp]: "bigBytes x = bigBytes y \<longleftrightarrow> \<bar>x\<bar> = \<bar>y\<bar>"
  by (simp add: bigBytes_def eq_nat_nat_iff)

lemma bigBytes_zero [simp]: "bigBytes 0 = []"
  by (simp add: bigBytes_def natBytes.simps [of 0])

end
