(* ===== verification/Trie_Encoding.thy ===== *)
theory Trie_Encoding
  imports Prelude
begin

text \<open>
  The key encodings of the Merkle Patricia trie, \<^verbatim>\<open>src/storage/trie/encoding.go\<close>: KEYBYTES
  (plain bytes), HEX (one nibble per byte, terminator 16) and COMPACT (the hex-prefix encoding
  stored on disk). A slice index or slice bound out of range is a Go panic; it is the value
  \<open>None\<close> here. The round trips of the three encodings are proved at the end.
\<close>

section \<open>Definitions\<close>

definition hasTerm :: "bytes \<Rightarrow> bool" where
  "hasTerm s \<longleftrightarrow> length s > 0 \<and> s ! (length s - 1) = 16"

text \<open>
  \<open>decodeNibbles nibbles buf\<close> writes the joined nibbles over the front of \<open>buf\<close>; a nibble
  without its partner or a full buffer is an index panic.
\<close>

fun decodeNibbles :: "bytes \<Rightarrow> bytes \<Rightarrow> bytes option" where
  "decodeNibbles [] buf = Some buf"
| "decodeNibbles [n] buf = None"
| "decodeNibbles (n # m # ns) [] = None"
| "decodeNibbles (n # m # ns) (b # buf) =
     map_option (\<lambda>r. (push_bit 4 n OR m) # r) (decodeNibbles ns buf)"

fun keybytesToHex :: "bytes \<Rightarrow> bytes" where
  "keybytesToHex [] = [16]"
| "keybytesToHex (b # str) = b div 16 # b mod 16 # keybytesToHex str"

definition hexToCompact :: "bytes \<Rightarrow> bytes option" where
  "hexToCompact hex0 =
    (let terminator = (if hasTerm hex0 then 1 else 0 :: byte);
         hex = (if hasTerm hex0 then butlast hex0 else hex0);
         buf = replicate (length hex div 2 + 1) 0;
         flag = push_bit 5 terminator
     in if odd (length hex)
        then map_option (\<lambda>r. ((flag OR push_bit 4 1) OR hd hex) # r) (decodeNibbles (tl hex) (tl buf))
        else map_option (\<lambda>r. flag # r) (decodeNibbles hex (tl buf)))"

definition compactToHex :: "bytes \<Rightarrow> bytes option" where
  "compactToHex compact =
    (let base0 = keybytesToHex compact;
         base = (if hd base0 < 2 then butlast base0 else base0);
         chop = 2 - unat (hd base0 AND 1)
     in if base = [] \<or> chop > length base then None else Some (drop chop base))"

definition hexToKeybytes :: "bytes \<Rightarrow> bytes option" where
  "hexToKeybytes hex0 =
    (let hex = (if hasTerm hex0 then butlast hex0 else hex0)
     in if odd (length hex) then None
        else decodeNibbles hex (replicate (length hex div 2) 0))"

fun prefixLen :: "bytes \<Rightarrow> bytes \<Rightarrow> nat" where
  "prefixLen (a # as) (b # bs) = (if a = b then Suc (prefixLen as bs) else 0)"
| "prefixLen _ _ = 0"

section \<open>Shapes of hex keys\<close>

text \<open>
  A nibble string, a terminated key (what the trie stores a value under) and the keys a short
  node may carry: nibbles with at most a final terminator.
\<close>

definition nibbles :: "bytes \<Rightarrow> bool" where
  "nibbles s \<longleftrightarrow> (\<forall>x\<in>set s. x < 16)"

definition hexKey :: "bytes \<Rightarrow> bool" where
  "hexKey s \<longleftrightarrow> (\<exists>ns. nibbles ns \<and> s = ns @ [16])"

lemma nibbles_Nil [simp]: "nibbles []"
  by (simp add: nibbles_def)

lemma nibbles_Cons [simp]: "nibbles (x # s) \<longleftrightarrow> x < 16 \<and> nibbles s"
  by (auto simp: nibbles_def)

lemma nibbles_append [simp]: "nibbles (s @ t) \<longleftrightarrow> nibbles s \<and> nibbles t"
  by (auto simp: nibbles_def)

lemma nibbles_not_hasTerm: "nibbles s \<Longrightarrow> \<not> hasTerm s"
proof
  assume "nibbles s" "hasTerm s"
  then have "(16 :: byte) \<in> set s" by (metis hasTerm_def diff_less nth_mem zero_less_one)
  with \<open>nibbles s\<close> show False by (auto simp: nibbles_def)
qed

lemma hasTerm_snoc [simp]: "hasTerm (s @ [x]) \<longleftrightarrow> x = 16"
  by (simp add: hasTerm_def)

lemma hexKey_Nil [simp]: "\<not> hexKey []"
  by (simp add: hexKey_def)

lemma hexKey_Cons: "hexKey (x # s) \<longleftrightarrow> (x = 16 \<and> s = []) \<or> (x < 16 \<and> hexKey s)"
  unfolding hexKey_def
  by (cases s) (auto simp: Cons_eq_append_conv)

lemma hexKey_append: "nibbles s \<Longrightarrow> hexKey (s @ t) \<longleftrightarrow> hexKey t"
  by (induction s) (auto simp: hexKey_Cons)

lemma keybytesToHex_hexKey [simp]: "hexKey (keybytesToHex k)"
  by (induction k) (auto simp: hexKey_Cons nibble_simps)

lemma keybytesToHex_not_Nil [simp]: "keybytesToHex k \<noteq> []"
  by (cases k) auto

section \<open>Common prefixes\<close>

lemma prefixLen_le: "prefixLen a b \<le> length a" "prefixLen a b \<le> length b"
  by (induction a b rule: prefixLen.induct) auto

lemma take_prefixLen: "take (prefixLen a b) a = take (prefixLen a b) b"
  by (induction a b rule: prefixLen.induct) auto

lemma prefixLen_self_append [simp]: "prefixLen (k @ a) k = length k" "prefixLen k (k @ a) = length k"
  by (induction k) auto

lemma prefixLen_refl [simp]: "prefixLen k k = length k"
  by (induction k) auto

lemma prefixLen_eq_length: "prefixLen a k = length k \<longleftrightarrow> (\<exists>r. a = k @ r)"
proof
  assume "prefixLen a k = length k"
  then have "take (length k) a = k" using take_prefixLen [of a k] by simp
  then show "\<exists>r. a = k @ r" by (metis append_take_drop_id)
qed auto

lemma prefixLen_differ:
  "prefixLen a b < length a \<Longrightarrow> prefixLen a b < length b \<Longrightarrow> a ! prefixLen a b \<noteq> b ! prefixLen a b"
  by (induction a b rule: prefixLen.induct) auto

section \<open>Round trips\<close>

lemma decodeNibbles_keybytes:
  "length buf = length k \<Longrightarrow> decodeNibbles (butlast (keybytesToHex k)) buf = Some k"
proof (induction k arbitrary: buf)
  case (Cons b k)
  then show ?case by (cases buf) (auto simp: nibble_simps)
qed simp

lemma decodeNibbles_encode:
  "nibbles ns \<Longrightarrow> even (length ns) \<Longrightarrow> length buf = length ns div 2 \<Longrightarrow>
   \<exists>r. decodeNibbles ns buf = Some r \<and> keybytesToHex r = ns @ [16]"
proof (induction ns buf rule: decodeNibbles.induct)
  case (4 n m ns b buf)
  then show ?case by (force simp: nibble_simps)
qed auto

lemma length_butlast_keybytes [simp]: "length (butlast (keybytesToHex k)) = 2 * length k"
  by (induction k) auto

lemma hasTerm_keybytes [simp]: "hasTerm (keybytesToHex k)"
  using keybytesToHex_hexKey [of k] by (auto simp: hexKey_def)

lemma length_keybytesToHex [simp]: "length (keybytesToHex k) = 2 * length k + 1"
  by (induction k) auto

lemma hexToKeybytes_keybytesToHex: "hexToKeybytes (keybytesToHex k) = Some k"
  by (simp add: hexToKeybytes_def Let_def decodeNibbles_keybytes)

lemma keybytesToHex_inj: "keybytesToHex k = keybytesToHex k' \<Longrightarrow> k = k'"
  by (metis hexToKeybytes_keybytesToHex option.inject)

text \<open>The flag byte of the compact form, read back by \<open>keybytesToHex\<close>.\<close>

definition compactFlag :: "byte \<Rightarrow> bytes \<Rightarrow> byte" where
  "compactFlag t hex =
     (if odd (length hex) then (push_bit 5 t OR push_bit 4 1) OR hd hex else push_bit 5 t)"

lemma compactFlag_hi:
  "nibbles hex \<Longrightarrow> t = 0 \<or> t = 1 \<Longrightarrow>
   compactFlag t hex div 16 = (if odd (length hex) then 2 * t + 1 else 2 * t)"
  using nibbles_hi [of 3 "hd hex"] nibbles_hi [of 1 "hd hex"]
  by (cases hex) (auto simp: compactFlag_def)

lemma compactFlag_lo:
  "nibbles hex \<Longrightarrow> odd (length hex) \<Longrightarrow> t = 0 \<or> t = 1 \<Longrightarrow> compactFlag t hex mod 16 = hd hex"
  using nibbles_lo [of 3 "hd hex"] nibbles_lo [of 1 "hd hex"]
  by (cases hex) (auto simp: compactFlag_def)

lemma hexToCompact_ok:
  assumes "nibbles ns" and hex: "hex = (if t = 1 then ns @ [16] else ns)" and t: "t = 0 \<or> t = 1"
  shows "\<exists>r. hexToCompact hex = Some (compactFlag t ns # r) \<and>
             keybytesToHex r = (if odd (length ns) then tl ns else ns) @ [16]"
proof -
  define ms where "ms = (if odd (length ns) then tl ns else ns)"
  have ms: "nibbles ms" "even (length ms)" "length (replicate (length ns div 2) (0 :: byte)) = length ms div 2"
    using assms(1) by (auto simp: ms_def nibbles_def dest: in_set_tlD elim!: oddE)
  obtain r where r: "decodeNibbles ms (replicate (length ns div 2) 0) = Some r"
      "keybytesToHex r = ms @ [16]"
    using decodeNibbles_encode [OF ms] by blast
  have h: "(if hasTerm hex then 1 else 0) = t" "(if hasTerm hex then butlast hex else hex) = ns"
    using hex t nibbles_not_hasTerm [OF assms(1)] by auto
  have "hexToCompact hex = Some (compactFlag t ns # r)"
    using r(1) unfolding hexToCompact_def h Let_def
    by (cases "odd (length ns)") (simp_all add: compactFlag_def ms_def)
  with r(2) show ?thesis unfolding ms_def by blast
qed

lemma compactToHex_hexToCompact:
  assumes "nibbles ns" and hex: "hex = ns \<or> hex = ns @ [16]"
  shows "Option.bind (hexToCompact hex) compactToHex = Some hex"
proof -
  define t :: byte where "t = (if hex = ns then 0 else 1)"
  have t: "t = 0 \<or> t = 1" "hex = (if t = 1 then ns @ [16] else ns)"
    using hex by (auto simp: t_def)
  from hexToCompact_ok [OF assms(1) t(2) t(1)] obtain r where
    r: "hexToCompact hex = Some (compactFlag t ns # r)"
      "keybytesToHex r = (if odd (length ns) then tl ns else ns) @ [16]" by blast
  have "compactToHex (compactFlag t ns # r) = Some hex"
  proof (cases "odd (length ns)")
    case True
    then obtain n ms where ns: "ns = n # ms" by (cases ns) auto
    have "compactFlag t ns div 16 = 2 * t + 1" "compactFlag t ns mod 16 = n"
      using True t(1) assms(1) compactFlag_hi compactFlag_lo by (auto simp: ns)
    with True t ns r(2) show ?thesis
      by (auto simp: compactToHex_def Let_def)
  next
    case False
    then have "compactFlag t ns div 16 = 2 * t"
      using t(1) assms(1) by (simp add: compactFlag_hi)
    with False t r(2) show ?thesis
      by (auto simp: compactToHex_def Let_def)
  qed
  with r(1) show ?thesis by simp
qed

end
