(* ===== verification/Trie.thy ===== *)
theory Trie
  imports Common Trie_Encoding
begin

text \<open>
  The Merkle Patricia trie of \<^verbatim>\<open>src/storage/trie/node.go\<close> and \<^verbatim>\<open>trie.go\<close>: nodes with their
  cache flags, the recursive \<open>tryGet\<close>, \<open>trieInsert\<close> and \<open>trieDelete\<close>, and the operations
  \<open>TryGet\<close>, \<open>TryUpdate\<close> and \<open>TryDelete\<close> of a trie object. The node database is read
  through the method \<^verbatim>\<open>NodeDatabase.node\<close>, an argument \<open>db\<close> of the definitions: it gives the
  decoded node for a hash, or nil and an error. The recursions follow hash references into the
  database and so are partial functions: \<open>None\<close> is "does not return".
\<close>

section \<open>Nodes\<close>

record nodeFlag =
  flagHash :: "bytes option"
  flagGen :: u16
  flagDirty :: bool

datatype node =
    NilNode
  | ValueNode bytes
  | ShortNode bytes node nodeFlag
  | FullNode "node list" nodeFlag
  | HashNode bytes

datatype db_error = ErrNotFound | OtherDBError nat

datatype trie_error =
    MissingNodeError hash bytes
  | DBError db_error
  | TriePanic

type_synonym nodeSource = "hash \<Rightarrow> u16 \<Rightarrow> node \<times> db_error option"

record trie =
  root :: node
  originalRoot :: hash
  cachegen :: u16
  cachelimit :: u16

definition canUnload :: "nodeFlag \<Rightarrow> u16 \<Rightarrow> u16 \<Rightarrow> bool" where
  "canUnload f gen limit \<longleftrightarrow> \<not> flagDirty f \<and> gen - flagGen f \<ge> limit"

definition newFlag :: "u16 \<Rightarrow> nodeFlag" where
  "newFlag gen = \<lparr>flagHash = None, flagGen = gen, flagDirty = True\<rparr>"

section \<open>Operations\<close>

definition resolveHash :: "nodeSource \<Rightarrow> u16 \<Rightarrow> bytes \<Rightarrow> bytes \<Rightarrow> trie_error + node" where
  "resolveHash db gen n prefix =
    (let h = BytesToHash n
     in case db h gen of (nd, err) \<Rightarrow>
          if nd \<noteq> NilNode then Inr nd
          else (case err of
                  None \<Rightarrow> Inr NilNode
                | Some ErrNotFound \<Rightarrow> Inl (MissingNodeError h prefix)
                | Some e \<Rightarrow> Inl (DBError e)))"

definition resolve :: "nodeSource \<Rightarrow> u16 \<Rightarrow> node \<Rightarrow> bytes \<Rightarrow> trie_error + node" where
  "resolve db gen n prefix = (case n of HashNode h \<Rightarrow> resolveHash db gen h prefix | _ \<Rightarrow> Inr n)"

partial_function (option) tryGet ::
  "nodeSource \<Rightarrow> u16 \<Rightarrow> node \<Rightarrow> bytes \<Rightarrow> nat \<Rightarrow> (trie_error + bytes option \<times> node \<times> bool) option" where
  "tryGet db gen origNode key pos =
    (case origNode of
       NilNode \<Rightarrow> Some (Inr (None, NilNode, False))
     | ValueNode v \<Rightarrow> Some (Inr (Some v, ValueNode v, False))
     | ShortNode k c f \<Rightarrow>
         if length key < pos + length k \<or> k \<noteq> take (length k) (drop pos key)
         then Some (Inr (None, ShortNode k c f, False))
         else Option.bind (tryGet db gen c key (pos + length k)) (\<lambda>r. Some (case r of
                Inl e \<Rightarrow> Inl e
              | Inr (value, newnode, didResolve) \<Rightarrow>
                  Inr (value, if didResolve then ShortNode k newnode (f\<lparr>flagGen := gen\<rparr>)
                              else ShortNode k c f, didResolve)))
     | FullNode cs f \<Rightarrow>
         if length key \<le> pos \<or> length cs \<le> unat (key ! pos) then Some (Inl TriePanic)
         else Option.bind (tryGet db gen (cs ! unat (key ! pos)) key (pos + 1)) (\<lambda>r. Some (case r of
                Inl e \<Rightarrow> Inl e
              | Inr (value, newnode, didResolve) \<Rightarrow>
                  Inr (value, if didResolve then FullNode (cs[unat (key ! pos) := newnode]) (f\<lparr>flagGen := gen\<rparr>)
                              else FullNode cs f, didResolve)))
     | HashNode h \<Rightarrow>
         (case resolveHash db gen h (take pos key) of
            Inl e \<Rightarrow> Some (Inl e)
          | Inr child \<Rightarrow>
              Option.bind (tryGet db gen child key pos) (\<lambda>r. Some (case r of
                Inl e \<Rightarrow> Inl e
              | Inr (value, newnode, _) \<Rightarrow> Inr (value, newnode, True)))))"

partial_function (option) trieInsert ::
  "nodeSource \<Rightarrow> u16 \<Rightarrow> node \<Rightarrow> bytes \<Rightarrow> bytes \<Rightarrow> node \<Rightarrow> (trie_error + bool \<times> node) option" where
  "trieInsert db gen n prefix key val =
    (if key = [] then
       Some (case n of
         ValueNode v \<Rightarrow> (case val of ValueNode w \<Rightarrow> Inr (v \<noteq> w, val) | _ \<Rightarrow> Inl TriePanic)
       | _ \<Rightarrow> Inr (True, val))
     else case n of
       ShortNode k c f \<Rightarrow>
         (let matchlen = prefixLen key k
          in if matchlen = length k then
               Option.bind (trieInsert db gen c (prefix @ take matchlen key) (drop matchlen key) val) (\<lambda>r.
                 Some (case r of
                   Inl e \<Rightarrow> Inl e
                 | Inr (dirty, nn) \<Rightarrow>
                     if \<not> dirty then Inr (False, n) else Inr (True, ShortNode k nn (newFlag gen))))
             else if length key \<le> matchlen \<or> 17 \<le> unat (k ! matchlen) \<or> 17 \<le> unat (key ! matchlen)
             then Some (Inl TriePanic)
             else Option.bind (trieInsert db gen NilNode (prefix @ take (matchlen + 1) k) (drop (matchlen + 1) k) c) (\<lambda>r1.
               case r1 of Inl e \<Rightarrow> Some (Inl e) | Inr (_, n1) \<Rightarrow>
                 Option.bind (trieInsert db gen NilNode (prefix @ take (matchlen + 1) key) (drop (matchlen + 1) key) val) (\<lambda>r2.
                   Some (case r2 of Inl e \<Rightarrow> Inl e | Inr (_, n2) \<Rightarrow>
                     let branch = FullNode ((replicate 17 NilNode)[unat (k ! matchlen) := n1, unat (key ! matchlen) := n2])
                                           (newFlag gen)
                     in if matchlen = 0 then Inr (True, branch)
                        else Inr (True, ShortNode (take matchlen key) branch (newFlag gen))))))
     | FullNode cs f \<Rightarrow>
         if length cs \<le> unat (hd key) then Some (Inl TriePanic)
         else Option.bind (trieInsert db gen (cs ! unat (hd key)) (prefix @ [hd key]) (tl key) val) (\<lambda>r.
                Some (case r of
                  Inl e \<Rightarrow> Inl e
                | Inr (dirty, nn) \<Rightarrow>
                    if \<not> dirty then Inr (False, n)
                    else Inr (True, FullNode (cs[unat (hd key) := nn]) (newFlag gen))))
     | NilNode \<Rightarrow> Some (Inr (True, ShortNode key val (newFlag gen)))
     | HashNode h \<Rightarrow>
         (case resolveHash db gen h prefix of
            Inl e \<Rightarrow> Some (Inl e)
          | Inr rn \<Rightarrow>
              Option.bind (trieInsert db gen rn prefix key val) (\<lambda>r. Some (case r of
                Inl e \<Rightarrow> Inl e
              | Inr (dirty, nn) \<Rightarrow> if \<not> dirty then Inr (False, rn) else Inr (True, nn))))
     | ValueNode v \<Rightarrow> Some (Inl TriePanic))"

text \<open>
  The scan for a single remaining child: the index of the only non-nil child, -1 for none and
  -2 for several.
\<close>

fun scanChildren :: "nat \<Rightarrow> int \<Rightarrow> node list \<Rightarrow> int" where
  "scanChildren i pos [] = pos"
| "scanChildren i pos (cld # cs) =
     (if cld \<noteq> NilNode
      then if pos = -1 then scanChildren (Suc i) (int i) cs else -2
      else scanChildren (Suc i) pos cs)"

text \<open>The reduction of a full node after a child has been replaced.\<close>

definition reduceFull ::
  "nodeSource \<Rightarrow> u16 \<Rightarrow> node list \<Rightarrow> bytes \<Rightarrow> trie_error + bool \<times> node" where
  "reduceFull db gen cs prefix =
    (let pos = scanChildren 0 (-1) cs
     in if pos \<ge> 0 then
          (let child = cs ! nat pos; short = ShortNode [of_int pos] child (newFlag gen)
           in if pos \<noteq> 16 then
                (case resolve db gen child prefix of
                   Inl e \<Rightarrow> Inl e
                 | Inr (ShortNode k v f) \<Rightarrow> Inr (True, ShortNode (of_int pos # k) v (newFlag gen))
                 | Inr _ \<Rightarrow> Inr (True, short))
              else Inr (True, short))
        else Inr (True, FullNode cs (newFlag gen)))"

partial_function (option) trieDelete ::
  "nodeSource \<Rightarrow> u16 \<Rightarrow> node \<Rightarrow> bytes \<Rightarrow> bytes \<Rightarrow> (trie_error + bool \<times> node) option" where
  "trieDelete db gen n prefix key =
    (case n of
       ShortNode k c f \<Rightarrow>
         (let matchlen = prefixLen key k
          in if matchlen < length k then Some (Inr (False, n))
             else if matchlen = length key then Some (Inr (True, NilNode))
             else Option.bind (trieDelete db gen c (prefix @ take (length k) key) (drop (length k) key)) (\<lambda>r.
               Some (case r of
                 Inl e \<Rightarrow> Inl e
               | Inr (dirty, child) \<Rightarrow>
                   if \<not> dirty then Inr (False, n)
                   else (case child of
                           ShortNode k' c' f' \<Rightarrow> Inr (True, ShortNode (k @ k') c' (newFlag gen))
                         | _ \<Rightarrow> Inr (True, ShortNode k child (newFlag gen))))))
     | FullNode cs f \<Rightarrow>
         if key = [] \<or> length cs \<le> unat (hd key) then Some (Inl TriePanic)
         else Option.bind (trieDelete db gen (cs ! unat (hd key)) (prefix @ [hd key]) (tl key)) (\<lambda>r.
                Some (case r of
                  Inl e \<Rightarrow> Inl e
                | Inr (dirty, nn) \<Rightarrow>
                    if \<not> dirty then Inr (False, n)
                    else reduceFull db gen (cs[unat (hd key) := nn]) prefix))
     | ValueNode v \<Rightarrow> Some (Inr (True, NilNode))
     | NilNode \<Rightarrow> Some (Inr (False, NilNode))
     | HashNode h \<Rightarrow>
         (case resolveHash db gen h prefix of
            Inl e \<Rightarrow> Some (Inl e)
          | Inr rn \<Rightarrow>
              Option.bind (trieDelete db gen rn prefix key) (\<lambda>r. Some (case r of
                Inl e \<Rightarrow> Inl e
              | Inr (dirty, nn) \<Rightarrow> if \<not> dirty then Inr (False, rn) else Inr (True, nn)))))"

text \<open>
  The methods of a trie object: the error, if any, and the trie afterwards (the root is only
  replaced when no error occurred).
\<close>

definition TryGet :: "nodeSource \<Rightarrow> trie \<Rightarrow> bytes \<Rightarrow> ((trie_error + bytes option) \<times> trie) option" where
  "TryGet db t key =
    Option.bind (tryGet db (cachegen t) (root t) (keybytesToHex key) 0) (\<lambda>r. Some (case r of
      Inl e \<Rightarrow> (Inl e, t)
    | Inr (value, newroot, didResolve) \<Rightarrow>
        (Inr value, if didResolve then t\<lparr>root := newroot\<rparr> else t)))"

definition setRoot :: "trie \<Rightarrow> trie_error + bool \<times> node \<Rightarrow> trie_error option \<times> trie" where
  "setRoot t r = (case r of Inl e \<Rightarrow> (Some e, t) | Inr (_, n) \<Rightarrow> (None, t\<lparr>root := n\<rparr>))"

definition TryDelete :: "nodeSource \<Rightarrow> trie \<Rightarrow> bytes \<Rightarrow> (trie_error option \<times> trie) option" where
  "TryDelete db t key =
    map_option (setRoot t) (trieDelete db (cachegen t) (root t) [] (keybytesToHex key))"

definition TryUpdate :: "nodeSource \<Rightarrow> trie \<Rightarrow> bytes \<Rightarrow> bytes \<Rightarrow> (trie_error option \<times> trie) option" where
  "TryUpdate db t key value =
    (if length value \<noteq> 0
     then map_option (setRoot t) (trieInsert db (cachegen t) (root t) [] (keybytesToHex key) (ValueNode value))
     else map_option (setRoot t) (trieDelete db (cachegen t) (root t) [] (keybytesToHex key)))"

definition emptyTrie :: trie where
  "emptyTrie = \<lparr>root = NilNode, originalRoot = replicate 32 0, cachegen = 0, cachelimit = 0\<rparr>"

definition emptyRoot :: hash where
  "emptyRoot =
    [86, 232, 31, 23, 27, 204, 85, 166, 255, 131, 69, 230, 146, 192, 248, 110,
     91, 72, 224, 27, 153, 108, 173, 192, 1, 98, 47, 181, 227, 99, 180, 33]"

definition NewTrie :: "nodeSource \<Rightarrow> hash \<Rightarrow> trie_error + trie" where
  "NewTrie db h =
    (let t = \<lparr>root = NilNode, originalRoot = h, cachegen = 0, cachelimit = 0\<rparr>
     in if h \<noteq> replicate 32 0 \<and> h \<noteq> emptyRoot
        then (case resolveHash db 0 h [] of Inl e \<Rightarrow> Inl e | Inr n \<Rightarrow> Inr (t\<lparr>root := n\<rparr>))
        else Inr t)"

end
