(* ===== verification/Trie_Spec.thy ===== *)
theory Trie_Spec
  imports Trie_Encoding
begin

text \<open>
  The reference semantics of the Patricia trie: tries without cache flags and without hash
  references, with structurally recursive lookup, insertion and deletion. The canonical form
  (a branch has at least two children, no short node follows a short node, values sit exactly
  behind the terminator) is kept by both updates, both implement the update of a finite map,
  and a canonical trie is determined by the map it stores.
\<close>

section \<open>Reference tries\<close>

datatype ptrie =
    PNil
  | PVal bytes
  | PShort bytes ptrie
  | PFull "ptrie list"

lemma size_nth_ptrie [termination_simp]:
  "i < length ts \<Longrightarrow> size (ts ! i) < Suc (size_list size (ts :: ptrie list))"
  by (auto simp: less_Suc_eq_le intro!: size_list_estimation' [OF nth_mem])

lemma size_mem_ptrie [termination_simp]:
  "t \<in> set (take n ts) \<Longrightarrow> size t < Suc (size_list size (ts :: ptrie list))"
  by (auto simp: less_Suc_eq_le dest: in_set_takeD intro: size_list_estimation')

fun plookup :: "ptrie \<Rightarrow> bytes \<Rightarrow> bytes option" where
  "plookup PNil key = None"
| "plookup (PVal v) key = (if key = [] then Some v else None)"
| "plookup (PShort k t) key =
     (if take (length k) key = k then plookup t (drop (length k) key) else None)"
| "plookup (PFull ts) key =
     (if key \<noteq> [] \<and> unat (hd key) < length ts then plookup (ts ! unat (hd key)) (tl key) else None)"

definition pmk :: "bytes \<Rightarrow> ptrie \<Rightarrow> ptrie" where
  "pmk k t = (if k = [] then t else PShort k t)"

definition pbranch :: "bytes \<Rightarrow> ptrie \<Rightarrow> bytes \<Rightarrow> ptrie \<Rightarrow> ptrie" where
  "pbranch k t k' t' =
     PFull ((replicate 17 PNil)[unat (hd k) := pmk (tl k) t, unat (hd k') := pmk (tl k') t'])"

fun pinsert :: "ptrie \<Rightarrow> bytes \<Rightarrow> bytes \<Rightarrow> ptrie" where
  "pinsert (PShort k t) key v =
     (if key = [] then PVal v
      else let m = prefixLen key k
        in if m = length k then PShort k (pinsert t (drop m key) v)
           else pmk (take m key) (pbranch (drop m k) t (drop m key) (PVal v)))"
| "pinsert (PFull ts) key v =
     (if key = [] then PVal v
      else if unat (hd key) < length ts
      then PFull (ts[unat (hd key) := pinsert (ts ! unat (hd key)) (tl key) v]) else PFull ts)"
| "pinsert t key v = pmk key (PVal v)"

definition pprepend :: "bytes \<Rightarrow> ptrie \<Rightarrow> ptrie" where
  "pprepend k t = (case t of PShort k' t' \<Rightarrow> PShort (k @ k') t' | _ \<Rightarrow> PShort k t)"

definition nonNil :: "ptrie list \<Rightarrow> nat list" where
  "nonNil ts = filter (\<lambda>i. ts ! i \<noteq> PNil) [0..<length ts]"

definition preduce :: "ptrie list \<Rightarrow> ptrie" where
  "preduce ts = (case nonNil ts of [i] \<Rightarrow> pprepend [of_nat i] (ts ! i) | _ \<Rightarrow> PFull ts)"

fun pdelete :: "ptrie \<Rightarrow> bytes \<Rightarrow> ptrie" where
  "pdelete PNil key = PNil"
| "pdelete (PVal v) key = PNil"
| "pdelete (PShort k t) key =
     (let m = prefixLen key k
      in if m < length k then PShort k t
         else if m = length key then PNil
         else pprepend k (pdelete t (drop (length k) key)))"
| "pdelete (PFull ts) key =
     (if key \<noteq> [] \<and> unat (hd key) < length ts
      then preduce (ts[unat (hd key) := pdelete (ts ! unat (hd key)) (tl key)]) else PFull ts)"

section \<open>Canonical form\<close>

fun canon :: "ptrie \<Rightarrow> bool" where
  "canon PNil \<longleftrightarrow> False"
| "canon (PVal v) \<longleftrightarrow> False"
| "canon (PShort k (PVal v)) \<longleftrightarrow> hexKey k \<and> v \<noteq> []"
| "canon (PShort k (PFull ts)) \<longleftrightarrow> nibbles k \<and> k \<noteq> [] \<and> canon (PFull ts)"
| "canon (PShort k t) \<longleftrightarrow> False"
| "canon (PFull ts) \<longleftrightarrow> length ts = 17 \<and> (\<forall>t\<in>set (take 16 ts). t = PNil \<or> canon t) \<and>
     (case ts ! 16 of PNil \<Rightarrow> True | PVal v \<Rightarrow> v \<noteq> [] | _ \<Rightarrow> False) \<and> 2 \<le> length (nonNil ts)"

text \<open>
  What may stand where a key remains to be consumed: after the terminator a value or nothing,
  before it a canonical trie or nothing.
\<close>

definition fits :: "ptrie \<Rightarrow> bytes \<Rightarrow> bool" where
  "fits t key \<longleftrightarrow>
     (if key = [] then t = PNil \<or> (\<exists>v. v \<noteq> [] \<and> t = PVal v) else hexKey key \<and> (t = PNil \<or> canon t))"

lemma canon_PShort_iff:
  "canon (PShort k t) \<longleftrightarrow> (\<exists>v. t = PVal v \<and> v \<noteq> [] \<and> hexKey k) \<or>
     (\<exists>ts. t = PFull ts \<and> nibbles k \<and> k \<noteq> [] \<and> canon t)"
  by (cases t) auto

lemma canon_PFull_iff:
  "canon (PFull ts) \<longleftrightarrow> length ts = 17 \<and> (\<forall>i<16. ts ! i = PNil \<or> canon (ts ! i)) \<and>
     (ts ! 16 = PNil \<or> (\<exists>v. v \<noteq> [] \<and> ts ! 16 = PVal v)) \<and> 2 \<le> length (nonNil ts)"
proof (cases "length ts = 17")
  case True
  then have "(\<forall>t\<in>set (take 16 ts). t = PNil \<or> canon t) \<longleftrightarrow> (\<forall>i<16. ts ! i = PNil \<or> canon (ts ! i))"
    by (simp add: all_set_conv_all_nth)
  then show ?thesis by (cases "ts ! 16") (simp_all add: True)
qed simp

declare canon.simps(3-7) [simp del]

lemma key_index:
  "hexKey (x # r) \<Longrightarrow> unat x < 17 \<and> (unat x = 16 \<longleftrightarrow> x = 16) \<and> (x = 16 \<longleftrightarrow> r = [])"
  using unat_eq_eq [of x 16] by (auto simp: hexKey_Cons word_less_iff_unat)

lemma fits_PFullD:
  assumes "fits (PFull ts) key"
  shows "\<exists>x r. key = x # r \<and> length ts = 17 \<and> unat x < 17 \<and> fits (ts ! unat x) r"
proof -
  from assms obtain x r where key: "key = x # r" and hx: "hexKey (x # r)" and c: "canon (PFull ts)"
    by (cases key) (auto simp: fits_def)
  have "fits (ts ! unat x) r"
  proof (cases "x = 16")
    case True
    with key_index [OF hx] c show ?thesis by (auto simp: fits_def canon_PFull_iff)
  next
    case False
    with key_index [OF hx] c hx show ?thesis by (auto simp: fits_def canon_PFull_iff hexKey_Cons)
  qed
  with key key_index [OF hx] c show ?thesis by (auto simp: canon_PFull_iff)
qed

lemma fits_PShortD:
  assumes "fits (PShort k t) (k @ r)"
  shows "fits t r" and "k \<noteq> []"
proof -
  have c: "canon (PShort k t)" and hx: "hexKey (k @ r)"
    using assms by (auto simp: fits_def split: if_splits)
  then show "k \<noteq> []" by (auto simp: canon_PShort_iff)
  show "fits t r"
  proof (cases "hexKey k")
    case True
    then have "r = []" using hx by (auto simp: hexKey_def append_eq_append_conv2 append_eq_Cons_conv nibbles_def)
    with c True show ?thesis by (auto simp: canon_PShort_iff fits_def hexKey_def nibbles_def)
  next
    case False
    with c have "nibbles k" by (auto simp: canon_PShort_iff)
    with False c hx show ?thesis by (auto simp: canon_PShort_iff fits_def hexKey_append)
  qed
qed

section \<open>Branching points\<close>

lemma nonNil_set: "set (nonNil ts) = {i. i < length ts \<and> ts ! i \<noteq> PNil}"
  by (auto simp: nonNil_def)

lemma nonNil_two: "2 \<le> length (nonNil ts) \<longleftrightarrow>
  (\<exists>i j. i \<noteq> j \<and> i < length ts \<and> j < length ts \<and> ts ! i \<noteq> PNil \<and> ts ! j \<noteq> PNil)"
proof -
  have "length (nonNil ts) = card (set (nonNil ts))"
    by (rule distinct_card [symmetric]) (simp add: nonNil_def)
  moreover have "card (set (nonNil ts)) \<le> Suc 0 \<longleftrightarrow> (\<forall>i\<in>set (nonNil ts). \<forall>j\<in>set (nonNil ts). i = j)"
    by (rule card_le_Suc0_iff_eq) simp
  ultimately show ?thesis by (auto simp: nonNil_set not_less_eq_eq [symmetric] numeral_2_eq_2)
qed

lemma nonNil_twoI:
  "i \<noteq> j \<Longrightarrow> i < length ts \<Longrightarrow> j < length ts \<Longrightarrow> ts ! i \<noteq> PNil \<Longrightarrow> ts ! j \<noteq> PNil \<Longrightarrow>
   2 \<le> length (nonNil ts)"
  unfolding nonNil_two by blast

lemma prefixLen_split:
  assumes "prefixLen key k < length key" and "prefixLen key k < length k"
  shows "\<exists>p b r a s. key = p @ b # r \<and> k = p @ a # s \<and> a \<noteq> b \<and> length p = prefixLen key k"
proof -
  let ?m = "prefixLen key k"
  have "key = take ?m key @ key ! ?m # drop (Suc ?m) key" "k = take ?m key @ k ! ?m # drop (Suc ?m) k"
    using assms id_take_nth_drop take_prefixLen by metis+
  then show ?thesis using prefixLen_differ [OF assms] prefixLen_le(1) by (metis length_take min.absorb2)
qed

lemma hexKey_no_proper_prefix: "hexKey (k @ r) \<Longrightarrow> hexKey k \<Longrightarrow> r = []"
  by (induction k) (auto simp: hexKey_Cons)

lemma fits_PShort_mismatch:
  assumes "fits (PShort k t) key" and "key \<noteq> []" and "prefixLen key k \<noteq> length k"
  shows "prefixLen key k < length key" and "prefixLen key k < length k"
proof -
  show "prefixLen key k < length k" using assms(3) prefixLen_le(2) [of key k] by simp
  show "prefixLen key k < length key"
  proof (rule ccontr)
    assume "\<not> ?thesis"
    then have "prefixLen key k = length key" using prefixLen_le(1) [of key k] by simp
    then have "take (length key) k = key" using take_prefixLen [of key k] by simp
    then obtain r where k: "k = key @ r" by (metis append_take_drop_id)
    have hk: "hexKey key" and "canon (PShort k t)"
      using assms(1,2) by (auto simp: fits_def)
    then have "hexKey k \<or> nibbles k" by (auto simp: canon_PShort_iff)
    with hk k have "r = []" using hexKey_no_proper_prefix by (auto simp: hexKey_def)
    with k assms(3) show False by simp
  qed
qed

lemma fits_PShort_cases:
  assumes "fits (PShort k t) key" and "key \<noteq> []"
  obtains (match) r where "key = k @ r" "fits t r" "prefixLen key k = length k"
  | (split) p b r a s where "key = p @ b # r" "k = p @ a # s" "a \<noteq> b" "prefixLen key k = length p"
      "length p \<noteq> length k"
proof (cases "prefixLen key k = length k")
  case True
  then obtain r where "key = k @ r" by (auto simp: prefixLen_eq_length)
  with True assms(1) fits_PShortD show ?thesis by (intro match) auto
next
  case False
  from prefixLen_split [OF fits_PShort_mismatch [OF assms False]] False
  show ?thesis by (metis split)
qed

lemma fits_hexKey: "fits t key \<Longrightarrow> key \<noteq> [] \<Longrightarrow> hexKey key"
  by (simp add: fits_def)

lemma fits_PShort_both:
  assumes "fits (PShort k t) (k @ r)" and "fits (PShort k t) (k @ r')"
  shows "r = [] \<longleftrightarrow> r' = []"
proof -
  have "k \<noteq> []" using assms(1) by (rule fits_PShortD)
  then have "hexKey (k @ r)" "hexKey (k @ r')" using assms by (auto intro: fits_hexKey)
  then show ?thesis using hexKey_no_proper_prefix [of k r] hexKey_no_proper_prefix [of k r'] by auto
qed

section \<open>Lookup after insertion\<close>

lemma plookup_pmk [simp]:
  "plookup (pmk k t) key = (if take (length k) key = k then plookup t (drop (length k) key) else None)"
  by (simp add: pmk_def)

lemma plookup_pbranch:
  assumes "a \<noteq> b" and "unat a < 17" and "unat b < 17"
  shows "plookup (pbranch (a # s) t (b # r) t') key =
    (case key of [] \<Rightarrow> None
     | x # y \<Rightarrow> if x = b then plookup (pmk r t') y else if x = a then plookup (pmk s t) y else None)"
proof (cases key)
  case (Cons x y)
  with assms show ?thesis
    by (auto simp: pbranch_def nth_list_update simp del: plookup_pmk)
qed (simp add: pbranch_def)

lemma fits_split_index:
  assumes "fits (PShort (p @ a # s) t) (p @ b # r)"
  shows "unat a < 17" and "unat b < 17" and "b = 16 \<longleftrightarrow> r = []" and "b \<noteq> 16 \<Longrightarrow> hexKey r"
    and "b \<noteq> 16 \<Longrightarrow> b < 16"
    and "(a = 16 \<and> s = [] \<and> (\<exists>v. v \<noteq> [] \<and> t = PVal v)) \<or> (a < 16 \<and> canon (pmk s t))"
    and "nibbles p"
proof -
  from assms have c: "canon (PShort (p @ a # s) t)" and h: "hexKey (p @ b # r)"
    by (auto simp: fits_def)
  have np: "nibbles p" using h by (auto simp: hexKey_def append_eq_append_conv2 append_eq_Cons_conv Cons_eq_append_conv)
  then show "nibbles p" .
  with h have hb: "hexKey (b # r)" by (simp add: hexKey_append)
  from key_index [OF this] show "unat b < 17" "b = 16 \<longleftrightarrow> r = []" by auto
  from hb show "b \<noteq> 16 \<Longrightarrow> hexKey r" "b \<noteq> 16 \<Longrightarrow> b < 16" by (auto simp: hexKey_Cons)
  show "(a = 16 \<and> s = [] \<and> (\<exists>v. v \<noteq> [] \<and> t = PVal v)) \<or> (a < 16 \<and> canon (pmk s t))"
    using c np by (cases t) (auto simp: canon_PShort_iff hexKey_append hexKey_Cons pmk_def)
  then show "unat a < 17" by (auto simp: word_less_iff_unat)
qed

lemma plookup_pmk_PVal: "plookup (pmk r (PVal v)) z = (if z = r then Some v else None)"
  by (auto dest: take_append_drop_eq)

lemma plookup_pmk_append: "plookup (PShort (p @ q) t) key = plookup (pmk p (pmk q t)) key"
  by (auto simp: take_add append_eq_append_conv_if add.commute min_def dest: arg_cong [where f = length])

lemma plookup_split:
  assumes "a \<noteq> b" and "unat a < 17" and "unat b < 17"
  shows "plookup (pmk p (pbranch (a # s) t (b # r) (PVal v))) key' =
    (if key' = p @ b # r then Some v else plookup (PShort (p @ a # s) t) key')"
proof (cases "take (length p) key' = p")
  case True
  then obtain y where y: "key' = p @ y" by (metis append_take_drop_id)
  show ?thesis
  proof (cases y)
    case (Cons c z)
    have "plookup (PShort (p @ a # s) t) key' = (if c = a then plookup (pmk s t) z else None)"
      unfolding plookup_pmk_append y Cons by simp
    then show ?thesis using assms y Cons
      by (simp add: plookup_pbranch plookup_pmk_PVal del: plookup_pmk) (simp add: plookup_pbranch plookup_pmk_PVal)
  qed (use y assms in \<open>simp add: plookup_pbranch\<close>)
qed (auto simp: plookup_pmk_append simp del: plookup.simps(3))

lemma plookup_pinsert:
  "fits t key \<Longrightarrow> fits t key' \<Longrightarrow> key = [] \<longleftrightarrow> key' = [] \<Longrightarrow>
   plookup (pinsert t key v) key' = (if key' = key then Some v else plookup t key')"
proof (induction t key v arbitrary: key' rule: pinsert.induct)
  case (1 k t key v)
  show ?case
  proof (cases "key = []")
    case True
    with "1.prems" show ?thesis by simp
  next
    case False
    with "1.prems"(1) show ?thesis
    proof (cases rule: fits_PShort_cases)
      case (match r)
      then have ih: "\<And>key'. fits t key' \<Longrightarrow> r = [] \<longleftrightarrow> key' = [] \<Longrightarrow>
          plookup (pinsert t r v) key' = (if key' = r then Some v else plookup t key')"
        using "1.IH" [OF False] by auto
      show ?thesis
      proof (cases "take (length k) key' = k")
        case True
        then obtain r' where r': "key' = k @ r'" by (metis append_take_drop_id)
        have "fits t r'" "r = [] \<longleftrightarrow> r' = []" "k \<noteq> []"
          using "1.prems"(1,2) match(1) r' fits_PShortD fits_PShort_both by blast+
        with ih [of r'] match r' show ?thesis by (auto simp: Let_def)
      next
        case False
        with match \<open>key \<noteq> []\<close> show ?thesis by (auto simp: Let_def)
      qed
    next
      case (split p b r a s)
      then have "pinsert (PShort k t) key v = pmk p (pbranch (a # s) t (b # r) (PVal v))"
        using False by (simp add: Let_def)
      then show ?thesis using plookup_split [OF split(3)] fits_split_index(1,2) "1.prems"(1) split(1,2)
        by simp
    qed
  qed
next
  case (2 ts key v)
  show ?case
  proof (cases "key = []")
    case False
    with fits_PFullD [OF "2.prems"(1)] obtain x r where
      x: "key = x # r" "length ts = 17" "unat x < 17" "fits (ts ! unat x) r" by auto
    from False "2.prems" fits_PFullD [OF "2.prems"(2)] obtain y r' where
      y: "key' = y # r'" "unat y < 17" "fits (ts ! unat y) r'" by auto
    show ?thesis
    proof (cases "x = y")
      case True
      have "hexKey (x # r)" "hexKey (y # r')" using "2.prems" x(1) y(1) by (auto simp: fits_def)
      then have "r = [] \<longleftrightarrow> r' = []" using True key_index by blast
      with "2.IH" [of r'] x y True show ?thesis by simp
    next
      case False
      with x y show ?thesis by simp
    qed
  qed (use 2 in simp)
qed (auto simp: fits_def plookup_pmk_PVal simp del: plookup_pmk)

section \<open>Insertion keeps the canonical form\<close>

definition slotOk :: "nat \<Rightarrow> ptrie \<Rightarrow> bool" where
  "slotOk i t \<longleftrightarrow> t = PNil \<or> (if i = 16 then \<exists>v. v \<noteq> [] \<and> t = PVal v else canon t)"

lemma slotOk_PNil [simp]: "slotOk i PNil"
  by (simp add: slotOk_def)

lemma canon_PFull_slots:
  "canon (PFull ts) \<longleftrightarrow> length ts = 17 \<and> (\<forall>i<17. slotOk i (ts ! i)) \<and> 2 \<le> length (nonNil ts)"
proof -
  have "(\<forall>i<17. slotOk i (ts ! i)) \<longleftrightarrow> slotOk 16 (ts ! 16) \<and> (\<forall>i<16. slotOk i (ts ! i))"
    by (metis less_Suc_eq numeral_plus_one semiring_norm(5) Suc_eq_plus1 eval_nat_numeral(3))
  then show ?thesis by (auto simp: canon_PFull_iff slotOk_def)
qed

lemma fits_slotOk:
  assumes "hexKey (x # r)"
  shows "fits t r \<longleftrightarrow> slotOk (unat x) t"
  using key_index [OF assms] assms by (auto simp: fits_def slotOk_def hexKey_Cons)

lemma canon_PFull_update:
  assumes "canon (PFull ts)" and "i < 17" and "slotOk i t" and "t \<noteq> PNil"
  shows "canon (PFull (ts[i := t]))"
proof -
  from assms(1) obtain j j' where j: "j \<noteq> j'" "j < 17" "j' < 17" "ts ! j \<noteq> PNil" "ts ! j' \<noteq> PNil"
    unfolding canon_PFull_slots nonNil_two by auto
  then have "2 \<le> length (nonNil (ts[i := t]))"
    using assms(1,2,4)
    by (intro nonNil_twoI [of j j']) (auto simp: nth_list_update canon_PFull_slots)
  then show ?thesis using assms by (auto simp: canon_PFull_slots nth_list_update)
qed

lemma canon_pbranch:
  assumes "a \<noteq> b" and "unat a < 17" and "unat b < 17" and "slotOk (unat a) (pmk s t)"
    and "slotOk (unat b) (pmk r t')" and "pmk s t \<noteq> PNil" and "pmk r t' \<noteq> PNil"
  shows "canon (pbranch (a # s) t (b # r) t')"
proof -
  let ?ts = "(replicate 17 PNil)[unat a := pmk s t, unat b := pmk r t']"
  have "2 \<le> length (nonNil ?ts)"
    using assms
    by (intro nonNil_twoI [of "unat a" "unat b"]) (auto simp: nth_list_update)
  moreover have "slotOk i (?ts ! i)" if "i < 17" for i
    using that assms by (auto simp: nth_list_update)
  ultimately show ?thesis by (simp add: pbranch_def canon_PFull_slots)
qed

lemma pinsert_Nil [simp]: "pinsert t [] v = PVal v"
  by (cases t) (auto simp: pmk_def)

lemma canon_pinsert:
  "fits t key \<Longrightarrow> v \<noteq> [] \<Longrightarrow> key \<noteq> [] \<Longrightarrow> canon (pinsert t key v)"
proof (induction t key v rule: pinsert.induct)
  case (1 k t key v)
  from "1.prems"(1,3) show ?case
  proof (cases rule: fits_PShort_cases)
    case (match r)
    have c: "canon (PShort k t)" "hexKey (k @ r)" using "1.prems"(1,3) match(1) by (auto simp: fits_def)
    show ?thesis
    proof (cases "r = []")
      case True
      with match c "1.prems"(2,3) show ?thesis by (simp add: canon_PShort_iff)
    next
      case False
      with c hexKey_no_proper_prefix obtain ts where "t = PFull ts" "nibbles k" "k \<noteq> []"
        by (auto simp: canon_PShort_iff)
      moreover from this False have "\<exists>ts'. pinsert t r v = PFull ts'" by simp
      moreover have "canon (pinsert t r v)" using "1.IH" "1.prems"(2,3) match False by auto
      ultimately show ?thesis using match "1.prems"(3) by (simp add: canon_PShort_iff Let_def)
    qed
  next
    case (split p b r a s)
    note idx = fits_split_index [of p a s t b r]
    have f: "fits (PShort (p @ a # s) t) (p @ b # r)" using "1.prems"(1) split by simp
    have "slotOk (unat a) (pmk s t)" "pmk s t \<noteq> PNil"
      using idx(6) [OF f] unat_eq_eq [of a 16] by (auto simp: slotOk_def pmk_def)
    moreover have "slotOk (unat b) (pmk r (PVal v))" "pmk r (PVal v) \<noteq> PNil"
      using idx(3,4) [OF f] unat_eq_eq [of b 16] "1.prems"(2)
      by (auto simp: slotOk_def pmk_def canon_PShort_iff hexKey_def)
    ultimately have "canon (pbranch (a # s) t (b # r) (PVal v))"
      using idx(1,2) [OF f] split(3) by (intro canon_pbranch)
    then show ?thesis using split "1.prems"(3) idx(7) [OF f]
      by (auto simp: Let_def pmk_def canon_PShort_iff pbranch_def)
  qed
next
  case (2 ts key v)
  from fits_PFullD [OF "2.prems"(1)] obtain x r where
    x: "key = x # r" "length ts = 17" "unat x < 17" "fits (ts ! unat x) r" by auto
  have h: "hexKey (x # r)" and c: "canon (PFull ts)" using "2.prems" x(1) by (auto simp: fits_def)
  have "slotOk (unat x) (pinsert (ts ! unat x) r v)" "pinsert (ts ! unat x) r v \<noteq> PNil"
    using "2.IH" "2.prems"(2) x key_index [OF h] by (cases "r = []"; auto simp: slotOk_def)+
  with c x show ?case by (auto intro: canon_PFull_update)
qed (auto simp: fits_def pmk_def canon_PShort_iff)

section \<open>Deletion\<close>

lemma plookup_pprepend: "plookup (pprepend k t) key = plookup (PShort k t) key"
proof (cases t)
  case (PShort k' t')
  then have "plookup (pprepend k t) key = plookup (pmk k (pmk k' t')) key"
    by (simp only: pprepend_def ptrie.simps plookup_pmk_append)
  with PShort show ?thesis by simp
qed (simp_all add: pprepend_def)

lemma plookup_preduce:
  assumes "length ts = 17"
  shows "plookup (preduce ts) key = plookup (PFull ts) key"
proof (cases "\<exists>i. nonNil ts = [i]")
  case True
  then obtain i where i: "nonNil ts = [i]" by blast
  then have only: "j < 17 \<Longrightarrow> ts ! j \<noteq> PNil \<longleftrightarrow> j = i" and "i < 17" for j
    using nonNil_set [of ts] assms by auto
  then have [simp]: "unat (of_nat i :: byte) = i" by (simp add: unat_of_nat_byte)
  show ?thesis
  proof (cases key)
    case (Cons x r)
    have "x = of_nat i \<longleftrightarrow> unat x = i"
      by (metis \<open>unat (of_nat i) = i\<close> unat_eq_eq)
    with only [of "unat x"] Cons i \<open>i < 17\<close> assms show ?thesis
      by (auto simp: preduce_def plookup_pprepend)
  qed (simp add: preduce_def i plookup_pprepend)
next
  case False
  then show ?thesis by (auto simp: preduce_def split: list.splits)
qed

lemma plookup_pdelete:
  "fits t key \<Longrightarrow> fits t key' \<Longrightarrow> key = [] \<longleftrightarrow> key' = [] \<Longrightarrow>
   plookup (pdelete t key) key' = (if key' = key then None else plookup t key')"
proof (induction t key arbitrary: key' rule: pdelete.induct)
  case (3 k t key)
  have ne: "key \<noteq> []" using "3.prems"(1) by (auto simp: fits_def)
  with "3.prems"(1) show ?case
  proof (cases rule: fits_PShort_cases)
    case (match r)
    then have del: "pdelete (PShort k t) key = (if r = [] then PNil else pprepend k (pdelete t r))"
      by (simp add: Let_def)
    show ?thesis
    proof (cases "take (length k) key' = k")
      case True
      then obtain r' where r': "key' = k @ r'" by (metis append_take_drop_id)
      have fr: "fits t r'" "r = [] \<longleftrightarrow> r' = []"
        using "3.prems"(1,2) match(1) r' fits_PShortD fits_PShort_both by blast+
      have "r \<noteq> [] \<Longrightarrow> plookup (pdelete t r) r' = (if r' = r then None else plookup t r')"
        using "3.IH" [OF refl] match fr by simp
      with match(1) r' fr(2) show ?thesis unfolding del
        by (cases "r = []") (simp_all add: plookup_pprepend)
    next
      case False
      with match(1) have "key' \<noteq> key" by auto
      with False show ?thesis unfolding del by (simp add: plookup_pprepend)
    qed
  next
    case (split p b r a s)
    then have "prefixLen key k \<noteq> length k" by simp
    then have "take (length k) key \<noteq> k" "prefixLen key k < length k"
      using prefixLen_eq_length [of key k] prefixLen_le(2) [of key k]
      by (auto dest: take_append_drop_eq [THEN sym])
    then show ?thesis by (simp add: Let_def)
  qed
next
  case (4 ts key)
  from fits_PFullD [OF "4.prems"(1)] obtain x r where
    x: "key = x # r" "length ts = 17" "unat x < 17" "fits (ts ! unat x) r" by auto
  from fits_PFullD [OF "4.prems"(2)] obtain y r' where
    y: "key' = y # r'" "unat y < 17" "fits (ts ! unat y) r'" by auto
  show ?case
  proof (cases "x = y")
    case True
    have "hexKey (x # r)" "hexKey (y # r')" using "4.prems" x(1) y(1) by (auto simp: fits_def)
    then have "r = [] \<longleftrightarrow> r' = []" using True key_index by blast
    with "4.IH" [of r'] x y True show ?thesis by (simp add: plookup_preduce)
  next
    case False
    with x y show ?thesis by (simp add: plookup_preduce)
  qed
qed (auto simp: fits_def)

lemma canon_pprepend: "nibbles k \<Longrightarrow> k \<noteq> [] \<Longrightarrow> canon t \<Longrightarrow> canon (pprepend k t)"
  by (cases t) (auto simp: pprepend_def canon_PShort_iff hexKey_append nibbles_def)

lemma preduce_not_PNil [simp]: "preduce ts \<noteq> PNil"
  by (auto simp: preduce_def pprepend_def split: list.splits ptrie.splits)

lemma canon_preduce:
  assumes "length ts = 17" and slots: "\<And>i. i < 17 \<Longrightarrow> slotOk i (ts ! i)" and "nonNil ts \<noteq> []"
  shows "canon (preduce ts)"
proof (cases "\<exists>i. nonNil ts = [i]")
  case True
  then obtain i where i: "nonNil ts = [i]" by blast
  then have "i < 17" "ts ! i \<noteq> PNil" using nonNil_set [of ts] assms(1) by auto
  show ?thesis
  proof (cases "i = 16")
    case True
    with slots [of i] \<open>ts ! i \<noteq> PNil\<close> show ?thesis
      by (auto simp: preduce_def i slotOk_def pprepend_def canon_PShort_iff hexKey_Cons)
  next
    case False
    with \<open>i < 17\<close> have "nibbles [of_nat i]" by (simp add: word_less_iff_unat unat_of_nat_byte)
    with slots [of i] \<open>i < 17\<close> \<open>ts ! i \<noteq> PNil\<close> False show ?thesis
      by (simp add: preduce_def i slotOk_def canon_pprepend)
  qed
next
  case False
  with assms(3) have "2 \<le> length (nonNil ts)" by (cases "nonNil ts" rule: remdups_adj.cases) auto
  with False assms show ?thesis by (auto simp: preduce_def canon_PFull_slots split: list.splits)
qed

lemma fits_pdelete: "fits t key \<Longrightarrow> fits (pdelete t key) key"
proof (induction t key rule: pdelete.induct)
  case (3 k t key)
  have ne: "key \<noteq> []" using "3.prems"(1) by (auto simp: fits_def)
  with "3.prems"(1) show ?case
  proof (cases rule: fits_PShort_cases)
    case (match r)
    have c: "canon (PShort k t)" "hexKey (k @ r)" using "3.prems"(1) ne match(1) by (auto simp: fits_def)
    show ?thesis
    proof (cases "r = []")
      case False
      with c hexKey_no_proper_prefix obtain ts where t: "t = PFull ts" "nibbles k" "k \<noteq> []"
        by (auto simp: canon_PShort_iff)
      moreover have "fits (pdelete t r) r" using "3.IH" [OF refl] match False by auto
      moreover from fits_PFullD match(2) t(1) have "pdelete t r \<noteq> PNil" by fastforce
      ultimately have "canon (pprepend k (pdelete t r))"
        using False by (intro canon_pprepend) (auto simp: fits_def)
      with match False ne c show ?thesis by (simp add: Let_def fits_def)
    qed (use match ne c(2) in \<open>auto simp: Let_def fits_def\<close>)
  qed (use "3.prems" prefixLen_le(2) [of key k] in \<open>auto simp: Let_def\<close>)
next
  case (4 ts key)
  from fits_PFullD [OF "4.prems"(1)] obtain x r where
    x: "key = x # r" "length ts = 17" "unat x < 17" "fits (ts ! unat x) r" by auto
  let ?ts = "ts[unat x := pdelete (ts ! unat x) r]"
  have h: "hexKey (x # r)" and c: "canon (PFull ts)" using "4.prems" x(1) by (auto simp: fits_def)
  have "slotOk i (?ts ! i)" if "i < 17" for i
    using "4.IH" x c that fits_slotOk [OF h] by (auto simp: nth_list_update canon_PFull_slots)
  moreover from c obtain j where "j \<noteq> unat x" "j < 17" "ts ! j \<noteq> PNil"
    unfolding canon_PFull_slots nonNil_two by auto metis
  then have "j \<in> set (nonNil ?ts)" using x(2) by (simp add: nonNil_set)
  then have "nonNil ?ts \<noteq> []" by auto
  ultimately have "canon (preduce ?ts)" using x(2) by (intro canon_preduce) auto
  with x h show ?case by (simp add: fits_def)
qed (auto simp: fits_def)

section \<open>A canonical trie is determined by its contents\<close>

definition sameMap :: "ptrie \<Rightarrow> ptrie \<Rightarrow> bool" where
  "sameMap t t' \<longleftrightarrow> (\<forall>key. hexKey key \<longrightarrow> plookup t key = plookup t' key)"

lemma sameMap_sym: "sameMap t t' \<Longrightarrow> sameMap t' t"
  by (simp add: sameMap_def)

lemma slot_hit:
  assumes "slotOk i t" and "t \<noteq> PNil" and "i < 17" and "canon t \<Longrightarrow> \<exists>key. hexKey key \<and> plookup t key \<noteq> None"
  shows "\<exists>r. hexKey (of_nat i # r) \<and> plookup t r \<noteq> None"
proof (cases "i = 16")
  case True
  with assms(1,2) show ?thesis by (auto simp: slotOk_def hexKey_Cons)
next
  case False
  with assms(3) have "(of_nat i :: byte) < 16" by (simp add: word_less_iff_unat unat_of_nat_byte)
  with assms False show ?thesis by (auto simp: slotOk_def hexKey_Cons)
qed

lemma full_hit:
  assumes "canon (PFull ts)" and "i < 17" and "ts ! i \<noteq> PNil"
    and "\<And>t. t \<in> set ts \<Longrightarrow> canon t \<Longrightarrow> \<exists>key. hexKey key \<and> plookup t key \<noteq> None"
  shows "\<exists>r. hexKey (of_nat i # r) \<and> plookup (PFull ts) (of_nat i # r) \<noteq> None"
proof -
  have "slotOk i (ts ! i)" "length ts = 17" using assms(1,2) by (auto simp: canon_PFull_slots)
  with slot_hit [OF this(1) assms(3,2)] assms(2,4) show ?thesis by (simp add: unat_of_nat_byte)
qed

lemma canon_hit: "canon t \<Longrightarrow> \<exists>key. hexKey key \<and> plookup t key \<noteq> None"
proof (induction t)
  case (PShort k t)
  from PShort.prems show ?case unfolding canon_PShort_iff
  proof (elim disjE exE conjE)
    fix ts assume "t = PFull ts" "nibbles k" "canon t"
    moreover from PShort.IH this obtain r where "hexKey r" "plookup t r \<noteq> None" by auto
    ultimately show ?thesis by (intro exI [of _ "k @ r"]) (simp add: hexKey_append)
  qed (auto intro!: exI [of _ k])
next
  case (PFull ts)
  then obtain i where "i < 17" "ts ! i \<noteq> PNil" unfolding canon_PFull_slots nonNil_two by auto
  from full_hit [OF PFull.prems this PFull.IH] show ?case by blast
qed simp_all

lemma full_two_hits:
  assumes "canon (PFull ts)"
  shows "\<exists>x r y s. x \<noteq> y \<and> hexKey (x # r) \<and> hexKey (y # s) \<and>
    plookup (PFull ts) (x # r) \<noteq> None \<and> plookup (PFull ts) (y # s) \<noteq> None"
proof -
  from assms obtain i j where ij: "i \<noteq> j" "i < 17" "j < 17" "ts ! i \<noteq> PNil" "ts ! j \<noteq> PNil"
    unfolding canon_PFull_slots nonNil_two by auto
  then have "unat (of_nat i :: byte) \<noteq> unat (of_nat j :: byte)"
    by (simp add: unat_of_nat_byte del: unat_eq_eq)
  then have "(of_nat i :: byte) \<noteq> of_nat j" by auto
  with full_hit [OF assms ij(2,4) canon_hit] full_hit [OF assms ij(3,5) canon_hit] show ?thesis by blast
qed

lemma short_hit: "plookup (PShort k t) key \<noteq> None \<Longrightarrow> \<exists>r. key = k @ r \<and> plookup t r \<noteq> None"
  by (metis append_take_drop_id plookup.simps(3))

lemma short_not_full:
  assumes "canon (PShort k t)" and "canon (PFull ts)"
  shows "\<not> sameMap (PShort k t) (PFull ts)"
proof
  assume same: "sameMap (PShort k t) (PFull ts)"
  have "k \<noteq> []" using assms(1) by (auto simp: canon_PShort_iff)
  then have "hd key = hd k" if "hexKey key" "plookup (PFull ts) key \<noteq> None" for key
    using same that short_hit [of k t key] by (auto simp: sameMap_def)
  then show False using full_two_hits [OF assms(2)] by (metis list.sel(1))
qed

lemma short_same_key:
  assumes "canon (PShort k t)" and "canon (PShort k' t')" and same: "sameMap (PShort k t) (PShort k' t')"
  shows "length k' \<le> length k"
proof (rule ccontr)
  assume "\<not> length k' \<le> length k"
  have hit: "\<exists>r'. k @ r = k' @ r'" if "hexKey (k @ r)" "plookup t r \<noteq> None" for r
  proof -
    have "plookup (PShort k t) (k @ r) \<noteq> None" using that(2) by simp
    with same that(1) have "plookup (PShort k' t') (k @ r) \<noteq> None" unfolding sameMap_def by metis
    then show ?thesis using short_hit by blast
  qed
  from assms(1) show False unfolding canon_PShort_iff
  proof (elim disjE exE conjE)
    fix v assume "t = PVal v" "hexKey k"
    with hit [of "[]"] \<open>\<not> length k' \<le> length k\<close> show False by auto
  next
    fix ts assume t: "t = PFull ts" "nibbles k" "canon t"
    with full_two_hits [of ts] obtain x r y s where
      xy: "x \<noteq> y" "hexKey (k @ x # r)" "hexKey (k @ y # s)" "plookup t (x # r) \<noteq> None"
        "plookup t (y # s) \<noteq> None" by (auto simp: hexKey_append)
    from hit [OF xy(2,4)] hit [OF xy(3,5)] obtain r' s' where "k @ x # r = k' @ r'" "k @ y # s = k' @ s'"
      by blast
    then have "take (length k') (k @ x # r) = k'" "take (length k') (k @ y # s) = k'" by simp_all
    then have "k' ! length k = x" "k' ! length k = y"
      using \<open>\<not> length k' \<le> length k\<close> by (metis not_le nth_append_length nth_take)+
    with xy(1) show False by simp
  qed
qed

lemma short_same:
  assumes "canon (PShort k t)" and "canon (PShort k' t')" and same: "sameMap (PShort k t) (PShort k' t')"
  shows "k = k'"
proof -
  have "length k = length k'"
    using short_same_key [OF assms] short_same_key [OF assms(2,1) sameMap_sym [OF same]] by simp
  moreover from canon_hit [OF assms(1)] obtain key where "hexKey key" "plookup (PShort k t) key \<noteq> None" by blast
  moreover from this same have "plookup (PShort k' t') key \<noteq> None" by (simp add: sameMap_def)
  ultimately show ?thesis by (auto split: if_splits)
qed

lemma short_same_child:
  assumes "canon (PShort k t)" and "canon (PShort k t')" and same: "sameMap (PShort k t) (PShort k t')"
  shows "(\<exists>v. t = PVal v \<and> t' = PVal v) \<or> (canon t \<and> canon t' \<and> sameMap t t')"
proof (cases "hexKey k")
  case True
  with assms obtain v v' where "t = PVal v" "t' = PVal v'"
    by (auto simp: canon_PShort_iff hexKey_def nibbles_def)
  with same True show ?thesis by (auto simp: sameMap_def dest!: spec [of _ k])
next
  case False
  with assms(1,2) have k: "nibbles k" and "canon t" "canon t'" by (auto simp: canon_PShort_iff)
  moreover have "plookup t r = plookup t' r" if "hexKey r" for r
    using same that k by (auto simp: sameMap_def hexKey_append dest!: spec [of _ "k @ r"])
  ultimately show ?thesis by (simp add: sameMap_def)
qed

lemma full_same_slot:
  assumes "canon (PFull ts)" and "canon (PFull ts')" and same: "sameMap (PFull ts) (PFull ts')" and "i < 17"
  shows "ts ! i = ts' ! i \<or> (canon (ts ! i) \<and> canon (ts' ! i) \<and> sameMap (ts ! i) (ts' ! i))"
proof -
  have eq: "plookup (ts ! i) r = plookup (ts' ! i) r" if "hexKey (of_nat i # r)" for r
    using same that assms(1,2,4)
    by (auto simp: sameMap_def canon_PFull_slots unat_of_nat_byte dest!: spec [of _ "of_nat i # r"])
  have s: "slotOk i (ts ! i)" "slotOk i (ts' ! i)" using assms(1,2,4) by (auto simp: canon_PFull_slots)
  have nil: "ts ! i = PNil \<longleftrightarrow> ts' ! i = PNil"
    using slot_hit [OF s(1) _ assms(4) canon_hit] slot_hit [OF s(2) _ assms(4) canon_hit] eq
    by (metis plookup.simps(1))
  show ?thesis
  proof (cases "i = 16")
    case True
    with s eq [of "[]"] nil show ?thesis by (auto simp: slotOk_def hexKey_Cons)
  next
    case False
    with assms(4) have "(of_nat i :: byte) < 16" by (simp add: word_less_iff_unat unat_of_nat_byte)
    with s eq nil False show ?thesis by (auto simp: slotOk_def sameMap_def hexKey_Cons)
  qed
qed

lemma canon_unique: "canon t \<Longrightarrow> canon t' \<Longrightarrow> sameMap t t' \<Longrightarrow> t = t'"
proof (induction t arbitrary: t')
  case (PShort k t)
  then obtain k' u where u: "t' = PShort k' u"
    using short_not_full by (cases t') auto
  with PShort.prems short_same have "k' = k" by blast
  with short_same_child [of k t u] PShort u show ?case by blast
next
  case (PFull ts)
  then obtain ts' where u: "t' = PFull ts'"
    using short_not_full [of _ _ ts] by (cases t') (auto dest: sameMap_sym)
  have "ts ! i = ts' ! i" if "i < 17" for i
    using full_same_slot [OF _ _ _ that] PFull.prems PFull.IH that unfolding u canon_PFull_slots
    by (metis nth_mem)
  then show ?case using PFull.prems unfolding u canon_PFull_slots by (auto intro: nth_equalityI)
qed simp_all

end
