(* ===== verification/Trie_Refine.thy ===== *)
theory Trie_Refine
  imports Trie Trie_Spec
begin

text \<open>
  The nodes of \<open>Trie\<close> refine the reference tries of \<open>Trie_Spec\<close>: lookup, insertion and
  deletion on nodes, with hash references resolved through the database, always return, and
  answer what the reference functions answer, or report a missing node when the database is
  incomplete.
\<close>

section \<open>Refinement of the reference tries\<close>

text \<open>
  \<open>expands db gen n t\<close>: reading through the database \<open>db\<close>, the node \<open>n\<close> stands for the
  reference trie \<open>t\<close>. A hash reference is resolved to a short or a full node, which is all that
  \<^verbatim>\<open>decodeNode\<close> produces.
\<close>

fun innerNode :: "node \<Rightarrow> bool" where
  "innerNode (ShortNode _ _ _) = True"
| "innerNode (FullNode _ _) = True"
| "innerNode _ = False"

inductive expands :: "nodeSource \<Rightarrow> u16 \<Rightarrow> node \<Rightarrow> ptrie \<Rightarrow> bool" for db gen where
  expands_nil: "expands db gen NilNode PNil"
| expands_value: "expands db gen (ValueNode v) (PVal v)"
| expands_short: "expands db gen c t \<Longrightarrow> expands db gen (ShortNode k c f) (PShort k t)"
| expands_full: "list_all2 (expands db gen) cs ts \<Longrightarrow> expands db gen (FullNode cs f) (PFull ts)"
| expands_hash: "db (BytesToHash h) gen = (n, e) \<Longrightarrow> innerNode n \<Longrightarrow> expands db gen n t \<Longrightarrow>
    expands db gen (HashNode h) t"

inductive_simps expands_nil_iff [simp]: "expands db gen NilNode t"
inductive_simps expands_value_iff [simp]: "expands db gen (ValueNode v) t"
inductive_simps expands_short_iff [simp]: "expands db gen (ShortNode k c f) t"
inductive_simps expands_full_iff [simp]: "expands db gen (FullNode cs f) t"
inductive_simps expands_hash_iff: "expands db gen (HashNode h) t"

lemma innerNode_expands: "innerNode n \<Longrightarrow> expands db gen n t \<Longrightarrow> t \<noteq> PNil \<and> t \<noteq> PVal v"
  by (cases n) auto

lemma expands_PNil_iff: "expands db gen n t \<Longrightarrow> t = PNil \<longleftrightarrow> n = NilNode"
  by (cases n) (auto simp: expands_hash_iff dest: innerNode_expands)

lemma expands_PVal: "expands db gen n (PVal v) \<Longrightarrow> n = ValueNode v"
  by (cases n) (auto simp: expands_hash_iff dest: innerNode_expands)

text \<open>
  A database that answers like \<open>db\<close> or does not find the node: what is left when part of the
  nodes is missing.
\<close>

definition partOf :: "nodeSource \<Rightarrow> nodeSource \<Rightarrow> u16 \<Rightarrow> bool" where
  "partOf db' db gen \<longleftrightarrow> (\<forall>h. db' h gen = db h gen \<or> db' h gen = (NilNode, Some ErrNotFound))"

fun isMissing :: "trie_error \<Rightarrow> bool" where
  "isMissing (MissingNodeError _ _) = True"
| "isMissing _ = False"

lemma resolveHash_expands:
  assumes "partOf db' db gen" and "db (BytesToHash h) gen = (n, e)" and "innerNode n"
  shows "resolveHash db' gen h p = Inr n \<or> (db' \<noteq> db \<and> (\<exists>e. resolveHash db' gen h p = Inl e \<and> isMissing e))"
proof -
  have "n \<noteq> NilNode" using assms(3) by auto
  with assms spec [OF assms(1) [unfolded partOf_def], of "BytesToHash h"] show ?thesis
    by (auto simp: resolveHash_def Let_def)
qed

text \<open>What the recursive functions may answer: the right result, or, on an incomplete database, a missing node.\<close>

definition answers :: "nodeSource \<Rightarrow> nodeSource \<Rightarrow> (trie_error + 'a) option \<Rightarrow> ('a \<Rightarrow> bool) \<Rightarrow> bool" where
  "answers db' db r Q \<longleftrightarrow>
    (\<exists>x. r = Some (Inr x) \<and> Q x) \<or> (db' \<noteq> db \<and> (\<exists>e. r = Some (Inl e) \<and> isMissing e))"

lemma answers_Inr [simp]: "answers db' db (Some (Inr x)) Q \<longleftrightarrow> Q x"
  by (simp add: answers_def)

lemma answers_Inl [simp]: "answers db' db (Some (Inl e)) Q \<longleftrightarrow> db' \<noteq> db \<and> isMissing e"
  by (simp add: answers_def)

lemma answersE:
  assumes "answers db' db r Q"
  obtains x where "r = Some (Inr x)" "Q x" | e where "r = Some (Inl e)" "db' \<noteq> db" "isMissing e"
  using assms by (auto simp: answers_def)

lemma tryGet_refines:
  assumes "partOf db' db gen"
  shows "expands db gen n t \<Longrightarrow> fits t (drop pos key) \<Longrightarrow> pos \<le> length key \<Longrightarrow>
    answers db' db (tryGet db' gen n key pos)
      (\<lambda>(v, n', d). v = plookup t (drop pos key) \<and> expands db gen n' t)"
proof (induction n t arbitrary: pos rule: expands.induct)
  case expands_nil
  then show ?case by (subst tryGet.simps) simp
next
  case (expands_value v)
  then have "drop pos key = []" by (auto simp: fits_def split: if_splits)
  then show ?case by (subst tryGet.simps) simp
next
  case (expands_short c t k f)
  show ?case
  proof (cases "length key < pos + length k \<or> k \<noteq> take (length k) (drop pos key)")
    case True
    then have "take (length k) (drop pos key) \<noteq> k" using expands_short.prems(2) by auto
    with True expands_short.hyps show ?thesis by (subst tryGet.simps) simp
  next
    case False
    then obtain r where r: "drop pos key = k @ r" by (metis append_take_drop_id)
    then have d: "drop (pos + length k) key = r" by (metis append_eq_conv_conj drop_drop add.commute)
    have "fits t r" using expands_short.prems(1) r fits_PShortD(1) by simp
    with expands_short.IH [of "pos + length k"] False d
    have "answers db' db (tryGet db' gen c key (pos + length k))
        (\<lambda>(v, n', d). v = plookup t r \<and> expands db gen n' t)" by simp
    then show ?thesis using False r expands_short.hyps
      by (subst tryGet.simps) (auto elim!: answersE)
  qed
next
  case (expands_full cs ts f)
  from fits_PFullD [OF expands_full.prems(1)] obtain x r where
    x: "drop pos key = x # r" "length ts = 17" "unat x < 17" "fits (ts ! unat x) r" by blast
  then have pos: "pos < length key" "key ! pos = x" "drop (pos + 1) key = r"
    using drop_eq_ConsD [OF x(1)] by simp_all
  have len: "length cs = 17" using expands_full.IH x(2) by (auto dest: list_all2_lengthD)
  from expands_full.IH x len have "expands db gen (cs ! unat x) (ts ! unat x)" and
    "answers db' db (tryGet db' gen (cs ! unat x) key (pos + 1))
        (\<lambda>(v, n', d). v = plookup (ts ! unat x) r \<and> expands db gen n' (ts ! unat x))"
    using pos by (auto simp: list_all2_conv_all_nth)
  moreover have "list_all2 (expands db gen) cs ts"
    using expands_full.IH by (auto elim: list_all2_mono)
  ultimately show ?case using pos len x
    by (subst tryGet.simps) (auto elim!: answersE simp: list_all2_conv_all_nth nth_list_update)
next
  case (expands_hash h n e t)
  from expands_hash.IH [OF expands_hash.prems] resolveHash_expands [OF assms expands_hash.hyps(1,2), of "take pos key"]
  show ?case by (subst tryGet.simps) (auto elim!: answersE)
qed

lemma trieInsert_nil:
  "trieInsert db gen NilNode prefix key val =
    Some (Inr (True, if key = [] then val else ShortNode key val (newFlag gen)))"
  by (subst trieInsert.simps) simp

lemma expands_pmk:
  "expands db gen c t \<Longrightarrow> expands db gen (if k = [] then c else ShortNode k c f) (pmk k t)"
  by (simp add: pmk_def)

lemma expands_pbranch:
  assumes "expands db gen c t" and "expands db gen c' t'"
  shows "expands db gen
    (FullNode ((replicate 17 NilNode)[unat a := (if s = [] then c else ShortNode s c f),
                                      unat b := (if r = [] then c' else ShortNode r c' f)]) g)
    (pbranch (a # s) t (b # r) t')"
proof -
  have nil: "list_all2 (expands db gen) (replicate 17 NilNode) (replicate 17 PNil)"
    by (simp add: list_all2_conv_all_nth)
  show ?thesis unfolding pbranch_def expands_full_iff
    using list_all2_update_cong [OF list_all2_update_cong [OF nil expands_pmk [OF assms(1)]]
      expands_pmk [OF assms(2)]] by auto
qed

lemma trieInsert_short_split:
  assumes "key = p @ b # r" and "k = p @ a # s" and "a \<noteq> b" and "unat a < 17" and "unat b < 17"
    and "expands db gen c t"
  shows "\<exists>n'. trieInsert db' gen (ShortNode k c f) prefix key (ValueNode v) = Some (Inr (True, n')) \<and>
    expands db gen n' (pmk p (pbranch (a # s) t (b # r) (PVal v)))"
proof -
  have "prefixLen key k = length p" using assms(1-3) by (induction p arbitrary: key k) auto
  then show ?thesis using assms expands_pbranch [OF assms(6) expands_value, of a s "newFlag gen" b r v]
    by (subst trieInsert.simps) (auto simp: Let_def trieInsert_nil pmk_def nth_append)
qed

lemma list_all2_update_id: "list_all2 P xs ys \<Longrightarrow> P x (ys ! i) \<Longrightarrow> list_all2 P (xs[i := x]) ys"
  by (metis list_all2_update_cong list_update_id)

lemma full_child:
  assumes "list_all2 P cs ts" and "length ts = 17" and "unat (x :: byte) < 17"
  shows "length cs = 17" and "P (cs ! unat x) (ts ! unat x)"
  using assms by (auto simp: list_all2_conv_all_nth)

lemma trieInsert_refines:
  assumes "partOf db' db gen"
  shows "expands db gen n t \<Longrightarrow> fits t key \<Longrightarrow>
    answers db' db (trieInsert db' gen n prefix key (ValueNode v))
      (\<lambda>(d, n'). expands db gen n' (pinsert t key v) \<and> (\<not> d \<longrightarrow> pinsert t key v = t))"
proof (induction n t arbitrary: prefix key rule: expands.induct)
  case expands_nil
  then show ?case by (simp add: trieInsert_nil pmk_def)
next
  case (expands_value w)
  then have "key = []" by (auto simp: fits_def split: if_splits)
  then show ?case by (subst trieInsert.simps) simp
next
  case (expands_short c t k f)
  have ne: "key \<noteq> []" using expands_short.prems by (auto simp: fits_def)
  with expands_short.prems show ?case
  proof (cases rule: fits_PShort_cases)
    case (match r)
    from expands_short.IH [OF match(2), of "prefix @ k"] show ?thesis
      using match ne expands_short.hyps
      by (subst trieInsert.simps) (auto elim!: answersE simp: Let_def)
  next
    case (split p b r a s)
    have "fits (PShort (p @ a # s) t) (p @ b # r)" using expands_short.prems split by simp
    from trieInsert_short_split [OF split(1-3) fits_split_index(1,2) [OF this] expands_short.hyps, of db' f prefix v]
    show ?thesis using split(1,2,4,5) by (auto simp: Let_def)
  qed
next
  case (expands_full cs ts f)
  from fits_PFullD [OF expands_full.prems(1)] obtain x r where
    x: "key = x # r" "length ts = 17" "unat x < 17" "fits (ts ! unat x) r" by blast
  note child = full_child [OF expands_full.IH x(2,3)]
  have cs: "list_all2 (expands db gen) cs ts" using expands_full.IH by (auto elim: list_all2_mono)
  from child(2) x(4) have "answers db' db (trieInsert db' gen (cs ! unat x) (prefix @ [x]) r (ValueNode v))
      (\<lambda>(d, n'). expands db gen n' (pinsert (ts ! unat x) r v) \<and> (\<not> d \<longrightarrow> pinsert (ts ! unat x) r v = ts ! unat x))"
    by blast
  then show ?case using x child(1) cs
    by (subst trieInsert.simps) (auto elim!: answersE intro: list_all2_update_cong list_all2_update_id)
next
  case (expands_hash h n e t)
  from expands_hash.IH [OF expands_hash.prems, of prefix]
    resolveHash_expands [OF assms expands_hash.hyps(1,2), of prefix] expands_hash.hyps(3)
  show ?case by (subst trieInsert.simps) (auto elim!: answersE)
qed

lemma scanChildren_spec:
  "scanChildren i (-1) cs =
    (case filter (\<lambda>j. cs ! j \<noteq> NilNode) [0..<length cs] of [] \<Rightarrow> -1 | [j] \<Rightarrow> int (i + j) | _ \<Rightarrow> -2)"
  "0 \<le> p \<Longrightarrow> scanChildren i p cs = (if \<forall>c\<in>set cs. c = NilNode then p else -2)"
proof -
  show two: "0 \<le> p \<Longrightarrow> scanChildren i p cs = (if \<forall>c\<in>set cs. c = NilNode then p else -2)" for i p cs
    by (induction cs arbitrary: i) auto
  show "scanChildren i (-1) cs =
    (case filter (\<lambda>j. cs ! j \<noteq> NilNode) [0..<length cs] of [] \<Rightarrow> -1 | [j] \<Rightarrow> int (i + j) | _ \<Rightarrow> -2)"
  proof (induction cs arbitrary: i)
    case (Cons c cs)
    let ?F = "filter (\<lambda>j. cs ! j \<noteq> NilNode) [0..<length cs]"
    have fil: "filter (\<lambda>j. (c # cs) ! j \<noteq> NilNode) [0..<length (c # cs)] =
        (if c \<noteq> NilNode then [0] else []) @ map Suc ?F"
      by (simp add: upt_conv_Cons map_Suc_upt [symmetric] filter_map comp_def del: upt_Suc)
    have nil: "?F = [] \<longleftrightarrow> (\<forall>c\<in>set cs. c = NilNode)"
      by (auto simp: filter_empty_conv all_set_conv_all_nth)
    show ?case unfolding fil using Cons.IH [of "Suc i"] two [of "int i" "Suc i" cs] nil
      by (cases "c = NilNode"; cases ?F rule: remdups_adj.cases) auto
  qed simp
qed

lemma resolve_expands:
  assumes "partOf db' db gen" and "expands db gen n t" and "canon t"
  shows "(\<exists>n'. resolve db' gen n p = Inr n' \<and> innerNode n' \<and> expands db gen n' t) \<or>
    (db' \<noteq> db \<and> (\<exists>e. resolve db' gen n p = Inl e \<and> isMissing e))"
proof (cases n)
  case (HashNode h)
  with assms(2) obtain m e where m: "db (BytesToHash h) gen = (m, e)" "innerNode m" "expands db gen m t"
    by (auto simp: expands_hash_iff)
  with resolveHash_expands [OF assms(1) m(1,2), of p] HashNode show ?thesis by (auto simp: resolve_def)
qed (use assms(2,3) in \<open>auto simp: resolve_def\<close>)

lemma nonNil_expands:
  assumes "list_all2 (expands db gen) cs ts"
  shows "filter (\<lambda>j. cs ! j \<noteq> NilNode) [0..<length cs] = nonNil ts"
  unfolding nonNil_def using assms
  by (auto simp: list_all2_conv_all_nth expands_PNil_iff intro!: filter_cong)

lemma reduceFull_refines:
  assumes db: "partOf db' db gen" and cs: "list_all2 (expands db gen) cs ts" and "length ts = 17"
    and slots: "\<And>i. i < 17 \<Longrightarrow> slotOk i (ts ! i)"
  shows "answers db' db (Some (reduceFull db' gen cs prefix))
    (\<lambda>(d, n'). d \<and> expands db gen n' (preduce ts) \<and> innerNode n')"
proof (cases "\<exists>i. nonNil ts = [i]")
  case True
  then obtain i where i: "nonNil ts = [i]" by blast
  then have "i < 17" "ts ! i \<noteq> PNil" using nonNil_set [of ts] assms(3) by auto
  have c: "expands db gen (cs ! i) (ts ! i)" using cs \<open>i < 17\<close> assms(3) by (simp add: list_all2_conv_all_nth)
  have scan: "scanChildren 0 (-1) cs = int i"
    by (simp add: scanChildren_spec nonNil_expands [OF cs] i)
  show ?thesis
  proof (cases "i = 16")
    case True
    with slots [of i] \<open>ts ! i \<noteq> PNil\<close> obtain v where "ts ! i = PVal v" by (auto simp: slotOk_def)
    with c True show ?thesis by (simp add: reduceFull_def scan preduce_def i pprepend_def)
  next
    case False
    with slots [of i] \<open>ts ! i \<noteq> PNil\<close> \<open>i < 17\<close> have "canon (ts ! i)" by (simp add: slotOk_def)
    from resolve_expands [OF db c this, of prefix] show ?thesis
    proof (elim disjE exE conjE)
      fix n' assume n': "resolve db' gen (cs ! i) prefix = Inr n'" "innerNode n'" "expands db gen n' (ts ! i)"
      then show ?thesis using False c
        by (cases n') (auto simp: reduceFull_def scan preduce_def i pprepend_def Let_def)
    qed (use False in \<open>simp add: reduceFull_def scan Let_def\<close>)
  qed
next
  case False
  then have "scanChildren 0 (-1) cs < 0"
    by (auto simp: scanChildren_spec nonNil_expands [OF cs] split: list.splits)
  moreover have "preduce ts = PFull ts" using False by (auto simp: preduce_def split: list.splits)
  ultimately show ?thesis using cs by (simp add: reduceFull_def Let_def)
qed

lemma preduce_canon: "canon (PFull ts) \<Longrightarrow> preduce ts = PFull ts"
  by (auto simp: preduce_def canon_PFull_slots split: list.splits)

lemma pprepend_canon: "canon (PShort k t) \<Longrightarrow> pprepend k t = PShort k t"
  by (auto simp: canon_PShort_iff pprepend_def)

lemma fits_delete_slots:
  assumes "fits (PFull ts) (x # r)" and "unat x < 17" and "i < 17"
  shows "slotOk i (ts[unat x := pdelete (ts ! unat x) r] ! i)"
proof -
  have h: "hexKey (x # r)" and c: "canon (PFull ts)" using assms(1) by (auto simp: fits_def)
  have "fits (ts ! unat x) r" using fits_PFullD [OF assms(1)] by auto
  then have "slotOk (unat x) (pdelete (ts ! unat x) r)" using fits_pdelete fits_slotOk [OF h] by blast
  with c assms(2,3) show ?thesis by (auto simp: canon_PFull_slots nth_list_update)
qed

definition afterDelete :: "nodeSource \<Rightarrow> u16 \<Rightarrow> ptrie \<Rightarrow> bytes \<Rightarrow> bool \<times> node \<Rightarrow> bool" where
  "afterDelete db gen t key = (\<lambda>(d, n'). expands db gen n' (pdelete t key) \<and> (\<not> d \<longrightarrow> pdelete t key = t) \<and>
     (d \<longrightarrow> n' = NilNode \<or> innerNode n'))"

lemma trieDelete_short:
  assumes key: "key = k @ r" and c: "expands db gen c t" and pc: "pprepend k t = PShort k t"
    and sub: "answers db' db (trieDelete db' gen c (prefix @ k) r) (afterDelete db gen t r)"
  shows "answers db' db (trieDelete db' gen (ShortNode k c f) prefix key) (afterDelete db gen (PShort k t) key)"
proof (cases "r = []")
  case True
  with key show ?thesis by (subst trieDelete.simps) (simp add: Let_def afterDelete_def)
next
  case False
  with key have eq: "pdelete (PShort k t) key = pprepend k (pdelete t r)" by (simp add: Let_def)
  from sub show ?thesis
  proof (cases rule: answersE)
    case (1 y)
    obtain d n' where y: "y = (d, n')" by force
    show ?thesis
    proof (cases d)
      case True
      with 1 y have "expands db gen n' (pdelete t r)" "n' = NilNode \<or> innerNode n'"
        by (auto simp: afterDelete_def)
      with 1 y True False key show ?thesis unfolding afterDelete_def eq
        by (subst trieDelete.simps) (cases n'; auto simp: Let_def pprepend_def)
    next
      case unchanged: False
      with 1 y False key pc c show ?thesis unfolding afterDelete_def eq
        by (subst trieDelete.simps) (simp add: Let_def)
    qed
  qed (use False key in \<open>subst trieDelete.simps, simp add: Let_def\<close>)
qed

lemma trieDelete_refines:
  assumes "partOf db' db gen"
  shows "expands db gen n t \<Longrightarrow> fits t key \<Longrightarrow>
    answers db' db (trieDelete db' gen n prefix key) (afterDelete db gen t key)"
proof (induction n t arbitrary: prefix key rule: expands.induct)
  case expands_nil
  then show ?case by (subst trieDelete.simps) (simp add: afterDelete_def)
next
  case (expands_value w)
  then show ?case by (subst trieDelete.simps) (simp add: afterDelete_def)
next
  case (expands_short c t k f)
  have ne: "key \<noteq> []" using expands_short.prems by (auto simp: fits_def)
  with expands_short.prems show ?case
  proof (cases rule: fits_PShort_cases)
    case (match r)
    have pc: "pprepend k t = PShort k t"
      using expands_short.prems ne by (auto simp: fits_def intro: pprepend_canon)
    from trieDelete_short [OF match(1) expands_short.hyps pc expands_short.IH [OF match(2)]]
    show ?thesis .
  next
    case (split p b r a s)
    then have "prefixLen key k < length k" using prefixLen_le(2) [of key k] by simp
    then show ?thesis using expands_short.hyps
      by (subst trieDelete.simps) (simp add: Let_def afterDelete_def)
  qed
next
  case (expands_full cs ts f)
  from fits_PFullD [OF expands_full.prems(1)] obtain x r where
    x: "key = x # r" "length ts = 17" "unat x < 17" "fits (ts ! unat x) r" by blast
  note child = full_child [OF expands_full.IH x(2,3)]
  have cs: "list_all2 (expands db gen) cs ts" using expands_full.IH by (auto elim: list_all2_mono)
  have can: "canon (PFull ts)" using expands_full.prems x(1) by (simp add: fits_def)
  from child(2) x(4) have "answers db' db (trieDelete db' gen (cs ! unat x) (prefix @ [x]) r)
      (afterDelete db gen (ts ! unat x) r)" by blast
  then show ?case
  proof (cases rule: answersE)
    case (1 y)
    obtain d n' where y: "y = (d, n')" by force
    show ?thesis
    proof (cases d)
      case True
      have "list_all2 (expands db gen) (cs[unat x := n']) (ts[unat x := pdelete (ts ! unat x) r])"
        using 1 y cs by (auto simp: afterDelete_def intro: list_all2_update_cong)
      from reduceFull_refines [OF assms this, where prefix = prefix] fits_delete_slots [of ts x r]
      show ?thesis using 1 y True x child(1) expands_full.prems
        by (subst trieDelete.simps) (auto simp: afterDelete_def answers_def)
    next
      case False
      then show ?thesis using 1 y x child(1) cs preduce_canon [OF can]
        by (subst trieDelete.simps) (simp add: afterDelete_def)
    qed
  next
    case (2 e)
    then show ?thesis using x child(1) by (subst trieDelete.simps) simp
  qed
next
  case (expands_hash h n e t)
  from expands_hash.IH [OF expands_hash.prems, of prefix]
    resolveHash_expands [OF assms expands_hash.hyps(1,2), of prefix] expands_hash.hyps(3)
  show ?case by (subst trieDelete.simps) (auto elim!: answersE simp: afterDelete_def)
qed

end
