(* ===== verification/Trie_Map.thy ===== *)
theory Trie_Map
  imports Trie_Refine
begin

text \<open>
  Trie objects implement finite maps from byte keys to non-empty values. The contract the
  account layer relies on is the locale \<open>byte_store\<close>, interpreted on \<open>TryGet\<close>, \<open>TryUpdate\<close>
  and \<open>TryDelete\<close>.
\<close>

section \<open>Trie objects as finite maps\<close>

text \<open>
  \<open>represents db t m\<close>: the trie object \<open>t\<close>, read through \<open>db\<close>, stores the finite map \<open>m\<close> from
  byte keys to non-empty values, in canonical form.
\<close>

definition contents :: "ptrie \<Rightarrow> (bytes \<Rightarrow> bytes option) \<Rightarrow> bool" where
  "contents p m \<longleftrightarrow> (p = PNil \<or> canon p) \<and> (\<forall>k. plookup p (keybytesToHex k) = m k) \<and>
     (\<forall>key. hexKey key \<longrightarrow> key \<notin> range keybytesToHex \<longrightarrow> plookup p key = None)"

definition represents :: "nodeSource \<Rightarrow> trie \<Rightarrow> (bytes \<Rightarrow> bytes option) \<Rightarrow> bool" where
  "represents db t m \<longleftrightarrow> (\<exists>p. expands db (cachegen t) (root t) p \<and> contents p m)"

definition mapUpdate :: "(bytes \<Rightarrow> bytes option) \<Rightarrow> bytes \<Rightarrow> bytes \<Rightarrow> bytes \<Rightarrow> bytes option" where
  "mapUpdate m k v = (if v = [] then m(k := None) else m(k \<mapsto> v))"

lemma contents_fits: "contents p m \<Longrightarrow> hexKey key \<Longrightarrow> fits p key"
  by (auto simp: contents_def fits_def)

lemma keybytesToHex_eq_iff [simp]: "keybytesToHex k = keybytesToHex k' \<longleftrightarrow> k = k'"
  using keybytesToHex_inj by blast

lemma contentsI:
  assumes "p' = PNil \<or> canon p'" and "contents p m"
    and "\<And>key. hexKey key \<Longrightarrow> plookup p' key = (if key = keybytesToHex k then v else plookup p key)"
  shows "contents p' (m(k := v))"
  using assms by (auto simp: contents_def)

lemma contents_pinsert:
  assumes "contents p m" and "v \<noteq> []"
  shows "contents (pinsert p (keybytesToHex k) v) (m(k \<mapsto> v))"
proof -
  note f = contents_fits [OF assms(1)]
  have "canon (pinsert p (keybytesToHex k) v)" using canon_pinsert [OF f assms(2)] by simp
  moreover have "plookup (pinsert p (keybytesToHex k) v) key =
      (if key = keybytesToHex k then Some v else plookup p key)" if "hexKey key" for key
    using that by (intro plookup_pinsert f) auto
  ultimately show ?thesis using assms(1) by (intro contentsI) auto
qed

lemma contents_pdelete:
  assumes "contents p m"
  shows "contents (pdelete p (keybytesToHex k)) (m(k := None))"
proof -
  note f = contents_fits [OF assms(1)]
  have "pdelete p (keybytesToHex k) = PNil \<or> canon (pdelete p (keybytesToHex k))"
    using fits_pdelete [OF f, of "keybytesToHex k"] by (simp add: fits_def)
  moreover have "plookup (pdelete p (keybytesToHex k)) key =
      (if key = keybytesToHex k then None else plookup p key)" if "hexKey key" for key
    using that by (intro plookup_pdelete f) auto
  ultimately show ?thesis using assms by (intro contentsI) auto
qed

lemma contents_unique: "contents p m \<Longrightarrow> contents p' m \<Longrightarrow> p = p'"
proof -
  assume c: "contents p m" "contents p' m"
  have same: "sameMap p p'" unfolding sameMap_def
  proof (intro allI impI)
    fix key assume "hexKey key"
    with c show "plookup p key = plookup p' key"
      by (cases "key \<in> range keybytesToHex") (auto simp: contents_def)
  qed
  from c have "p = PNil \<or> canon p" "p' = PNil \<or> canon p'" by (auto simp: contents_def)
  then show ?thesis using canon_unique same canon_hit [of p] canon_hit [of p']
    by (auto simp: sameMap_def)
qed

lemma TryGet_answers:
  assumes "partOf db' db (cachegen t)" and "represents db t m"
  shows "\<exists>r t'. TryGet db' t k = Some (r, t') \<and> represents db t' m \<and> cachegen t' = cachegen t \<and>
    (r = Inr (m k) \<or> (db' \<noteq> db \<and> (\<exists>e. r = Inl e \<and> isMissing e) \<and> t' = t))"
proof -
  from assms(2) obtain p where p: "expands db (cachegen t) (root t) p" "contents p m"
    by (auto simp: represents_def)
  have "fits p (drop 0 (keybytesToHex k))" using contents_fits [OF p(2)] by simp
  from tryGet_refines [OF assms(1) p(1) this] p(2)
  have "answers db' db (tryGet db' (cachegen t) (root t) (keybytesToHex k) 0)
      (\<lambda>(v, n', d). v = m k \<and> expands db (cachegen t) n' p)" by (simp add: contents_def)
  then show ?thesis
  proof (cases rule: answersE)
    case (1 x)
    then obtain n' d where x: "x = (m k, n', d)" "expands db (cachegen t) n' p" by auto
    show ?thesis unfolding TryGet_def 1(1) x(1) using x(2) p assms(2)
      by (auto simp: represents_def)
  qed (use assms(2) in \<open>auto simp: TryGet_def\<close>)
qed

lemma setRoot_represents:
  assumes "answers db' db r (\<lambda>(d, n). expands db (cachegen t) n p)" and "contents p m'"
    and "represents db t m"
  shows "\<exists>e t'. map_option (setRoot t) r = Some (e, t') \<and> cachegen t' = cachegen t \<and>
    ((e = None \<and> represents db t' m') \<or>
     (db' \<noteq> db \<and> (\<exists>x. e = Some x \<and> isMissing x) \<and> t' = t))"
  using assms by (auto simp: setRoot_def represents_def elim!: answersE)

lemma trieDelete_represents:
  assumes "partOf db' db (cachegen t)" and "represents db t m"
  shows "\<exists>e t'. map_option (setRoot t) (trieDelete db' (cachegen t) (root t) [] (keybytesToHex k)) = Some (e, t') \<and>
    cachegen t' = cachegen t \<and>
    ((e = None \<and> represents db t' (m(k := None))) \<or> (db' \<noteq> db \<and> (\<exists>x. e = Some x \<and> isMissing x) \<and> t' = t))"
proof -
  from assms(2) obtain p where p: "expands db (cachegen t) (root t) p" "contents p m"
    by (auto simp: represents_def)
  have "answers db' db (trieDelete db' (cachegen t) (root t) [] (keybytesToHex k))
      (\<lambda>(d, n). expands db (cachegen t) n (pdelete p (keybytesToHex k)))"
    using trieDelete_refines [OF assms(1) p(1) contents_fits [OF p(2) keybytesToHex_hexKey], of "[]" k]
    by (auto simp: answers_def afterDelete_def)
  from setRoot_represents [OF this contents_pdelete [OF p(2)] assms(2)] show ?thesis .
qed

lemma TryUpdate_answers:
  assumes "partOf db' db (cachegen t)" and "represents db t m"
  shows "\<exists>e t'. TryUpdate db' t k v = Some (e, t') \<and> cachegen t' = cachegen t \<and>
    ((e = None \<and> represents db t' (mapUpdate m k v)) \<or>
     (db' \<noteq> db \<and> (\<exists>x. e = Some x \<and> isMissing x) \<and> t' = t))"
proof (cases "v = []")
  case True
  with trieDelete_represents [OF assms] show ?thesis by (simp add: TryUpdate_def mapUpdate_def)
next
  case False
  from assms(2) obtain p where p: "expands db (cachegen t) (root t) p" "contents p m"
    by (auto simp: represents_def)
  have "answers db' db (trieInsert db' (cachegen t) (root t) [] (keybytesToHex k) (ValueNode v))
      (\<lambda>(d, n). expands db (cachegen t) n (pinsert p (keybytesToHex k) v))"
    using trieInsert_refines [OF assms(1) p(1) contents_fits [OF p(2) keybytesToHex_hexKey], of "[]" k v]
    by (auto simp: answers_def)
  from setRoot_represents [OF this contents_pinsert [OF p(2) False] assms(2)] False
  show ?thesis by (simp add: TryUpdate_def mapUpdate_def)
qed

lemma emptyTrie_represents: "represents db emptyTrie (\<lambda>_. None)"
  by (auto simp: represents_def emptyTrie_def contents_def)

lemma partOf_refl [simp]: "partOf db db gen"
  by (simp add: partOf_def)

section \<open>The contract of a byte store\<close>

text \<open>
  The interface \<^verbatim>\<open>account.Trie\<close>: what the account layer relies on when it reads and writes
  through a trie whose nodes are all available.
\<close>

locale byte_store =
  fixes rep :: "'s \<Rightarrow> (bytes \<Rightarrow> bytes option) \<Rightarrow> bool"
    and get :: "'s \<Rightarrow> bytes \<Rightarrow> ((trie_error + bytes option) \<times> 's) option"
    and put :: "'s \<Rightarrow> bytes \<Rightarrow> bytes \<Rightarrow> (trie_error option \<times> 's) option"
    and del :: "'s \<Rightarrow> bytes \<Rightarrow> (trie_error option \<times> 's) option"
  assumes get_law: "rep s m \<Longrightarrow> \<exists>s'. get s k = Some (Inr (m k), s') \<and> rep s' m"
    and put_law: "rep s m \<Longrightarrow> \<exists>s'. put s k v = Some (None, s') \<and> rep s' (mapUpdate m k v)"
    and del_law: "rep s m \<Longrightarrow> \<exists>s'. del s k = Some (None, s') \<and> rep s' (m(k := None))"
begin

lemma get_put:
  assumes "rep s m"
  shows "\<exists>s' s''. put s k v = Some (None, s') \<and>
    get s' k' = Some (Inr (if k' = k then (if v = [] then None else Some v) else m k'), s'')"
proof -
  from put_law [OF assms] obtain s' where s': "put s k v = Some (None, s')" "rep s' (mapUpdate m k v)"
    by blast
  from get_law [OF s'(2), of k'] s'(1) show ?thesis by (auto simp: mapUpdate_def)
qed

lemma get_del:
  assumes "rep s m"
  shows "\<exists>s' s''. del s k = Some (None, s') \<and> get s' k' = Some (Inr (if k' = k then None else m k'), s'')"
proof -
  from del_law [OF assms] obtain s' where s': "del s k = Some (None, s')" "rep s' (m(k := None))"
    by blast
  from get_law [OF s'(2), of k'] s'(1) show ?thesis by auto
qed

end

interpretation ts: byte_store "represents db" "TryGet db" "TryUpdate db" "TryDelete db" for db
proof
  fix s m k v
  assume r: "represents db s m"
  show "\<exists>s'. TryGet db s k = Some (Inr (m k), s') \<and> represents db s' m"
    using TryGet_answers [OF _ r, of db k] by auto
  show "\<exists>s'. TryUpdate db s k v = Some (None, s') \<and> represents db s' (mapUpdate m k v)"
    using TryUpdate_answers [OF _ r, of db k v] by auto
  show "\<exists>s'. TryDelete db s k = Some (None, s') \<and> represents db s' (m(k := None))"
    using trieDelete_represents [OF _ r, of db k] by (auto simp: TryDelete_def)
qed

section \<open>Properties\<close>

lemma isMissing_iff: "isMissing e \<longleftrightarrow> (\<exists>h p. e = MissingNodeError h p)"
  by (cases e) auto

text \<open>
  A one-entry trie behind a hash reference: the root is the reference, the database holds the
  short node.
\<close>

definition oneEntryDb :: nodeSource where
  "oneEntryDb h gen = (ShortNode [0, 1, 16] (ValueNode [42]) (newFlag 0), None)"

definition oneEntryTrie :: trie where
  "oneEntryTrie = emptyTrie\<lparr>root := HashNode [7]\<rparr>"

definition emptyDb :: nodeSource where
  "emptyDb h gen = (NilNode, Some ErrNotFound)"

lemma keybytesToHex_single: "keybytesToHex [1] = [0, 1, 16]"
  by simp

lemma oneEntry_represents: "represents oneEntryDb oneEntryTrie [[1] \<mapsto> [42]]"
proof -
  let ?p = "PShort [0, 1, 16] (PVal [42])"
  have l: "plookup ?p key = (if key = keybytesToHex [1] then Some [42] else None)" for key
    unfolding keybytesToHex_single using plookup_pmk_PVal [of "[0, 1, 16]" "[42]" key] by (simp add: pmk_def)
  have "expands oneEntryDb (cachegen oneEntryTrie) (root oneEntryTrie) ?p"
    by (simp add: oneEntryTrie_def expands_hash_iff oneEntryDb_def)
  moreover have "contents ?p [[1] \<mapsto> [42]]"
    unfolding contents_def l
    by (auto simp: canon_PShort_iff hexKey_Cons simp del: keybytesToHex.simps)
  ultimately show ?thesis unfolding represents_def by blast
qed

text \<open>
  (C10) Writing through a trie object is the update of a finite map. Whatever nodes still sit in
  the database, TryUpdate returns without an error, an empty value removes the key, and a
  following TryGet of any key returns what the updated map holds.
\<close>

theorem TryUpdate_TryGet:
  assumes "represents db t m"
  shows "\<exists>t' t''. TryUpdate db t k v = Some (None, t') \<and>
    TryGet db t' k' = Some (Inr (if k' = k then (if v = [] then None else Some v) else m k'), t'')"
  using assms by (rule ts.get_put)

theorem TryUpdate_TryGet_witness:
  "\<exists>t' t''. TryUpdate oneEntryDb oneEntryTrie [1, 2] [9] = Some (None, t') \<and>
    TryGet oneEntryDb t' [1] = Some (Inr (Some [42]), t'')"
  using TryUpdate_TryGet [OF oneEntry_represents, of "[1, 2]" "[9]" "[1]"] by simp

text \<open>
  (C15) Deleting a key from a trie object removes exactly that key: TryDelete returns without an
  error and a following TryGet of any other key still returns the old value.
\<close>

theorem TryDelete_TryGet:
  assumes "represents db t m"
  shows "\<exists>t' t''. TryDelete db t k = Some (None, t') \<and>
    TryGet db t' k' = Some (Inr (if k' = k then None else m k'), t'')"
  using assms by (rule ts.get_del)

theorem TryDelete_TryGet_witness:
  "\<exists>t' t''. TryDelete oneEntryDb oneEntryTrie [1] = Some (None, t') \<and>
    TryGet oneEntryDb t' [1] = Some (Inr None, t'')"
  using TryDelete_TryGet [OF oneEntry_represents, of "[1]" "[1]"] by simp

text \<open>
  (C16) An incomplete database never makes a trie operation answer wrongly. When some nodes are
  not found, TryGet and TryUpdate either do what they do on the complete database or fail with a
  missing-node error and leave the trie as it was; without missing nodes they do not fail.
\<close>

theorem missing_nodes_are_reported:
  assumes "partOf db' db (cachegen t)" and "represents db t m"
  shows "(\<exists>r t'. TryGet db' t k = Some (r, t') \<and> represents db t' m \<and>
      (r = Inr (m k) \<or> (db' \<noteq> db \<and> (\<exists>h p. r = Inl (MissingNodeError h p)) \<and> t' = t))) \<and>
    (\<exists>e t'. TryUpdate db' t k v = Some (e, t') \<and>
      ((e = None \<and> represents db t' (mapUpdate m k v)) \<or>
       (db' \<noteq> db \<and> (\<exists>h p. e = Some (MissingNodeError h p)) \<and> t' = t)))"
  using TryGet_answers [OF assms, of k] TryUpdate_answers [OF assms, of k v]
  unfolding isMissing_iff by blast

theorem missing_nodes_are_reported_witness:
  "(\<exists>h p t'. TryGet emptyDb oneEntryTrie [1] = Some (Inl (MissingNodeError h p), t') \<and> t' = oneEntryTrie)"
proof -
  have "partOf emptyDb oneEntryDb (cachegen oneEntryTrie)" by (simp add: partOf_def emptyDb_def)
  from missing_nodes_are_reported [OF this oneEntry_represents, of "[1]" "[]"]
  have "\<exists>r t'. TryGet emptyDb oneEntryTrie [1] = Some (r, t') \<and>
      (r = Inr (Some [42]) \<or> ((\<exists>h p. r = Inl (MissingNodeError h p)) \<and> t' = oneEntryTrie))"
    by auto
  moreover have "TryGet emptyDb oneEntryTrie [1] \<noteq> Some (Inr (Some [42]), t')" for t'
    by (simp add: TryGet_def oneEntryTrie_def emptyDb_def resolveHash_def tryGet.simps Let_def)
  ultimately show ?thesis by auto
qed



end
