(* ===== verification/Account_Object.thy ===== *)
theory Account_Object
  imports Trie_Map "HOL-Library.AList"
begin

text \<open>
  Account objects and the account database, \<^verbatim>\<open>src/storage/account/account_object.go\<close>,
  \<^verbatim>\<open>transaction.go\<close> and the records of \<^verbatim>\<open>accountdb.go\<close>. A method of an account object works
  on the object and on the database it belongs to (the field \<^verbatim>\<open>ao.db\<close>): it takes and returns
  both. A nil byte slice is \<open>None\<close>. Opened tries are the finite maps that \<open>Trie_Map\<close> shows
  trie objects to be; how a root hash is opened, hashed and how accounts are serialized are the
  fields of \<open>accountDatabase\<close>.
\<close>

section \<open>Records\<close>

type_synonym kv = "bytes \<Rightarrow> bytes option"

text \<open>\<^verbatim>\<open>type Storage map[string][]byte\<close>, an association list without duplicate keys.\<close>

type_synonym Storage = "(bytes \<times> bytes option) list"

record Account =
  Nonce :: u64
  Balance :: bigint
  Root :: hash
  CodeHash :: bytes

record accountDatabase =
  OpenTrie :: "hash \<Rightarrow> kv option"
  TrieHash :: "kv \<Rightarrow> hash"
  ContractCode :: "hash \<Rightarrow> bytes option"
  EncodeAccount :: "Account \<Rightarrow> bytes"
  DecodeAccount :: "bytes \<Rightarrow> Account option"
  Sum256 :: "bytes \<Rightarrow> hash"

datatype acc_error = ErrOpenStorageTrie | ErrLoadCode

record accountObject =
  address :: address
  data :: Account
  aoErr :: "acc_error option"
  aoTrie :: "kv option"
  code :: "bytes option"
  cachedStorage :: Storage
  dirtyStorage :: Storage
  dirtyCode :: bool
  suicided :: bool
  touched :: bool
  deleted :: bool
  onDirty :: bool

datatype transitionEntry =
    createObjectChange address
  | resetObjectChange accountObject
  | suicideChange address bool bigint
  | balanceChange address bigint
  | nonceChange address u64
  | storageChange address bytes "bytes option"
  | codeChange address "bytes option" bytes
  | refundChange u64
  | touchChange address bool bool

record revision =
  revId :: nat
  journalIndex :: nat

record AccountDB =
  adbTrie :: kv
  accountObjects :: "address \<Rightarrow> accountObject option"
  accountObjectsDirty :: "address set"
  adbErr :: "acc_error option"
  refund :: u64
  transitions :: "transitionEntry list"
  validRevisions :: "revision list"
  nextRevisionID :: nat

definition emptyCodeHash :: "accountDatabase \<Rightarrow> bytes" where
  "emptyCodeHash db = Sum256 db []"

section \<open>Account objects\<close>

definition newAccountObject :: "accountDatabase \<Rightarrow> address \<Rightarrow> Account \<Rightarrow> accountObject" where
  "newAccountObject db addr d =
    \<lparr>address = addr, data = d, aoErr = None, aoTrie = None, code = None,
     cachedStorage = [], dirtyStorage = [], dirtyCode = False, suicided = False,
     touched = False, deleted = False, onDirty = True\<rparr>"

text \<open>
  The zero value \<^verbatim>\<open>Account{}\<close> as \<^verbatim>\<open>newAccountObject\<close> completes it: a nil balance becomes zero,
  a nil code hash the hash of the empty code.
\<close>

definition zeroAccount :: "accountDatabase \<Rightarrow> Account" where
  "zeroAccount db = \<lparr>Nonce = 0, Balance = 0, Root = replicate 32 0, CodeHash = emptyCodeHash db\<rparr>"

definition ao_empty :: "accountDatabase \<Rightarrow> accountObject \<Rightarrow> bool" where
  "ao_empty db ao \<longleftrightarrow> Nonce (data ao) = 0 \<and> Balance (data ao) = 0 \<and>
     CodeHash (data ao) = emptyCodeHash db \<and> cachedStorage ao = []"

definition ao_setError :: "accountObject \<Rightarrow> acc_error option \<Rightarrow> accountObject" where
  "ao_setError ao err = (if aoErr ao = None then ao\<lparr>aoErr := err\<rparr> else ao)"

definition MarkAccountObjectDirty :: "AccountDB \<Rightarrow> address \<Rightarrow> AccountDB" where
  "MarkAccountObjectDirty adb addr = adb\<lparr>accountObjectsDirty := insert addr (accountObjectsDirty adb)\<rparr>"

text \<open>\<^verbatim>\<open>if ao.onDirty != nil { ao.onDirty(ao.Address()); ao.onDirty = nil }\<close>\<close>

definition callOnDirty :: "AccountDB \<Rightarrow> accountObject \<Rightarrow> AccountDB \<times> accountObject" where
  "callOnDirty adb ao =
    (if onDirty ao then (MarkAccountObjectDirty adb (address ao), ao\<lparr>onDirty := False\<rparr>) else (adb, ao))"

definition appendTransition :: "AccountDB \<Rightarrow> transitionEntry \<Rightarrow> AccountDB" where
  "appendTransition adb ch = adb\<lparr>transitions := transitions adb @ [ch]\<rparr>"

definition markSuicided :: "AccountDB \<Rightarrow> accountObject \<Rightarrow> AccountDB \<times> accountObject" where
  "markSuicided adb ao = callOnDirty adb (ao\<lparr>suicided := True\<rparr>)"

definition touch :: "AccountDB \<Rightarrow> accountObject \<Rightarrow> AccountDB \<times> accountObject" where
  "touch adb ao =
    (let adb1 = appendTransition adb (touchChange (address ao) (touched ao) (\<not> onDirty ao));
         (adb2, ao2) = callOnDirty adb1 ao
     in (adb2, ao2\<lparr>touched := True\<rparr>))"

definition getTrie :: "accountDatabase \<Rightarrow> accountObject \<Rightarrow> kv \<times> accountObject" where
  "getTrie db ao =
    (case aoTrie ao of
       Some tr \<Rightarrow> (tr, ao)
     | None \<Rightarrow>
         (case OpenTrie db (Root (data ao)) of
            Some tr \<Rightarrow> (tr, ao\<lparr>aoTrie := Some tr\<rparr>)
          | None \<Rightarrow>
              let tr = (\<lambda>_. None)
              in (tr, (ao_setError ao (Some ErrOpenStorageTrie))\<lparr>aoTrie := Some tr\<rparr>)))"

definition ao_GetData :: "accountDatabase \<Rightarrow> accountObject \<Rightarrow> bytes \<Rightarrow> bytes option \<times> accountObject" where
  "ao_GetData db ao key =
    (case map_of (cachedStorage ao) key of
       Some value \<Rightarrow> (value, ao)
     | None \<Rightarrow>
         let (tr, ao1) = getTrie db ao; value = tr key
         in if value \<noteq> None then (value, ao1\<lparr>cachedStorage := AList.update key value (cachedStorage ao1)\<rparr>)
            else (value, ao1))"

definition ao_setData :: "AccountDB \<Rightarrow> accountObject \<Rightarrow> bytes \<Rightarrow> bytes option \<Rightarrow> AccountDB \<times> accountObject" where
  "ao_setData adb ao key value =
    callOnDirty adb (ao\<lparr>cachedStorage := AList.update key value (cachedStorage ao),
                        dirtyStorage := AList.update key value (dirtyStorage ao)\<rparr>)"

definition ao_SetData ::
  "accountDatabase \<Rightarrow> AccountDB \<Rightarrow> accountObject \<Rightarrow> bytes \<Rightarrow> bytes option \<Rightarrow> AccountDB \<times> accountObject" where
  "ao_SetData db adb ao key value =
    (let (prevalue, ao1) = ao_GetData db ao key
     in ao_setData (appendTransition adb (storageChange (address ao) key prevalue)) ao1 key value)"

definition ao_RemoveData ::
  "accountDatabase \<Rightarrow> AccountDB \<Rightarrow> accountObject \<Rightarrow> bytes \<Rightarrow> AccountDB \<times> accountObject" where
  "ao_RemoveData db adb ao key = ao_SetData db adb ao key None"

definition ao_setBalance :: "AccountDB \<Rightarrow> accountObject \<Rightarrow> bigint \<Rightarrow> AccountDB \<times> accountObject" where
  "ao_setBalance adb ao amount = callOnDirty adb (ao\<lparr>data := (data ao)\<lparr>Balance := amount\<rparr>\<rparr>)"

definition ao_SetBalance :: "AccountDB \<Rightarrow> accountObject \<Rightarrow> bigint \<Rightarrow> AccountDB \<times> accountObject" where
  "ao_SetBalance adb ao amount =
    ao_setBalance (appendTransition adb (balanceChange (address ao) (Balance (data ao)))) ao amount"

definition ao_AddBalance ::
  "accountDatabase \<Rightarrow> AccountDB \<Rightarrow> accountObject \<Rightarrow> bigint \<Rightarrow> AccountDB \<times> accountObject" where
  "ao_AddBalance db adb ao amount =
    (if amount = 0 then if ao_empty db ao then touch adb ao else (adb, ao)
     else ao_SetBalance adb ao (Balance (data ao) + amount))"

definition ao_SubBalance :: "AccountDB \<Rightarrow> accountObject \<Rightarrow> bigint \<Rightarrow> AccountDB \<times> accountObject" where
  "ao_SubBalance adb ao amount =
    (if amount = 0 then (adb, ao) else ao_SetBalance adb ao (Balance (data ao) - amount))"

definition ao_Code :: "accountDatabase \<Rightarrow> accountObject \<Rightarrow> bytes option \<times> accountObject" where
  "ao_Code db ao =
    (if code ao \<noteq> None then (code ao, ao)
     else if CodeHash (data ao) = emptyCodeHash db then (None, ao)
     else (case ContractCode db (BytesToHash (CodeHash (data ao))) of
             Some c \<Rightarrow> (Some c, ao\<lparr>code := Some c\<rparr>)
           | None \<Rightarrow> (None, (ao_setError ao (Some ErrLoadCode))\<lparr>code := None\<rparr>)))"

definition ao_setCode :: "AccountDB \<Rightarrow> accountObject \<Rightarrow> hash \<Rightarrow> bytes option \<Rightarrow> AccountDB \<times> accountObject" where
  "ao_setCode adb ao codeHash c =
    callOnDirty adb (ao\<lparr>code := c, data := (data ao)\<lparr>CodeHash := codeHash\<rparr>, dirtyCode := True\<rparr>)"

definition ao_SetCode ::
  "accountDatabase \<Rightarrow> AccountDB \<Rightarrow> accountObject \<Rightarrow> hash \<Rightarrow> bytes option \<Rightarrow> AccountDB \<times> accountObject" where
  "ao_SetCode db adb ao codeHash c =
    (let (prevCode, ao1) = ao_Code db ao
     in ao_setCode (appendTransition adb (codeChange (address ao1) prevCode (CodeHash (data ao1)))) ao1 codeHash c)"

definition ao_setNonce :: "AccountDB \<Rightarrow> accountObject \<Rightarrow> u64 \<Rightarrow> AccountDB \<times> accountObject" where
  "ao_setNonce adb ao nonce = callOnDirty adb (ao\<lparr>data := (data ao)\<lparr>Nonce := nonce\<rparr>\<rparr>)"

definition ao_SetNonce :: "AccountDB \<Rightarrow> accountObject \<Rightarrow> u64 \<Rightarrow> AccountDB \<times> accountObject" where
  "ao_SetNonce adb ao nonce =
    ao_setNonce (appendTransition adb (nonceChange (address ao) (Nonce (data ao)))) ao nonce"

definition deepCopy :: "accountDatabase \<Rightarrow> accountObject \<Rightarrow> bool \<Rightarrow> accountObject" where
  "deepCopy db ao dirtyCb =
    (newAccountObject db (address ao) (data ao))
      \<lparr>aoTrie := aoTrie ao, code := code ao, dirtyStorage := dirtyStorage ao,
       cachedStorage := dirtyStorage ao, suicided := suicided ao, dirtyCode := dirtyCode ao,
       deleted := deleted ao, onDirty := dirtyCb\<rparr>"

section \<open>Flushing the storage\<close>

text \<open>
  The loop of \<^verbatim>\<open>updateTrie\<close> over the dirty slots. Go's iteration order over a map is not
  specified, so the order in which the keys are visited is an argument.
\<close>

fun flushKeys :: "bytes list \<Rightarrow> kv \<Rightarrow> Storage \<Rightarrow> kv \<times> Storage" where
  "flushKeys [] tr dirty = (tr, dirty)"
| "flushKeys (key # keys) tr dirty =
     (case map_of dirty key of
        None \<Rightarrow> flushKeys keys tr dirty
      | Some None \<Rightarrow> flushKeys keys (tr(key := None)) (AList.delete key dirty)
      | Some (Some value) \<Rightarrow>
          flushKeys keys (mapUpdate tr key value) (AList.delete key dirty))"

definition updateTrie :: "accountDatabase \<Rightarrow> bytes list \<Rightarrow> accountObject \<Rightarrow> accountObject" where
  "updateTrie db keys ao =
    (let (tr, ao1) = getTrie db ao; (tr', dirty') = flushKeys keys tr (dirtyStorage ao1)
     in ao1\<lparr>aoTrie := Some tr', dirtyStorage := dirty'\<rparr>)"

definition updateRoot :: "accountDatabase \<Rightarrow> bytes list \<Rightarrow> accountObject \<Rightarrow> accountObject" where
  "updateRoot db keys ao =
    (let ao1 = updateTrie db keys ao
     in ao1\<lparr>data := (data ao1)\<lparr>Root := TrieHash db (case aoTrie ao1 of Some tr \<Rightarrow> tr | None \<Rightarrow> (\<lambda>_. None))\<rparr>\<rparr>)"

definition CommitTrie :: "accountDatabase \<Rightarrow> bytes list \<Rightarrow> accountObject \<Rightarrow> acc_error option \<times> accountObject" where
  "CommitTrie db keys ao =
    (let ao1 = updateTrie db keys ao
     in if aoErr ao1 \<noteq> None then (aoErr ao1, ao1)
        else (None, ao1\<lparr>data := (data ao1)\<lparr>Root := TrieHash db (case aoTrie ao1 of Some tr \<Rightarrow> tr | None \<Rightarrow> (\<lambda>_. None))\<rparr>\<rparr>))"

end
