(* ===== verification/Account_DB.thy ===== *)
theory Account_DB
  imports Account_Object
begin

text \<open>
  The account database, \<^verbatim>\<open>src/storage/account/accountdb.go\<close>: objects cached over the account
  trie, the journal of transitions, snapshots and their reversal, \<open>Finalise\<close> and \<open>Commit\<close>.
  An object pointer is the object together with the information whether it is the one held by
  the map \<^verbatim>\<open>accountObjects\<close>: \<^verbatim>\<open>setAccountObject\<close> is a \<^verbatim>\<open>LoadOrStore\<close>, so a freshly created
  object stays detached when the map already has an entry. A nil dereference or an explicit
  panic is \<open>None\<close>.
\<close>

section \<open>Objects of the database\<close>

definition NewAccountDB :: "accountDatabase \<Rightarrow> hash \<Rightarrow> AccountDB option" where
  "NewAccountDB db h =
    (case OpenTrie db h of
       None \<Rightarrow> None
     | Some tr \<Rightarrow> Some \<lparr>adbTrie = tr, accountObjects = (\<lambda>_. None), accountObjectsDirty = {}, adbErr = None,
         refund = 0, transitions = [], validRevisions = [], nextRevisionID = 0\<rparr>)"

definition setError :: "AccountDB \<Rightarrow> acc_error option \<Rightarrow> AccountDB" where
  "setError adb err = (if adbErr adb = None then adb\<lparr>adbErr := err\<rparr> else adb)"

definition getAccountObjectFromTrie :: "accountDatabase \<Rightarrow> AccountDB \<Rightarrow> address \<Rightarrow> accountObject option" where
  "getAccountObjectFromTrie db adb addr =
    (case adbTrie adb addr of
       None \<Rightarrow> None
     | Some enc \<Rightarrow>
         if length enc = 0 then None
         else (case DecodeAccount db enc of None \<Rightarrow> None | Some d \<Rightarrow> Some (newAccountObject db addr d)))"

definition setAccountObject :: "AccountDB \<Rightarrow> accountObject \<Rightarrow> AccountDB" where
  "setAccountObject adb object =
    (case accountObjects adb (address object) of
       Some _ \<Rightarrow> adb
     | None \<Rightarrow> adb\<lparr>accountObjects := (accountObjects adb)(address object \<mapsto> object)\<rparr>)"

definition getAccountObject :: "accountDatabase \<Rightarrow> AccountDB \<Rightarrow> address \<Rightarrow> accountObject option \<times> AccountDB" where
  "getAccountObject db adb addr =
    (case accountObjects adb addr of
       Some obj \<Rightarrow> (if deleted obj then None else Some obj, adb)
     | None \<Rightarrow>
         (case getAccountObjectFromTrie db adb addr of
            Some obj \<Rightarrow> (Some obj, setAccountObject adb obj)
          | None \<Rightarrow> (None, adb)))"

text \<open>Writing through the pointer: only the object of the map is visible afterwards.\<close>

definition writeBack :: "bool \<Rightarrow> AccountDB \<times> accountObject \<Rightarrow> AccountDB" where
  "writeBack stored r =
    (case r of (adb, ao) \<Rightarrow>
       if stored then adb\<lparr>accountObjects := (accountObjects adb)(address ao \<mapsto> ao)\<rparr> else adb)"

definition createObject ::
  "accountDatabase \<Rightarrow> AccountDB \<Rightarrow> address \<Rightarrow> AccountDB \<times> accountObject \<times> bool \<times> accountObject option" where
  "createObject db adb addr =
    (let (prev, adb1) = getAccountObject db adb addr;
         (adb2, newobj) = ao_setNonce adb1 (newAccountObject db addr (zeroAccount db)) 0;
         adb3 = appendTransition adb2 (case prev of None \<Rightarrow> createObjectChange addr | Some p \<Rightarrow> resetObjectChange p)
     in (setAccountObject adb3 newobj, newobj, accountObjects adb3 addr = None, prev))"

definition getOrNewAccountObject ::
  "accountDatabase \<Rightarrow> AccountDB \<Rightarrow> address \<Rightarrow> AccountDB \<times> accountObject \<times> bool" where
  "getOrNewAccountObject db adb addr =
    (case getAccountObject db adb addr of
       (Some obj, adb1) \<Rightarrow>
         if deleted obj then (let (adb2, newobj, stored, _) = createObject db adb1 addr in (adb2, newobj, stored))
         else (adb1, obj, True)
     | (None, adb1) \<Rightarrow> let (adb2, newobj, stored, _) = createObject db adb1 addr in (adb2, newobj, stored))"

text \<open>\<^verbatim>\<open>new.setBalance\<close> acts on the new object, which is in the map only if nothing was there before.\<close>

definition CreateAccount :: "accountDatabase \<Rightarrow> AccountDB \<Rightarrow> address \<Rightarrow> AccountDB" where
  "CreateAccount db adb addr =
    (let (adb1, new, stored, prev) = createObject db adb addr
     in case prev of
          None \<Rightarrow> adb1
        | Some p \<Rightarrow> writeBack stored (ao_setBalance adb1 new (Balance (data p))))"

section \<open>Reading\<close>

definition Exist :: "accountDatabase \<Rightarrow> AccountDB \<Rightarrow> address \<Rightarrow> bool \<times> AccountDB" where
  "Exist db adb addr = (case getAccountObject db adb addr of (o1, adb1) \<Rightarrow> (o1 \<noteq> None, adb1))"

definition Empty :: "accountDatabase \<Rightarrow> AccountDB \<Rightarrow> address \<Rightarrow> bool \<times> AccountDB" where
  "Empty db adb addr =
    (case getAccountObject db adb addr of
       (None, adb1) \<Rightarrow> (True, adb1) | (Some so, adb1) \<Rightarrow> (ao_empty db so, adb1))"

definition GetBalance :: "accountDatabase \<Rightarrow> AccountDB \<Rightarrow> address \<Rightarrow> bigint \<times> AccountDB" where
  "GetBalance db adb addr =
    (case getAccountObject db adb addr of
       (Some so, adb1) \<Rightarrow> (Balance (data so), adb1) | (None, adb1) \<Rightarrow> (0, adb1))"

definition GetNonce :: "accountDatabase \<Rightarrow> AccountDB \<Rightarrow> address \<Rightarrow> u64 \<times> AccountDB" where
  "GetNonce db adb addr =
    (case getAccountObject db adb addr of
       (Some so, adb1) \<Rightarrow> (Nonce (data so), adb1) | (None, adb1) \<Rightarrow> (0, adb1))"

definition GetCode :: "accountDatabase \<Rightarrow> AccountDB \<Rightarrow> address \<Rightarrow> bytes option \<times> AccountDB" where
  "GetCode db adb addr =
    (case getAccountObject db adb addr of
       (Some so, adb1) \<Rightarrow> (let (c, so1) = ao_Code db so in (c, writeBack True (adb1, so1)))
     | (None, adb1) \<Rightarrow> (None, adb1))"

definition GetCodeSize :: "accountDatabase \<Rightarrow> AccountDB \<Rightarrow> address \<Rightarrow> nat \<times> AccountDB" where
  "GetCodeSize db adb addr =
    (case getAccountObject db adb addr of
       (None, adb1) \<Rightarrow> (0, adb1)
     | (Some so, adb1) \<Rightarrow>
         (case code so of
            Some c \<Rightarrow> (length c, adb1)
          | None \<Rightarrow>
              (case ContractCode db (BytesToHash (CodeHash (data so))) of
                 Some c \<Rightarrow> (length c, adb1)
               | None \<Rightarrow> (0, setError adb1 (Some ErrLoadCode)))))"

definition GetCodeHash :: "accountDatabase \<Rightarrow> AccountDB \<Rightarrow> address \<Rightarrow> hash \<times> AccountDB" where
  "GetCodeHash db adb addr =
    (case getAccountObject db adb addr of
       (Some so, adb1) \<Rightarrow> (BytesToHash (CodeHash (data so)), adb1) | (None, adb1) \<Rightarrow> (replicate 32 0, adb1))"

definition GetData :: "accountDatabase \<Rightarrow> AccountDB \<Rightarrow> address \<Rightarrow> bytes \<Rightarrow> bytes option \<times> AccountDB" where
  "GetData db adb addr key =
    (case getAccountObject db adb addr of
       (Some so, adb1) \<Rightarrow> (let (v, so1) = ao_GetData db so key in (v, writeBack True (adb1, so1)))
     | (None, adb1) \<Rightarrow> (None, adb1))"

definition HasSuicided :: "accountDatabase \<Rightarrow> AccountDB \<Rightarrow> address \<Rightarrow> bool \<times> AccountDB" where
  "HasSuicided db adb addr =
    (case getAccountObject db adb addr of (Some so, adb1) \<Rightarrow> (suicided so, adb1) | (None, adb1) \<Rightarrow> (False, adb1))"

definition CanTransfer :: "accountDatabase \<Rightarrow> AccountDB \<Rightarrow> address \<Rightarrow> bigint \<Rightarrow> bool \<times> AccountDB" where
  "CanTransfer db adb addr amount =
    (if amount < 0 then (False, adb)
     else case GetBalance db adb addr of (b, adb1) \<Rightarrow> (b \<ge> amount, adb1))"

section \<open>Writing\<close>

definition AddRefund :: "AccountDB \<Rightarrow> u64 \<Rightarrow> AccountDB" where
  "AddRefund adb gas =
    (appendTransition adb (refundChange (refund adb)))\<lparr>refund := refund adb + gas\<rparr>"

definition onObject ::
  "accountDatabase \<Rightarrow> AccountDB \<Rightarrow> address \<Rightarrow> (AccountDB \<Rightarrow> accountObject \<Rightarrow> AccountDB \<times> accountObject) \<Rightarrow> AccountDB" where
  "onObject db adb addr f =
    (let (adb1, so, stored) = getOrNewAccountObject db adb addr in writeBack stored (f adb1 so))"

definition AddBalance :: "accountDatabase \<Rightarrow> AccountDB \<Rightarrow> address \<Rightarrow> bigint \<Rightarrow> AccountDB" where
  "AddBalance db adb addr amount = onObject db adb addr (\<lambda>a so. ao_AddBalance db a so amount)"

definition SubBalance :: "accountDatabase \<Rightarrow> AccountDB \<Rightarrow> address \<Rightarrow> bigint \<Rightarrow> AccountDB" where
  "SubBalance db adb addr amount = onObject db adb addr (\<lambda>a so. ao_SubBalance a so amount)"

definition SetBalance :: "accountDatabase \<Rightarrow> AccountDB \<Rightarrow> address \<Rightarrow> bigint \<Rightarrow> AccountDB" where
  "SetBalance db adb addr amount = onObject db adb addr (\<lambda>a so. ao_SetBalance a so amount)"

definition SetNonce :: "accountDatabase \<Rightarrow> AccountDB \<Rightarrow> address \<Rightarrow> u64 \<Rightarrow> AccountDB" where
  "SetNonce db adb addr nonce = onObject db adb addr (\<lambda>a so. ao_SetNonce a so nonce)"

definition SetCode :: "accountDatabase \<Rightarrow> AccountDB \<Rightarrow> address \<Rightarrow> bytes \<Rightarrow> AccountDB" where
  "SetCode db adb addr c = onObject db adb addr (\<lambda>a so. ao_SetCode db a so (Sum256 db c) (Some c))"

definition SetData :: "accountDatabase \<Rightarrow> AccountDB \<Rightarrow> address \<Rightarrow> bytes \<Rightarrow> bytes option \<Rightarrow> AccountDB" where
  "SetData db adb addr key value = onObject db adb addr (\<lambda>a so. ao_SetData db a so key value)"

definition RemoveData :: "accountDatabase \<Rightarrow> AccountDB \<Rightarrow> address \<Rightarrow> bytes \<Rightarrow> AccountDB" where
  "RemoveData db adb addr key = SetData db adb addr key None"

definition Transfer :: "accountDatabase \<Rightarrow> AccountDB \<Rightarrow> address \<Rightarrow> address \<Rightarrow> bigint \<Rightarrow> AccountDB" where
  "Transfer db adb sender recipient amount =
    (if amount \<le> 0 then adb else AddBalance db (SubBalance db adb sender amount) recipient amount)"

definition Suicide :: "accountDatabase \<Rightarrow> AccountDB \<Rightarrow> address \<Rightarrow> bool \<times> AccountDB" where
  "Suicide db adb addr =
    (case getAccountObject db adb addr of
       (None, adb1) \<Rightarrow> (False, adb1)
     | (Some so, adb1) \<Rightarrow>
         let adb2 = appendTransition adb1 (suicideChange addr (suicided so) (Balance (data so)));
             (adb3, so1) = markSuicided adb2 so
         in (True, writeBack True (adb3, so1\<lparr>data := (data so1)\<lparr>Balance := 0\<rparr>\<rparr>)))"

section \<open>Snapshots\<close>

definition Snapshot :: "AccountDB \<Rightarrow> nat \<times> AccountDB" where
  "Snapshot adb =
    (let rid = nextRevisionID adb
     in (rid, adb\<lparr>nextRevisionID := rid + 1,
                  validRevisions := validRevisions adb @ [\<lparr>revId = rid, journalIndex = length (transitions adb)\<rparr>]\<rparr>))"

definition ripemd :: address where
  "ripemd = numAddress 3"

definition undoOn ::
  "accountDatabase \<Rightarrow> AccountDB \<Rightarrow> address \<Rightarrow> (AccountDB \<Rightarrow> accountObject \<Rightarrow> AccountDB \<times> accountObject) \<Rightarrow> AccountDB option" where
  "undoOn db s addr f =
    (case getAccountObject db s addr of (None, _) \<Rightarrow> None | (Some so, s1) \<Rightarrow> Some (writeBack True (f s1 so)))"

fun undo :: "accountDatabase \<Rightarrow> transitionEntry \<Rightarrow> AccountDB \<Rightarrow> AccountDB option" where
  "undo db (createObjectChange a) s =
     Some (s\<lparr>accountObjects := (accountObjects s)(a := None),
             accountObjectsDirty := accountObjectsDirty s - {a}\<rparr>)"
| "undo db (resetObjectChange prev) s = Some (setAccountObject s prev)"
| "undo db (suicideChange a prev prevbalance) s =
     (case getAccountObject db s a of
        (None, s1) \<Rightarrow> Some s1
      | (Some obj, s1) \<Rightarrow> Some (writeBack True (ao_setBalance s1 (obj\<lparr>suicided := prev\<rparr>) prevbalance)))"
| "undo db (touchChange a prev prevDirty) s =
     (if \<not> prev \<and> a \<noteq> ripemd
      then undoOn db s a (\<lambda>s1 obj.
             (if \<not> prevDirty then s1\<lparr>accountObjectsDirty := accountObjectsDirty s1 - {a}\<rparr> else s1,
              obj\<lparr>touched := prev\<rparr>))
      else Some s)"
| "undo db (balanceChange a prev) s = undoOn db s a (\<lambda>s1 obj. ao_setBalance s1 obj prev)"
| "undo db (nonceChange a prev) s = undoOn db s a (\<lambda>s1 obj. ao_setNonce s1 obj prev)"
| "undo db (codeChange a prevcode prevhash) s =
     undoOn db s a (\<lambda>s1 obj. ao_setCode s1 obj (BytesToHash prevhash) prevcode)"
| "undo db (storageChange a key prevalue) s = undoOn db s a (\<lambda>s1 obj. ao_setData s1 obj key prevalue)"
| "undo db (refundChange prev) s = Some (s\<lparr>refund := prev\<rparr>)"

text \<open>\<^verbatim>\<open>for i := len(adb.transitions) - 1; i >= snapshot; i--\<close>: the entries, last first.\<close>

fun undoAll :: "accountDatabase \<Rightarrow> transitionEntry list \<Rightarrow> AccountDB \<Rightarrow> AccountDB option" where
  "undoAll db [] s = Some s"
| "undoAll db (ch # chs) s = Option.bind (undo db ch s) (undoAll db chs)"

definition RevertToSnapshot :: "accountDatabase \<Rightarrow> AccountDB \<Rightarrow> nat \<Rightarrow> AccountDB option" where
  "RevertToSnapshot db adb revid =
    (let revs = validRevisions adb;
         idx = goSearch (\<lambda>i. revId (revs ! i) \<ge> revid) 0 (length revs)
     in if idx = length revs \<or> revId (revs ! idx) \<noteq> revid then None
        else let snapshot = journalIndex (revs ! idx)
             in map_option (\<lambda>s. s\<lparr>transitions := take snapshot (transitions adb), validRevisions := take idx revs\<rparr>)
                  (undoAll db (rev (drop snapshot (transitions adb))) adb))"

section \<open>Finalising\<close>

definition clearJournalAndRefund :: "AccountDB \<Rightarrow> AccountDB" where
  "clearJournalAndRefund adb = adb\<lparr>transitions := [], validRevisions := [], refund := 0\<rparr>"

definition updateAccountObject :: "accountDatabase \<Rightarrow> AccountDB \<Rightarrow> accountObject \<Rightarrow> AccountDB" where
  "updateAccountObject db adb so =
    adb\<lparr>adbTrie := mapUpdate (adbTrie adb) (address so) (EncodeAccount db (data so))\<rparr>"

definition deleteAccountObject :: "AccountDB \<Rightarrow> accountObject \<Rightarrow> AccountDB \<times> accountObject" where
  "deleteAccountObject adb so =
    (adb\<lparr>adbTrie := (adbTrie adb)(address so := None)\<rparr>, so\<lparr>deleted := True\<rparr>)"

text \<open>
  One round of the loop over \<^verbatim>\<open>accountObjectsDirty\<close>; the order of the addresses and of the storage
  keys is not specified by Go and so an argument.
\<close>

definition finaliseOne :: "accountDatabase \<Rightarrow> bool \<Rightarrow> (address \<Rightarrow> bytes list) \<Rightarrow> address \<Rightarrow> AccountDB \<Rightarrow> AccountDB" where
  "finaliseOne db deleteEmptyObjects keysOf addr adb =
    (case accountObjects adb addr of
       None \<Rightarrow> adb
     | Some so \<Rightarrow>
         if suicided so \<or> (deleteEmptyObjects \<and> ao_empty db so)
         then writeBack True (deleteAccountObject adb so)
         else let so1 = updateRoot db (keysOf addr) so
              in writeBack True (updateAccountObject db adb so1, so1))"

definition Finalise :: "accountDatabase \<Rightarrow> bool \<Rightarrow> (address \<Rightarrow> bytes list) \<Rightarrow> address list \<Rightarrow> AccountDB \<Rightarrow> AccountDB" where
  "Finalise db deleteEmptyObjects keysOf order adb =
    clearJournalAndRefund (fold (finaliseOne db deleteEmptyObjects keysOf) order adb)"

definition IntermediateRoot ::
  "accountDatabase \<Rightarrow> bool \<Rightarrow> (address \<Rightarrow> bytes list) \<Rightarrow> address list \<Rightarrow> AccountDB \<Rightarrow> hash \<times> AccountDB" where
  "IntermediateRoot db deleteEmptyObjects keysOf order adb =
    (let adb1 = Finalise db deleteEmptyObjects keysOf order adb in (TrieHash db (adbTrie adb1), adb1))"

end
