(* ===== verification/Account_Spec.thy ===== *)
theory Account_Spec
  imports Account_DB
begin

text \<open>
  The contract of the account database: a plain map from addresses to accounts, in which an
  operation updates one account and a snapshot is a full copy. The lemmas show that each
  operation of the cached, journalled database implements its plain counterpart, and that the
  journal entries it appends undo it.
\<close>

section \<open>Plain account states\<close>

record aacct =
  aBalance :: bigint
  aNonce :: u64
  aCodeHash :: bytes
  aCode :: "bytes option"
  aSuicided :: bool
  aData :: "bytes \<Rightarrow> bytes option"

record astate =
  accts :: "address \<Rightarrow> aacct option"
  aRefund :: u64

text \<open>What is seen of an object: its data through the caches.\<close>

definition trieOf :: "accountDatabase \<Rightarrow> accountObject \<Rightarrow> kv" where
  "trieOf db ao =
    (case aoTrie ao of
       Some tr \<Rightarrow> tr
     | None \<Rightarrow> (case OpenTrie db (Root (data ao)) of Some tr \<Rightarrow> tr | None \<Rightarrow> (\<lambda>_. None)))"

definition dataOf :: "accountDatabase \<Rightarrow> accountObject \<Rightarrow> bytes \<Rightarrow> bytes option" where
  "dataOf db ao key =
    (case map_of (cachedStorage ao) key of Some v \<Rightarrow> v | None \<Rightarrow> trieOf db ao key)"

definition codeAt :: "accountDatabase \<Rightarrow> bytes \<Rightarrow> bytes option \<Rightarrow> bytes option" where
  "codeAt db h c =
    (if c \<noteq> None then c else if h = emptyCodeHash db then None else ContractCode db (BytesToHash h))"

definition viewObj :: "accountDatabase \<Rightarrow> accountObject \<Rightarrow> aacct" where
  "viewObj db ao =
    \<lparr>aBalance = Balance (data ao), aNonce = Nonce (data ao), aCodeHash = CodeHash (data ao),
     aCode = codeAt db (CodeHash (data ao)) (code ao), aSuicided = suicided ao, aData = dataOf db ao\<rparr>"

definition view :: "accountDatabase \<Rightarrow> AccountDB \<Rightarrow> address \<Rightarrow> aacct option" where
  "view db adb addr = map_option (viewObj db) (fst (getAccountObject db adb addr))"

definition absState :: "accountDatabase \<Rightarrow> AccountDB \<Rightarrow> astate" where
  "absState db adb = \<lparr>accts = view db adb, aRefund = refund adb\<rparr>"

definition zeroView :: "accountDatabase \<Rightarrow> aacct" where
  "zeroView db = viewObj db (newAccountObject db [] (zeroAccount db))"

text \<open>The plain update of one account, created when it is missing.\<close>

definition aOn :: "accountDatabase \<Rightarrow> astate \<Rightarrow> address \<Rightarrow> (aacct \<Rightarrow> aacct) \<Rightarrow> astate" where
  "aOn db s a g =
    s\<lparr>accts := (accts s)(a \<mapsto> g (case accts s a of Some x \<Rightarrow> x | None \<Rightarrow> zeroView db))\<rparr>"

section \<open>Undoing on plain states\<close>

fun acctUndo :: "accountDatabase \<Rightarrow> transitionEntry \<Rightarrow> aacct \<Rightarrow> aacct" where
  "acctUndo db (suicideChange a prev b) x = x\<lparr>aSuicided := prev, aBalance := b\<rparr>"
| "acctUndo db (balanceChange a prev) x = x\<lparr>aBalance := prev\<rparr>"
| "acctUndo db (nonceChange a prev) x = x\<lparr>aNonce := prev\<rparr>"
| "acctUndo db (codeChange a c h) x = x\<lparr>aCodeHash := BytesToHash h, aCode := codeAt db (BytesToHash h) c\<rparr>"
| "acctUndo db (storageChange a k v) x = x\<lparr>aData := (aData x)(k := v)\<rparr>"
| "acctUndo db _ x = x"

fun entryAddr :: "transitionEntry \<Rightarrow> address option" where
  "entryAddr (createObjectChange a) = Some a"
| "entryAddr (resetObjectChange p) = Some (address p)"
| "entryAddr (suicideChange a _ _) = Some a"
| "entryAddr (balanceChange a _) = Some a"
| "entryAddr (nonceChange a _) = Some a"
| "entryAddr (storageChange a _ _) = Some a"
| "entryAddr (codeChange a _ _) = Some a"
| "entryAddr (touchChange a _ _) = Some a"
| "entryAddr (refundChange _) = None"

fun isCreate :: "transitionEntry \<Rightarrow> bool" where
  "isCreate (createObjectChange _) = True"
| "isCreate _ = False"

definition aundo :: "accountDatabase \<Rightarrow> transitionEntry \<Rightarrow> astate \<Rightarrow> astate" where
  "aundo db e s =
    (case e of
       createObjectChange a \<Rightarrow> s\<lparr>accts := (accts s)(a := None)\<rparr>
     | refundChange prev \<Rightarrow> s\<lparr>aRefund := prev\<rparr>
     | _ \<Rightarrow> (case entryAddr e of
               None \<Rightarrow> s
             | Some a \<Rightarrow> s\<lparr>accts := (accts s)(a := map_option (acctUndo db e) (accts s a))\<rparr>))"

section \<open>Well-formed databases\<close>

text \<open>
  The storage caches of an object agree with its trie: a dirty slot is cached with the same
  value, a cached slot that is not dirty holds what the trie holds.
\<close>

definition coherent :: "accountDatabase \<Rightarrow> accountObject \<Rightarrow> bool" where
  "coherent db so \<longleftrightarrow>
    (\<forall>k v. map_of (dirtyStorage so) k = Some v \<longrightarrow> map_of (cachedStorage so) k = Some v) \<and>
    (\<forall>k v. map_of (cachedStorage so) k = Some v \<longrightarrow> map_of (dirtyStorage so) k = None \<longrightarrow> trieOf db so k = v)"

definition objOk :: "accountDatabase \<Rightarrow> accountObject \<Rightarrow> bool" where
  "objOk db so \<longleftrightarrow> fixed32 (CodeHash (data so)) \<and> \<not> deleted so \<and> coherent db so"

definition dbOk :: "accountDatabase \<Rightarrow> AccountDB \<Rightarrow> bool" where
  "dbOk db adb \<longleftrightarrow> (\<forall>x. fixed32 (Sum256 db x)) \<and>
     (\<forall>a so. getAccountObjectFromTrie db adb a = Some so \<longrightarrow> fixed32 (CodeHash (data so)))"

text \<open>
  The journal: every address it mentions is cached, an account is created at most once, before
  it is changed, and only when the trie does not have it.
\<close>

definition createdFirst :: "transitionEntry list \<Rightarrow> bool" where
  "createdFirst J \<longleftrightarrow>
    (\<forall>xs a ys. J = xs @ createObjectChange a # ys \<longrightarrow> (\<forall>x \<in> set xs. entryAddr x \<noteq> Some a))"

definition journalOk :: "accountDatabase \<Rightarrow> transitionEntry list \<Rightarrow> AccountDB \<Rightarrow> bool" where
  "journalOk db J adb \<longleftrightarrow> createdFirst J \<and>
     (\<forall>e \<in> set J. \<forall>a. entryAddr e = Some a \<longrightarrow> accountObjects adb a \<noteq> None) \<and>
     (\<forall>a. createObjectChange a \<in> set J \<longrightarrow> getAccountObjectFromTrie db adb a = None) \<and>
     (\<forall>a p h. codeChange a p h \<in> set J \<longrightarrow> fixed32 h)"

definition adbOk :: "accountDatabase \<Rightarrow> transitionEntry list \<Rightarrow> AccountDB \<Rightarrow> bool" where
  "adbOk db J adb \<longleftrightarrow> dbOk db adb \<and> journalOk db J adb \<and>
     (\<forall>a so. accountObjects adb a = Some so \<longrightarrow> address so = a \<and> objOk db so)"

section \<open>What object methods do to the view\<close>

lemma ao_GetData_fst [simp]: "fst (ao_GetData db ao key) = dataOf db ao key"
  by (simp add: ao_GetData_def dataOf_def getTrie_def trieOf_def Let_def split: option.splits)

lemma trieOf_cong:
  "aoTrie ao = aoTrie ao' \<Longrightarrow> Root (data ao) = Root (data ao') \<Longrightarrow> trieOf db ao = trieOf db ao'"
  by (simp add: trieOf_def split: option.splits)

lemma coherent_cong:
  "cachedStorage ao = cachedStorage ao' \<Longrightarrow> dirtyStorage ao = dirtyStorage ao' \<Longrightarrow> aoTrie ao = aoTrie ao' \<Longrightarrow>
   Root (data ao) = Root (data ao') \<Longrightarrow> coherent db ao = coherent db ao'"
  by (simp add: coherent_def trieOf_cong [of ao ao'])

lemma coherent_updates [simp]:
  "coherent db (so\<lparr>code := c\<rparr>) = coherent db so"
  "coherent db (so\<lparr>aoErr := er\<rparr>) = coherent db so"
  "coherent db (so\<lparr>onDirty := b\<rparr>) = coherent db so"
  "coherent db (so\<lparr>touched := b\<rparr>) = coherent db so"
  "coherent db (so\<lparr>suicided := b\<rparr>) = coherent db so"
  "coherent db (so\<lparr>dirtyCode := b\<rparr>) = coherent db so"
  "Root d = Root (data so) \<Longrightarrow> coherent db (so\<lparr>data := d\<rparr>) = coherent db so"
  by (rule coherent_cong; simp)+

lemma coherent_new [simp]: "coherent db (newAccountObject db a d)"
  by (simp add: coherent_def newAccountObject_def)

lemma getTrie_simps [simp]:
  "fst (getTrie db ao) = trieOf db ao"
  "trieOf db (snd (getTrie db ao)) = trieOf db ao"
  "aoTrie (snd (getTrie db ao)) = Some (trieOf db ao)"
  "cachedStorage (snd (getTrie db ao)) = cachedStorage ao"
  "dirtyStorage (snd (getTrie db ao)) = dirtyStorage ao"
  "data (snd (getTrie db ao)) = data ao"
  "address (snd (getTrie db ao)) = address ao"
  "suicided (snd (getTrie db ao)) = suicided ao"
  "deleted (snd (getTrie db ao)) = deleted ao"
  "code (snd (getTrie db ao)) = code ao"
  by (auto simp: getTrie_def trieOf_def ao_setError_def Let_def split: option.splits)

lemma ao_GetData_alt:
  "ao_GetData db ao key =
    (case map_of (cachedStorage ao) key of
       Some v \<Rightarrow> (v, ao)
     | None \<Rightarrow>
         (trieOf db ao key,
          if trieOf db ao key \<noteq> None
          then (snd (getTrie db ao))\<lparr>cachedStorage := AList.update key (trieOf db ao key) (cachedStorage ao)\<rparr>
          else snd (getTrie db ao)))"
  using getTrie_simps(1,4) [of db ao]
  by (cases "getTrie db ao") (simp add: ao_GetData_def Let_def split: option.splits)

lemma trieOf_cached [simp]: "trieOf db (so\<lparr>cachedStorage := c\<rparr>) = trieOf db so"
  by (rule trieOf_cong) simp_all

lemma trieOf_dirty [simp]: "trieOf db (so\<lparr>dirtyStorage := c\<rparr>) = trieOf db so"
  by (rule trieOf_cong) simp_all

lemma ao_GetData_view [simp]:
  "viewObj db (snd (ao_GetData db ao key)) = viewObj db ao"
  "address (snd (ao_GetData db ao key)) = address ao"
proof -
  have "dataOf db (snd (ao_GetData db ao key)) = dataOf db ao"
    by (rule ext) (simp add: ao_GetData_alt dataOf_def update_conv' split: option.splits)
  then show "viewObj db (snd (ao_GetData db ao key)) = viewObj db ao"
    by (simp add: viewObj_def ao_GetData_alt split: option.splits)
qed (simp add: ao_GetData_alt split: option.splits)

lemma coherent_setData:
  "coherent db so \<Longrightarrow>
   coherent db (so\<lparr>cachedStorage := AList.update k v (cachedStorage so), dirtyStorage := AList.update k v (dirtyStorage so)\<rparr>)"
  by (auto simp: coherent_def update_conv')

lemma ao_GetData_ok [intro]: "objOk db ao \<Longrightarrow> objOk db (snd (ao_GetData db ao key))"
  by (auto simp: ao_GetData_alt objOk_def coherent_def update_conv' split: option.splits)

lemma ao_Code_fst [simp]: "fst (ao_Code db ao) = codeAt db (CodeHash (data ao)) (code ao)"
  by (auto simp: ao_Code_def codeAt_def split: option.splits)

lemma dataOf_cong:
  "cachedStorage ao = cachedStorage ao' \<Longrightarrow> aoTrie ao = aoTrie ao' \<Longrightarrow> Root (data ao) = Root (data ao') \<Longrightarrow>
   dataOf db ao = dataOf db ao'"
  by (rule ext) (simp add: dataOf_def trieOf_def split: option.splits)

lemma ao_Code_view [simp]:
  "viewObj db (snd (ao_Code db ao)) = viewObj db ao"
  "address (snd (ao_Code db ao)) = address ao"
  "CodeHash (data (snd (ao_Code db ao))) = CodeHash (data ao)"
  "objOk db (snd (ao_Code db ao)) = objOk db ao"
  by (auto simp: ao_Code_def viewObj_def codeAt_def ao_setError_def objOk_def split: option.splits
    intro!: dataOf_cong)

lemma viewObj_updates [simp]:
  "viewObj db (so\<lparr>data := (data so)\<lparr>Balance := b\<rparr>\<rparr>) = (viewObj db so)\<lparr>aBalance := b\<rparr>"
  "viewObj db (so\<lparr>data := (data so)\<lparr>Nonce := n\<rparr>\<rparr>) = (viewObj db so)\<lparr>aNonce := n\<rparr>"
  "viewObj db (so\<lparr>suicided := p\<rparr>) = (viewObj db so)\<lparr>aSuicided := p\<rparr>"
  "viewObj db (so\<lparr>suicided := p, data := (data so)\<lparr>Balance := b\<rparr>\<rparr>) = (viewObj db so)\<lparr>aSuicided := p, aBalance := b\<rparr>"
  "viewObj db (so\<lparr>touched := p\<rparr>) = viewObj db so"
  "viewObj db (so\<lparr>code := c, data := (data so)\<lparr>CodeHash := h\<rparr>, dirtyCode := d\<rparr>) =
    (viewObj db so)\<lparr>aCodeHash := h, aCode := codeAt db h c\<rparr>"
  by (auto simp: viewObj_def intro!: dataOf_cong)

lemma objOk_updates [simp]:
  "objOk db (so\<lparr>data := (data so)\<lparr>Balance := b\<rparr>\<rparr>) = objOk db so"
  "objOk db (so\<lparr>data := (data so)\<lparr>Nonce := n\<rparr>\<rparr>) = objOk db so"
  "objOk db (so\<lparr>suicided := p\<rparr>) = objOk db so"
  "objOk db (so\<lparr>suicided := p, data := (data so)\<lparr>Balance := b\<rparr>\<rparr>) = objOk db so"
  "objOk db (so\<lparr>touched := p\<rparr>) = objOk db so"
  "objOk db so \<Longrightarrow>
   objOk db (so\<lparr>cachedStorage := AList.update k v (cachedStorage so), dirtyStorage := AList.update k v (dirtyStorage so)\<rparr>)"
  by (auto simp: objOk_def coherent_setData)

lemma objOk_code: "objOk db (so\<lparr>code := c, data := (data so)\<lparr>CodeHash := h\<rparr>, dirtyCode := d\<rparr>) \<longleftrightarrow>
  fixed32 h \<and> \<not> deleted so \<and> coherent db so"
  by (simp add: objOk_def)

lemma objOk_not_deleted: "objOk db so \<Longrightarrow> \<not> deleted so"
  by (simp add: objOk_def)

lemma objOk_coherent: "objOk db so \<Longrightarrow> coherent db so"
  by (simp add: objOk_def)

lemma callOnDirty_simps [simp]:
  "viewObj db (snd (callOnDirty adb ao)) = viewObj db ao"
  "address (snd (callOnDirty adb ao)) = address ao"
  "objOk db (snd (callOnDirty adb ao)) = objOk db ao"
  by (auto simp: callOnDirty_def viewObj_def objOk_def intro!: dataOf_cong)

text \<open>Two databases that differ in the set of dirty addresses only.\<close>

definition sameButDirty :: "AccountDB \<Rightarrow> AccountDB \<Rightarrow> bool" where
  "sameButDirty a b \<longleftrightarrow> a\<lparr>accountObjectsDirty := {}\<rparr> = b\<lparr>accountObjectsDirty := {}\<rparr>"

lemma sameButDirtyD:
  "sameButDirty a b \<Longrightarrow> adbTrie a = adbTrie b \<and> accountObjects a = accountObjects b \<and> refund a = refund b \<and>
    transitions a = transitions b \<and> validRevisions a = validRevisions b \<and> nextRevisionID a = nextRevisionID b"
  by (cases a; cases b) (simp add: sameButDirty_def)

lemma sameButDirty_refl [simp]: "sameButDirty a a"
  by (simp add: sameButDirty_def)

lemma callOnDirty_same [simp]: "sameButDirty (fst (callOnDirty adb ao)) adb"
  by (simp add: callOnDirty_def MarkAccountObjectDirty_def sameButDirty_def)

text \<open>
  What a method of an object does: append entries for the address of the object, and change its
  view by \<open>g\<close>, which the entries undo.
\<close>

definition plainEntry :: "address \<Rightarrow> transitionEntry \<Rightarrow> bool" where
  "plainEntry a e \<longleftrightarrow> entryAddr e = Some a \<and> \<not> isCreate e \<and> (\<forall>b p h. e = codeChange b p h \<longrightarrow> fixed32 h)"

definition stepOk ::
  "accountDatabase \<Rightarrow> AccountDB \<Rightarrow> accountObject \<Rightarrow> (aacct \<Rightarrow> aacct) \<Rightarrow> AccountDB \<times> accountObject \<Rightarrow> transitionEntry list \<Rightarrow> bool" where
  "stepOk db adb so g r es \<longleftrightarrow>
    sameButDirty (fst r) (adb\<lparr>transitions := transitions adb @ es\<rparr>) \<and>
    (\<forall>e \<in> set es. plainEntry (address so) e) \<and> address (snd r) = address so \<and> objOk db (snd r) \<and>
    viewObj db (snd r) = g (viewObj db so) \<and> fold (acctUndo db) (rev es) (g (viewObj db so)) = viewObj db so"

definition objStep ::
  "accountDatabase \<Rightarrow> (AccountDB \<Rightarrow> accountObject \<Rightarrow> AccountDB \<times> accountObject) \<Rightarrow> (aacct \<Rightarrow> aacct) \<Rightarrow> bool" where
  "objStep db f g \<longleftrightarrow> (\<forall>adb so. objOk db so \<longrightarrow> (\<exists>es. stepOk db adb so g (f adb so) es))"

text \<open>One entry is appended, then the object is changed and marked dirty.\<close>

lemma stepOk_single:
  assumes "plainEntry (address so) e" and "address so' = address so" and "objOk db so'"
    and "viewObj db so' = g (viewObj db so)" and "acctUndo db e (g (viewObj db so)) = viewObj db so"
  shows "stepOk db adb so g (callOnDirty (appendTransition adb e) so') [e]"
  using assms by (simp add: stepOk_def appendTransition_def)

lemma stepOk_same: "objOk db so \<Longrightarrow> g (viewObj db so) = viewObj db so \<Longrightarrow> stepOk db adb so g (adb, so) []"
  by (simp add: stepOk_def)

lemma SetBalance_step:
  "objOk db so \<Longrightarrow> stepOk db adb so (\<lambda>x. x\<lparr>aBalance := amount\<rparr>) (ao_SetBalance adb so amount)
     [balanceChange (address so) (Balance (data so))]"
  unfolding ao_SetBalance_def ao_setBalance_def
  by (rule stepOk_single) (auto simp: plainEntry_def objOk_def viewObj_def intro!: dataOf_cong)

lemma stepOk_cong: "g (viewObj db so) = g' (viewObj db so) \<Longrightarrow> stepOk db adb so g r es \<Longrightarrow> stepOk db adb so g' r es"
  by (simp add: stepOk_def)

lemma SetBalance_objStep: "objStep db (\<lambda>a so. ao_SetBalance a so amount) (\<lambda>x. x\<lparr>aBalance := amount\<rparr>)"
  unfolding objStep_def using SetBalance_step by blast

lemma AddBalance_objStep:
  "objStep db (\<lambda>a so. ao_AddBalance db a so amount) (\<lambda>x. x\<lparr>aBalance := aBalance x + amount\<rparr>)"
  unfolding objStep_def
proof (intro allI impI)
  fix adb so assume ok: "objOk db so"
  let ?g = "\<lambda>x. x\<lparr>aBalance := aBalance x + amount\<rparr>"
  consider "amount \<noteq> 0" | "amount = 0" "ao_empty db so" | "amount = 0" "\<not> ao_empty db so" by blast
  then show "\<exists>es. stepOk db adb so ?g (ao_AddBalance db adb so amount) es"
  proof cases
    case 1
    from SetBalance_step [OF ok, of adb "Balance (data so) + amount"] show ?thesis
      using 1 by (auto simp: ao_AddBalance_def viewObj_def intro!: exI elim!: stepOk_cong [rotated])
  next
    case 2
    have "stepOk db adb so ?g (touch adb so) [touchChange (address so) (touched so) (\<not> onDirty so)]"
      using ok 2 by (auto simp: stepOk_def touch_def Let_def callOnDirty_def MarkAccountObjectDirty_def appendTransition_def
        sameButDirty_def plainEntry_def objOk_def viewObj_def intro!: dataOf_cong)
    with 2 show ?thesis by (auto simp: ao_AddBalance_def)
  next
    case 3
    then show ?thesis using stepOk_same [OF ok, of ?g adb] by (auto simp: ao_AddBalance_def)
  qed
qed

lemma SubBalance_objStep:
  "objStep db (\<lambda>a so. ao_SubBalance a so amount) (\<lambda>x. x\<lparr>aBalance := aBalance x - amount\<rparr>)"
  unfolding objStep_def
proof (intro allI impI)
  fix adb so assume ok: "objOk db so"
  let ?g = "\<lambda>x. x\<lparr>aBalance := aBalance x - amount\<rparr>"
  show "\<exists>es. stepOk db adb so ?g (ao_SubBalance adb so amount) es"
    using SetBalance_step [OF ok, of adb "Balance (data so) - amount"] stepOk_same [OF ok, of ?g adb]
    by (cases "amount = 0") (auto simp: ao_SubBalance_def viewObj_def intro!: exI elim!: stepOk_cong [rotated])
qed

lemma SetNonce_objStep: "objStep db (\<lambda>a so. ao_SetNonce a so nonce) (\<lambda>x. x\<lparr>aNonce := nonce\<rparr>)"
  unfolding objStep_def ao_SetNonce_def ao_setNonce_def
  by (intro allI impI exI, rule stepOk_single) (auto simp: plainEntry_def objOk_def viewObj_def intro!: dataOf_cong)

lemma SetData_objStep:
  "objStep db (\<lambda>a so. ao_SetData db a so key value) (\<lambda>x. x\<lparr>aData := (aData x)(key := value)\<rparr>)"
  unfolding objStep_def
proof (intro allI impI)
  fix adb so assume ok: "objOk db so"
  obtain so1 where so1: "ao_GetData db so key = (dataOf db so key, so1)"
    using ao_GetData_fst [of db so key] by (metis prod.collapse)
  let ?so2 = "so1\<lparr>cachedStorage := AList.update key value (cachedStorage so1),
                  dirtyStorage := AList.update key value (dirtyStorage so1)\<rparr>"
  have v: "viewObj db so1 = viewObj db so" "address so1 = address so" "objOk db so1"
    using ao_GetData_view [of db so key] ao_GetData_ok [OF ok, of key] by (simp_all add: so1)
  have "dataOf db ?so2 = (dataOf db so1)(key := value)"
    by (rule ext) (simp add: dataOf_def trieOf_def update_conv' split: option.splits)
  then have "viewObj db ?so2 = (viewObj db so1)\<lparr>aData := (aData (viewObj db so1))(key := value)\<rparr>"
    by (simp add: viewObj_def)
  then show "\<exists>es. stepOk db adb so (\<lambda>x. x\<lparr>aData := (aData x)(key := value)\<rparr>) (ao_SetData db adb so key value) es"
    unfolding ao_SetData_def so1 Let_def ao_setData_def prod.case
    by - (rule exI, rule stepOk_single, use v in \<open>auto simp: plainEntry_def objOk_def coherent_setData viewObj_def\<close>)
qed

lemma SetCode_objStep:
  assumes "fixed32 h"
  shows "objStep db (\<lambda>a so. ao_SetCode db a so h (Some c)) (\<lambda>x. x\<lparr>aCodeHash := h, aCode := Some c\<rparr>)"
  unfolding objStep_def
proof (intro allI impI)
  fix adb so assume ok: "objOk db so"
  obtain so1 where so1: "ao_Code db so = (codeAt db (CodeHash (data so)) (code so), so1)"
    using ao_Code_fst [of db so] by (metis prod.collapse)
  have v: "viewObj db so1 = viewObj db so" "address so1 = address so" "objOk db so1" "CodeHash (data so1) = CodeHash (data so)"
    using ao_Code_view [of db so] ok by (simp_all add: so1)
  let ?so2 = "so1\<lparr>code := Some c, data := (data so1)\<lparr>CodeHash := h\<rparr>, dirtyCode := True\<rparr>"
  have "viewObj db ?so2 = (viewObj db so1)\<lparr>aCodeHash := h, aCode := Some c\<rparr>"
    by (auto simp: viewObj_def codeAt_def intro!: dataOf_cong)
  then show "\<exists>es. stepOk db adb so (\<lambda>x. x\<lparr>aCodeHash := h, aCode := Some c\<rparr>) (ao_SetCode db adb so h (Some c)) es"
    unfolding ao_SetCode_def so1 Let_def ao_setCode_def prod.case
    by - (rule exI, rule stepOk_single, use v ok assms in \<open>auto simp: plainEntry_def objOk_def viewObj_def codeAt_def\<close>)
qed

end
