(* ===== verification/Account_Refine.thy ===== *)
theory Account_Refine
  imports Account_Spec
begin

text \<open>
  The account database refines plain account states: every operation implements its plain
  counterpart, and the journal implements snapshots that are full copies of the state.
\<close>

section \<open>Loading and creating objects\<close>

lemma fromTrie_cong: "adbTrie x = adbTrie y \<Longrightarrow> getAccountObjectFromTrie db x = getAccountObjectFromTrie db y"
  by (rule ext) (simp add: getAccountObjectFromTrie_def)

lemma fromTrie_simps [simp]:
  "getAccountObjectFromTrie db (adb\<lparr>accountObjects := m\<rparr>) = getAccountObjectFromTrie db adb"
  "getAccountObjectFromTrie db (adb\<lparr>accountObjectsDirty := d\<rparr>) = getAccountObjectFromTrie db adb"
  "getAccountObjectFromTrie db (adb\<lparr>transitions := tr\<rparr>) = getAccountObjectFromTrie db adb"
  "getAccountObjectFromTrie db (adb\<lparr>refund := r\<rparr>) = getAccountObjectFromTrie db adb"
  "getAccountObjectFromTrie db (adb\<lparr>validRevisions := v\<rparr>) = getAccountObjectFromTrie db adb"
  "getAccountObjectFromTrie db (adb\<lparr>nextRevisionID := n\<rparr>) = getAccountObjectFromTrie db adb"
  by (rule fromTrie_cong, simp)+

lemma fromTrie_new:
  "getAccountObjectFromTrie db adb a = Some so \<Longrightarrow> address so = a \<and> \<not> deleted so \<and> coherent db so"
  by (auto simp: getAccountObjectFromTrie_def newAccountObject_def coherent_def split: option.splits if_splits)

lemma view_alt:
  "view db adb a =
    (case accountObjects adb a of
       Some so \<Rightarrow> if deleted so then None else Some (viewObj db so)
     | None \<Rightarrow> map_option (viewObj db) (getAccountObjectFromTrie db adb a))"
  by (auto simp: view_def getAccountObject_def split: option.splits)

lemma view_cong:
  "accountObjects x = accountObjects y \<Longrightarrow> adbTrie x = adbTrie y \<Longrightarrow> view db x = view db y"
  by (rule ext) (simp add: view_alt fromTrie_cong [of x y] split: option.splits)

lemma view_put [simp]:
  "view db (adb\<lparr>accountObjects := (accountObjects adb)(a \<mapsto> so)\<rparr>) =
    (view db adb)(a := if deleted so then None else Some (viewObj db so))"
  by (rule ext) (simp add: view_alt split: option.splits)

lemma adbOk_cong:
  assumes "accountObjects x = accountObjects y" and "adbTrie x = adbTrie y"
  shows "adbOk db J x = adbOk db J y"
  using assms fromTrie_cong [of x y db] by (simp add: adbOk_def dbOk_def journalOk_def)

lemma absState_cong:
  "accountObjects x = accountObjects y \<Longrightarrow> adbTrie x = adbTrie y \<Longrightarrow> refund x = refund y \<Longrightarrow>
   absState db x = absState db y"
  using view_cong [of x y db] by (simp add: absState_def)

lemma adbOk_view:
  "adbOk db J adb \<Longrightarrow> accountObjects adb a = Some so \<Longrightarrow> view db adb a = Some (viewObj db so)"
  by (auto simp: view_alt adbOk_def objOk_def)

lemma adbOk_put:
  assumes "adbOk db J adb" and "objOk db so" and "address so = a"
  shows "adbOk db J (adb\<lparr>accountObjects := (accountObjects adb)(a \<mapsto> so)\<rparr>)"
  using assms by (auto simp: adbOk_def dbOk_def journalOk_def)

definition onlyObjects :: "AccountDB \<Rightarrow> AccountDB \<Rightarrow> bool" where
  "onlyObjects x y \<longleftrightarrow> x\<lparr>accountObjects := accountObjects y\<rparr> = y"

lemma onlyObjectsD:
  "onlyObjects x y \<Longrightarrow> adbTrie y = adbTrie x \<and> refund y = refund x \<and> transitions y = transitions x \<and>
    validRevisions y = validRevisions x \<and> nextRevisionID y = nextRevisionID x"
  by (auto simp: onlyObjects_def dest: arg_cong [of _ _ adbTrie] arg_cong [of _ _ refund]
    arg_cong [of _ _ transitions] arg_cong [of _ _ validRevisions] arg_cong [of _ _ nextRevisionID])

lemma getAccountObject_Some:
  assumes "adbOk db J adb" and "getAccountObject db adb a = (Some so, adb1)"
  shows "adbOk db J adb1 \<and> view db adb1 = view db adb \<and> accountObjects adb1 a = Some so \<and>
    address so = a \<and> objOk db so \<and> view db adb a = Some (viewObj db so) \<and> onlyObjects adb adb1"
proof (cases "accountObjects adb a")
  case None
  with assms(2) have tr: "getAccountObjectFromTrie db adb a = Some so" and
    adb1: "adb1 = setAccountObject adb so"
    by (auto simp: getAccountObject_def split: option.splits)
  from fromTrie_new [OF tr] None adb1 have
    put: "adb1 = adb\<lparr>accountObjects := (accountObjects adb)(a \<mapsto> so)\<rparr>" and so: "address so = a" "\<not> deleted so" "coherent db so"
    by (auto simp: setAccountObject_def)
  have ok: "objOk db so" using assms(1) tr so by (auto simp: adbOk_def dbOk_def objOk_def)
  have v: "view db adb a = Some (viewObj db so)" using None tr by (simp add: view_alt)
  with so have "view db adb1 = view db adb" unfolding put view_put by auto
  with adbOk_put [OF assms(1) ok so(1)] ok so v put show ?thesis by (simp add: onlyObjects_def)
next
  case (Some o1)
  with assms show ?thesis
    by (auto simp: getAccountObject_def onlyObjects_def adbOk_view adbOk_def split: if_splits)
qed

lemma getAccountObject_None:
  assumes "adbOk db J adb" and "getAccountObject db adb a = (None, adb1)"
  shows "adb1 = adb \<and> accountObjects adb a = None \<and> getAccountObjectFromTrie db adb a = None \<and> view db adb a = None"
  using assms
  by (auto simp: getAccountObject_def view_alt adbOk_def objOk_def split: option.splits if_splits)

lemma createdFirst_snoc:
  assumes "createdFirst J" and "\<And>a. e = createObjectChange a \<Longrightarrow> \<forall>x \<in> set J. entryAddr x \<noteq> Some a"
  shows "createdFirst (J @ [e])"
  unfolding createdFirst_def
proof (intro allI impI)
  fix xs a ys
  assume eq: "J @ [e] = xs @ createObjectChange a # ys"
  show "\<forall>x \<in> set xs. entryAddr x \<noteq> Some a"
  proof (cases ys rule: rev_cases)
    case Nil
    with eq assms(2) show ?thesis by simp
  next
    case (snoc zs z)
    with eq have "J = xs @ createObjectChange a # zs" by simp
    with assms(1) show ?thesis unfolding createdFirst_def by blast
  qed
qed

lemma createdFirst_butlast: "createdFirst (J @ [e]) \<Longrightarrow> createdFirst J"
  unfolding createdFirst_def by (metis append_Cons append_assoc)

lemma createdFirst_last:
  "createdFirst (J @ [createObjectChange a]) \<Longrightarrow> x \<in> set J \<Longrightarrow> entryAddr x \<noteq> Some a"
  unfolding createdFirst_def by blast

lemma adbOk_snoc_create:
  assumes "adbOk db J adb" and "accountObjects adb a = None" and "getAccountObjectFromTrie db adb a = None"
    and "objOk db so" and "address so = a"
  shows "adbOk db (J @ [createObjectChange a]) (adb\<lparr>accountObjects := (accountObjects adb)(a \<mapsto> so)\<rparr>)"
proof -
  have "createdFirst (J @ [createObjectChange a])"
    using assms(1,2) by (intro createdFirst_snoc) (auto simp: adbOk_def journalOk_def)
  with assms show ?thesis by (auto simp: adbOk_def dbOk_def journalOk_def)
qed

lemma adbOk_append_plain:
  assumes "adbOk db J adb" and "\<forall>e \<in> set es. plainEntry a e" and "accountObjects adb a \<noteq> None"
  shows "adbOk db (J @ es) adb"
  using assms(2)
proof (induction es rule: rev_induct)
  case (snoc e es)
  then have "adbOk db (J @ es) adb" "plainEntry a e" by auto
  moreover have "createdFirst ((J @ es) @ [e])"
    using calculation by (intro createdFirst_snoc) (auto simp: adbOk_def journalOk_def plainEntry_def)
  ultimately show ?case using assms(3) by (auto simp: adbOk_def journalOk_def plainEntry_def)
qed (use assms in simp)

lemma zeroView_new [simp]: "viewObj db (newAccountObject db a (zeroAccount db)) = zeroView db"
  by (auto simp: zeroView_def viewObj_def newAccountObject_def intro!: dataOf_cong)

lemma createObject_fresh:
  assumes "adbOk db (transitions adb) adb" and "getAccountObject db adb a = (None, adb)"
  obtains adb1 so where "createObject db adb a = (adb1, so, True, None)"
    "adbOk db (transitions adb1) adb1" "transitions adb1 = transitions adb @ [createObjectChange a]"
    "accountObjects adb1 a = Some so" "address so = a" "objOk db so" "viewObj db so = zeroView db"
    "view db adb1 = (view db adb)(a \<mapsto> zeroView db)" "refund adb1 = refund adb" "adbTrie adb1 = adbTrie adb"
    "validRevisions adb1 = validRevisions adb" "nextRevisionID adb1 = nextRevisionID adb"
proof -
  note none = getAccountObject_None [OF assms]
  let ?so0 = "newAccountObject db a (zeroAccount db)"
  let ?so = "?so0\<lparr>onDirty := False\<rparr>"
  let ?adb0 = "(MarkAccountObjectDirty adb a)\<lparr>transitions := transitions adb @ [createObjectChange a]\<rparr>"
  let ?adb1 = "?adb0\<lparr>accountObjects := (accountObjects ?adb0)(a \<mapsto> ?so)\<rparr>"
  have eq: "createObject db adb a = (?adb1, ?so, True, None)"
    using assms(2) none
    by (simp add: createObject_def ao_setNonce_def callOnDirty_def newAccountObject_def setAccountObject_def
      appendTransition_def MarkAccountObjectDirty_def zeroAccount_def)
  have so: "address ?so = a" "viewObj db ?so = zeroView db" "\<not> deleted ?so"
    by (simp_all add: newAccountObject_def zeroView_def viewObj_def) (auto intro!: dataOf_cong)
  have "fixed32 (Sum256 db [])" using assms(1) by (simp add: adbOk_def dbOk_def)
  then have ok: "objOk db ?so" by (simp add: objOk_def newAccountObject_def zeroAccount_def emptyCodeHash_def coherent_def)
  have tr: "getAccountObjectFromTrie db ?adb0 = getAccountObjectFromTrie db adb" "accountObjects ?adb0 = accountObjects adb"
    by (simp_all add: MarkAccountObjectDirty_def)
  have "adbOk db (transitions adb) ?adb0"
    using assms(1) adbOk_cong [of ?adb0 adb] by (simp add: MarkAccountObjectDirty_def)
  from adbOk_snoc_create [OF this _ _ ok so(1)] none tr have "adbOk db (transitions ?adb1) ?adb1" by simp
  moreover have "view db ?adb0 = view db adb"
    by (rule view_cong) (simp_all add: MarkAccountObjectDirty_def)
  then have "view db ?adb1 = (view db adb)(a \<mapsto> zeroView db)"
    using so view_put [of db ?adb0 a ?so] by simp
  ultimately show ?thesis
    by (intro that [OF eq]) (use so ok in \<open>simp_all add: MarkAccountObjectDirty_def\<close>)
qed

text \<open>What an operation of the database does to the plain state, and that its journal entries undo it.\<close>

definition dbStep :: "accountDatabase \<Rightarrow> AccountDB \<Rightarrow> AccountDB \<Rightarrow> astate \<Rightarrow> bool" where
  "dbStep db adb adb' s' \<longleftrightarrow>
    (\<exists>es. transitions adb' = transitions adb @ es \<and> adbOk db (transitions adb') adb' \<and>
       absState db adb' = s' \<and> fold (aundo db) (rev es) s' = absState db adb \<and>
       validRevisions adb' = validRevisions adb \<and> nextRevisionID adb' = nextRevisionID adb \<and>
       adbTrie adb' = adbTrie adb)"

lemma dbStep_refl: "adbOk db (transitions adb) adb \<Longrightarrow> dbStep db adb adb (absState db adb)"
  by (simp add: dbStep_def)

lemma dbStep_trans:
  assumes "dbStep db x y s0" and "dbStep db y z s"
  shows "dbStep db x z s"
proof -
  from assms obtain es fs where "transitions y = transitions x @ es" "transitions z = transitions y @ fs"
    "fold (aundo db) (rev es) (absState db y) = absState db x" "fold (aundo db) (rev fs) s = absState db y"
    by (auto simp: dbStep_def)
  with assms show ?thesis by (auto simp: dbStep_def intro!: exI [of _ "es @ fs"])
qed

lemma dbStep_ok: "dbStep db x y s \<Longrightarrow> adbOk db (transitions y) y \<and> absState db y = s"
  by (auto simp: dbStep_def)

lemma aundo_plain:
  "plainEntry a e \<Longrightarrow> accts s a = Some x \<Longrightarrow> aundo db e s = s\<lparr>accts := (accts s)(a \<mapsto> acctUndo db e x)\<rparr>"
  by (cases e) (auto simp: plainEntry_def aundo_def)

lemma fold_aundo_plain:
  "\<forall>e \<in> set es. plainEntry a e \<Longrightarrow> accts s a = Some x \<Longrightarrow>
   fold (aundo db) es s = s\<lparr>accts := (accts s)(a \<mapsto> fold (acctUndo db) es x)\<rparr>"
proof (induction es arbitrary: s x)
  case Nil
  then show ?case by (cases s) (auto simp: fun_upd_idem)
next
  case (Cons e es)
  from Cons.prems have "aundo db e s = s\<lparr>accts := (accts s)(a \<mapsto> acctUndo db e x)\<rparr>"
    by (intro aundo_plain) auto
  with Cons.IH [of "aundo db e s" "acctUndo db e x"] Cons.prems show ?case by (simp cong: if_cong)
qed

lemma getOrNew_step:
  assumes "adbOk db (transitions adb) adb"
  obtains adb1 so where "getOrNewAccountObject db adb a = (adb1, so, True)"
    "dbStep db adb adb1 (aOn db (absState db adb) a (\<lambda>x. x))" "accountObjects adb1 a = Some so"
    "address so = a" "objOk db so" "view db adb1 a = Some (viewObj db so)"
    "viewObj db so = (case view db adb a of Some x \<Rightarrow> x | None \<Rightarrow> zeroView db)"
proof (cases "getAccountObject db adb a")
  case (Pair o1 adb1)
  show ?thesis
  proof (cases o1)
    case None
    with Pair getAccountObject_None [OF assms] have none: "getAccountObject db adb a = (None, adb)" "view db adb a = None"
      by auto
    from createObject_fresh [OF assms none(1)] obtain adb2 so where c:
      "createObject db adb a = (adb2, so, True, None)"
      "adbOk db (transitions adb2) adb2" "transitions adb2 = transitions adb @ [createObjectChange a]"
      "accountObjects adb2 a = Some so" "address so = a" "objOk db so" "viewObj db so = zeroView db"
      "view db adb2 = (view db adb)(a \<mapsto> zeroView db)" "refund adb2 = refund adb" "adbTrie adb2 = adbTrie adb"
      "validRevisions adb2 = validRevisions adb" "nextRevisionID adb2 = nextRevisionID adb" by metis
    have "dbStep db adb adb2 (aOn db (absState db adb) a (\<lambda>x. x))"
      using c none(2) by (auto simp: dbStep_def aOn_def absState_def aundo_def fun_upd_idem)
    then show ?thesis using c none
      by (intro that [of adb2 so]) (simp_all add: getOrNewAccountObject_def)
  next
    case (Some so)
    from getAccountObject_Some [OF assms Pair [unfolded Some]]
    have g: "adbOk db (transitions adb) adb1" "view db adb1 = view db adb" "accountObjects adb1 a = Some so"
      "address so = a" "objOk db so" "view db adb a = Some (viewObj db so)" "onlyObjects adb adb1" by auto
    have "absState db adb1 = absState db adb" "aOn db (absState db adb) a (\<lambda>x. x) = absState db adb"
      using g onlyObjectsD [OF g(7)] by (auto simp: absState_def aOn_def fun_upd_idem)
    then have "dbStep db adb adb1 (aOn db (absState db adb) a (\<lambda>x. x))"
      using g(1) onlyObjectsD [OF g(7)] by (simp add: dbStep_def)
    then show ?thesis using Pair Some g
      by (intro that [of adb1 so]) (simp_all add: getOrNewAccountObject_def objOk_def)
  qed
qed

lemma writeBack_step:
  assumes "adbOk db (transitions adb) adb" and "accountObjects adb a = Some so" and "stepOk db adb so g r es"
  shows "dbStep db adb (writeBack True r) (aOn db (absState db adb) a g)"
proof -
  obtain adb2 so2 where r: "r = (adb2, so2)" by force
  have a: "address so = a" "objOk db so" "view db adb a = Some (viewObj db so)"
    using assms(1,2) adbOk_view by (auto simp: adbOk_def)
  from assms(3) have same: "sameButDirty adb2 (adb\<lparr>transitions := transitions adb @ es\<rparr>)"
    and es: "\<forall>e \<in> set es. plainEntry a e" and so2: "address so2 = a" "objOk db so2" "viewObj db so2 = g (viewObj db so)"
    and inv: "fold (acctUndo db) (rev es) (g (viewObj db so)) = viewObj db so"
    by (auto simp: stepOk_def r a)
  note eqs = sameButDirtyD [OF same, simplified]
  have "adbOk db (transitions adb @ es) adb"
    using adbOk_append_plain [OF assms(1) es] assms(2) by simp
  then have wf2: "adbOk db (transitions adb2) adb2" using eqs adbOk_cong [of adb2 adb db] by simp
  let ?adb3 = "writeBack True r"
  have put: "?adb3 = adb2\<lparr>accountObjects := (accountObjects adb2)(a \<mapsto> so2)\<rparr>"
    by (simp add: writeBack_def r so2)
  have "view db ?adb3 = (view db adb)(a \<mapsto> viewObj db so2)"
    using so2 eqs view_cong [of adb2 adb db] view_put [of db adb2 a so2] unfolding put by (simp add: objOk_def)
  then have abs: "absState db ?adb3 = aOn db (absState db adb) a g"
    using so2 a eqs by (simp add: absState_def aOn_def put)
  have "fold (aundo db) (rev es) (aOn db (absState db adb) a g) = absState db adb"
    using fold_aundo_plain [of "rev es" a "aOn db (absState db adb) a g" "g (viewObj db so)" db] es a inv
    by (simp add: aOn_def absState_def fun_upd_idem)
  with adbOk_put [OF wf2 so2(2,1)] abs eqs show ?thesis by (simp add: dbStep_def put)
qed

lemma onObject_step:
  assumes "adbOk db (transitions adb) adb" and "objStep db f g"
  shows "dbStep db adb (onObject db adb a f) (aOn db (absState db adb) a g)"
proof -
  from getOrNew_step [OF assms(1), of a] obtain adb1 so where n: "getOrNewAccountObject db adb a = (adb1, so, True)"
    "dbStep db adb adb1 (aOn db (absState db adb) a (\<lambda>x. x))" "accountObjects adb1 a = Some so" "objOk db so" by metis
  from assms(2) n(4) obtain es where "stepOk db adb1 so g (f adb1 so) es" by (auto simp: objStep_def)
  from writeBack_step [OF _ n(3) this] dbStep_ok [OF n(2)]
  have "dbStep db adb1 (writeBack True (f adb1 so)) (aOn db (absState db adb1) a g)" by simp
  moreover have "aOn db (absState db adb1) a g = aOn db (absState db adb) a g"
    using dbStep_ok [OF n(2)] by (simp add: aOn_def)
  ultimately show ?thesis using dbStep_trans [of db adb adb1] n(1,2) dbStep_ok [OF n(2)]
    by (simp add: onObject_def)
qed

section \<open>The operations\<close>

lemmas object_steps = AddBalance_objStep SubBalance_objStep SetBalance_objStep SetNonce_objStep SetData_objStep

lemma Transfer_step:
  assumes "adbOk db (transitions adb) adb" and "amount > 0"
  shows "dbStep db adb (Transfer db adb x y amount)
    (aOn db (aOn db (absState db adb) x (\<lambda>c. c\<lparr>aBalance := aBalance c - amount\<rparr>)) y
       (\<lambda>c. c\<lparr>aBalance := aBalance c + amount\<rparr>))"
proof -
  let ?adb1 = "SubBalance db adb x amount"
  have s1: "dbStep db adb ?adb1 (aOn db (absState db adb) x (\<lambda>c. c\<lparr>aBalance := aBalance c - amount\<rparr>))"
    unfolding SubBalance_def by (rule onObject_step [OF assms(1) SubBalance_objStep])
  note w = dbStep_ok [OF s1]
  have "dbStep db ?adb1 (AddBalance db ?adb1 y amount) (aOn db (absState db ?adb1) y (\<lambda>c. c\<lparr>aBalance := aBalance c + amount\<rparr>))"
    unfolding AddBalance_def by (rule onObject_step [OF conjunct1 [OF w] AddBalance_objStep])
  with s1 w assms(2) show ?thesis by (auto simp: Transfer_def intro: dbStep_trans)
qed

lemma onlyObjects_step:
  assumes "adbOk db (transitions adb) adb1" and "view db adb1 = view db adb" and "onlyObjects adb adb1"
  shows "dbStep db adb adb1 (absState db adb)"
  using assms onlyObjectsD [OF assms(3)] by (simp add: dbStep_def absState_def)

lemma read_object_step:
  assumes "adbOk db (transitions adb) adb" and "getAccountObject db adb a = (Some so, adb1)"
    and "viewObj db so1 = viewObj db so" and "address so1 = a" and "objOk db so1"
  shows "dbStep db adb (writeBack True (adb1, so1)) (absState db adb)"
proof -
  note g = getAccountObject_Some [OF assms(1,2)]
  have put: "writeBack True (adb1, so1) = adb1\<lparr>accountObjects := (accountObjects adb1)(a \<mapsto> so1)\<rparr>"
    by (simp add: writeBack_def assms(4))
  have "view db (writeBack True (adb1, so1)) = view db adb"
    unfolding put view_put using g assms(3,5) by (auto simp: objOk_def fun_upd_idem)
  moreover have "adbOk db (transitions adb) (writeBack True (adb1, so1))"
    unfolding put using g adbOk_put [of db "transitions adb" adb1 so1 a] assms(4,5) by simp
  moreover have "onlyObjects adb (writeBack True (adb1, so1))"
    using g by (simp add: put onlyObjects_def) (metis AccountDB.surjective AccountDB.update_convs(2))
  ultimately show ?thesis by (intro onlyObjects_step)
qed

lemma GetData_step:
  assumes "adbOk db (transitions adb) adb"
  shows "dbStep db adb (snd (GetData db adb a k)) (absState db adb) \<and>
    fst (GetData db adb a k) = (case accts (absState db adb) a of Some x \<Rightarrow> aData x k | None \<Rightarrow> None)"
proof (cases "getAccountObject db adb a")
  case (Pair o1 adb1)
  show ?thesis
  proof (cases o1)
    case None
    with getAccountObject_None [OF assms] Pair show ?thesis
      by (auto simp: GetData_def absState_def intro: dbStep_refl [OF assms, unfolded absState_def])
  next
    case (Some so)
    note g = getAccountObject_Some [OF assms Pair [unfolded Some]]
    obtain v so1 where v: "ao_GetData db so k = (v, so1)" by force
    have so1: "v = dataOf db so k" "viewObj db so1 = viewObj db so" "address so1 = a" "objOk db so1"
      using ao_GetData_fst [of db so k] ao_GetData_view [of db so k] ao_GetData_ok [of db so k] g by (auto simp: v)
    from read_object_step [OF assms Pair [unfolded Some] so1(2-4)] g so1(1) show ?thesis
      by (auto simp: GetData_def Pair Some v absState_def viewObj_def)
  qed
qed

lemma GetBalance_step:
  assumes "adbOk db (transitions adb) adb"
  shows "dbStep db adb (snd (GetBalance db adb a)) (absState db adb) \<and>
    fst (GetBalance db adb a) = (case accts (absState db adb) a of Some x \<Rightarrow> aBalance x | None \<Rightarrow> 0)"
proof (cases "getAccountObject db adb a")
  case (Pair o1 adb1)
  show ?thesis
  proof (cases o1)
    case None
    with getAccountObject_None [OF assms] Pair show ?thesis
      by (auto simp: GetBalance_def absState_def intro: dbStep_refl [OF assms, unfolded absState_def])
  next
    case (Some so)
    note g = getAccountObject_Some [OF assms Pair [unfolded Some]]
    then show ?thesis using onlyObjects_step [of db adb adb1]
      by (auto simp: GetBalance_def Pair Some absState_def viewObj_def)
  qed
qed

lemma Suicide_step:
  assumes "adbOk db (transitions adb) adb"
  shows "dbStep db adb (snd (Suicide db adb a))
    (if accts (absState db adb) a = None then absState db adb
     else aOn db (absState db adb) a (\<lambda>x. x\<lparr>aSuicided := True, aBalance := 0\<rparr>))"
proof (cases "getAccountObject db adb a")
  case (Pair o1 adb1)
  show ?thesis
  proof (cases o1)
    case None
    with getAccountObject_None [OF assms] Pair show ?thesis
      by (auto simp: Suicide_def absState_def intro: dbStep_refl [OF assms, unfolded absState_def])
  next
    case (Some so)
    note g = getAccountObject_Some [OF assms Pair [unfolded Some]]
    let ?e = "suicideChange a (suicided so) (Balance (data so))"
    let ?g = "\<lambda>x. x\<lparr>aSuicided := True, aBalance := 0\<rparr>"
    obtain adb3 so1 where m: "markSuicided (appendTransition adb1 ?e) so = (adb3, so1)" by force
    let ?r = "(adb3, so1\<lparr>data := (data so1)\<lparr>Balance := 0\<rparr>\<rparr>)"
    have "stepOk db adb1 so ?g ?r [?e]"
      using m g by (auto simp: stepOk_def markSuicided_def callOnDirty_def MarkAccountObjectDirty_def appendTransition_def
        sameButDirty_def plainEntry_def objOk_def viewObj_def split: if_splits intro!: dataOf_cong)
    from writeBack_step [OF _ _ this, of a] g onlyObjectsD [of adb adb1]
    have "dbStep db adb1 (writeBack True ?r) (aOn db (absState db adb1) a ?g)" by simp
    moreover have "dbStep db adb adb1 (absState db adb)" using g by (intro onlyObjects_step) auto
    moreover have "absState db adb1 = absState db adb" using dbStep_ok [OF calculation(2)] by simp
    ultimately show ?thesis using g dbStep_trans [of db adb adb1]
      by (auto simp: Suicide_def Pair Some m Let_def absState_def)
  qed
qed

lemma AddRefund_step:
  assumes "adbOk db (transitions adb) adb"
  shows "dbStep db adb (AddRefund adb gas) ((absState db adb)\<lparr>aRefund := refund adb + gas\<rparr>)"
proof -
  let ?adb1 = "AddRefund adb gas" and ?e = "refundChange (refund adb)"
  have eq: "accountObjects ?adb1 = accountObjects adb" "adbTrie ?adb1 = adbTrie adb"
    by (simp_all add: AddRefund_def appendTransition_def)
  have "createdFirst (transitions adb @ [?e])"
    using assms by (intro createdFirst_snoc) (auto simp: adbOk_def journalOk_def)
  then have "adbOk db (transitions adb @ [?e]) adb" using assms by (auto simp: adbOk_def journalOk_def)
  then have "adbOk db (transitions adb @ [?e]) ?adb1" using adbOk_cong [OF eq] by simp
  then show ?thesis using view_cong [OF eq, of db]
    by (auto simp: dbStep_def absState_def AddRefund_def appendTransition_def aundo_def)
qed

end
