(* ===== verification/Account_Snapshot.thy ===== *)
theory Account_Snapshot
  imports Account_Refine
begin

text \<open>
  Snapshots: undoing the journal restores the plain state, so that \<open>Snapshot\<close> and
  \<open>RevertToSnapshot\<close> implement a stack of full copies.
\<close>

section \<open>Undoing journal entries\<close>

lemma adbOk_butlast:
  "adbOk db (J @ [e]) adb \<Longrightarrow> adbOk db J adb"
  by (auto simp: adbOk_def journalOk_def dest: createdFirst_butlast)

lemma getAccountObject_cached:
  "adbOk db J adb \<Longrightarrow> accountObjects adb a = Some so \<Longrightarrow> getAccountObject db adb a = (Some so, adb)"
  by (auto simp: getAccountObject_def adbOk_def objOk_def)

text \<open>What undoing an entry leaves: everything but objects, dirty addresses and the refund.\<close>

definition sameFrame :: "AccountDB \<Rightarrow> AccountDB \<Rightarrow> bool" where
  "sameFrame x y \<longleftrightarrow> adbTrie x = adbTrie y \<and> validRevisions x = validRevisions y \<and>
     nextRevisionID x = nextRevisionID y \<and> transitions x = transitions y"

lemma sameFrame_refl [simp]: "sameFrame x x"
  by (simp add: sameFrame_def)

lemma sameFrame_trans: "sameFrame x y \<Longrightarrow> sameFrame y z \<Longrightarrow> sameFrame x z"
  by (simp add: sameFrame_def)

definition undone :: "accountDatabase \<Rightarrow> transitionEntry list \<Rightarrow> AccountDB \<Rightarrow> astate \<Rightarrow> AccountDB option \<Rightarrow> bool" where
  "undone db J adb s r \<longleftrightarrow> (\<exists>adb'. r = Some adb' \<and> adbOk db J adb' \<and> absState db adb' = s \<and> sameFrame adb' adb)"

lemma undone_object:
  assumes "adbOk db J adb" and "accountObjects adb a = Some so" and "sameButDirty (fst r) adb"
    and "address (snd r) = a" and "objOk db (snd r)" and "viewObj db (snd r) = acctUndo db e (viewObj db so)"
    and "entryAddr e = Some a" and "\<not> isCreate e"
  shows "undone db J adb (aundo db e (absState db adb)) (Some (writeBack True r))"
proof -
  obtain adb2 so2 where r: "r = (adb2, so2)" by force
  note eqs = sameButDirtyD [OF assms(3), unfolded r fst_conv]
  have put: "writeBack True r = adb2\<lparr>accountObjects := (accountObjects adb2)(a \<mapsto> so2)\<rparr>"
    using assms(4) by (simp add: writeBack_def r)
  have "adbOk db J adb2" using assms(1) eqs adbOk_cong [of adb2 adb db J] by simp
  then have ok: "adbOk db J (writeBack True r)" unfolding put using assms(4,5) by (intro adbOk_put) (auto simp: r)
  have v: "view db adb a = Some (viewObj db so)" using adbOk_view [OF assms(1,2)] .
  have "view db (writeBack True r) = (view db adb)(a \<mapsto> viewObj db so2)"
    unfolding put view_put using view_cong [of adb2 adb db] eqs assms(5) by (simp add: objOk_def r)
  moreover have "refund (writeBack True r) = refund adb" using eqs by (simp add: put)
  ultimately have "absState db (writeBack True r) = aundo db e (absState db adb)"
    using v assms(6-8) by (cases e) (auto simp: absState_def aundo_def r)
  with ok eqs show ?thesis by (auto simp: undone_def sameFrame_def put)
qed

lemma undoOn_undone:
  assumes "adbOk db J adb" and "accountObjects adb a = Some so" and "sameButDirty (fst (f adb so)) adb"
    and "address (snd (f adb so)) = a" and "objOk db (snd (f adb so))"
    and "viewObj db (snd (f adb so)) = acctUndo db e (viewObj db so)" and "entryAddr e = Some a" and "\<not> isCreate e"
  shows "undone db J adb (aundo db e (absState db adb)) (undoOn db adb a f)"
  using undone_object [OF assms] getAccountObject_cached [OF assms(1,2)] by (simp add: undoOn_def)

text \<open>The kinds of entries, each for an account whose object is cached.\<close>

definition cachedAt :: "accountDatabase \<Rightarrow> AccountDB \<Rightarrow> address \<Rightarrow> accountObject \<Rightarrow> bool" where
  "cachedAt db adb a so \<longleftrightarrow> accountObjects adb a = Some so \<and> address so = a \<and> objOk db so"

lemma undone_reset:
  assumes "adbOk db J adb" and "cachedAt db adb (address p) so"
  shows "undone db J adb (aundo db (resetObjectChange p) (absState db adb)) (undo db (resetObjectChange p) adb)"
proof -
  have "accts (absState db adb) (address p) = Some (viewObj db so)"
    using assms adbOk_view by (simp add: absState_def cachedAt_def)
  then have "aundo db (resetObjectChange p) (absState db adb) = absState db adb"
    by (simp add: aundo_def fun_upd_idem)
  with assms show ?thesis by (auto simp: undone_def setAccountObject_def cachedAt_def)
qed

lemma undone_suicide:
  assumes "adbOk db J adb" and "cachedAt db adb a so"
  shows "undone db J adb (aundo db (suicideChange a p b) (absState db adb)) (undo db (suicideChange a p b) adb)"
proof -
  have "undone db J adb (aundo db (suicideChange a p b) (absState db adb))
      (Some (writeBack True (ao_setBalance adb (so\<lparr>suicided := p\<rparr>) b)))"
    by (rule undone_object [OF assms(1)])
      (use assms(2) in \<open>auto simp: cachedAt_def ao_setBalance_def\<close>)
  then show ?thesis using getAccountObject_cached [OF assms(1)] assms(2) by (simp add: cachedAt_def)
qed

lemma undone_balance:
  "adbOk db J adb \<Longrightarrow> cachedAt db adb a so \<Longrightarrow>
   undone db J adb (aundo db (balanceChange a p) (absState db adb)) (undo db (balanceChange a p) adb)"
  unfolding undo.simps
  by (erule undoOn_undone) (auto simp: cachedAt_def ao_setBalance_def)

lemma undone_nonce:
  "adbOk db J adb \<Longrightarrow> cachedAt db adb a so \<Longrightarrow>
   undone db J adb (aundo db (nonceChange a p) (absState db adb)) (undo db (nonceChange a p) adb)"
  unfolding undo.simps
  by (erule undoOn_undone) (auto simp: cachedAt_def ao_setNonce_def)

lemma undone_code:
  "adbOk db J adb \<Longrightarrow> cachedAt db adb a so \<Longrightarrow> fixed32 h \<Longrightarrow>
   undone db J adb (aundo db (codeChange a c h) (absState db adb)) (undo db (codeChange a c h) adb)"
  unfolding undo.simps
  by (erule undoOn_undone) (auto simp: cachedAt_def ao_setCode_def objOk_code objOk_not_deleted objOk_coherent)

lemma undone_storage:
  assumes "adbOk db J adb" and "cachedAt db adb a so"
  shows "undone db J adb (aundo db (storageChange a k v) (absState db adb)) (undo db (storageChange a k v) adb)"
proof -
  let ?so1 = "so\<lparr>cachedStorage := AList.update k v (cachedStorage so), dirtyStorage := AList.update k v (dirtyStorage so)\<rparr>"
  have "dataOf db ?so1 = (dataOf db so)(k := v)"
    by (rule ext) (simp add: dataOf_def trieOf_def update_conv' split: option.splits)
  then have "viewObj db ?so1 = acctUndo db (storageChange a k v) (viewObj db so)" by (simp add: viewObj_def)
  then show ?thesis unfolding undo.simps
    by - (rule undoOn_undone [OF assms(1)],
      use assms(2) in \<open>auto simp: cachedAt_def ao_setData_def\<close>)
qed

lemma undone_touch:
  assumes "adbOk db J adb" and "cachedAt db adb a so"
  shows "undone db J adb (aundo db (touchChange a p d) (absState db adb)) (undo db (touchChange a p d) adb)"
proof (cases "\<not> p \<and> a \<noteq> ripemd")
  case True
  let ?f = "\<lambda>s1 obj. (if \<not> d then s1\<lparr>accountObjectsDirty := accountObjectsDirty s1 - {a}\<rparr> else s1, obj\<lparr>touched := p\<rparr>)"
  have "undone db J adb (aundo db (touchChange a p d) (absState db adb)) (undoOn db adb a ?f)"
    by (rule undoOn_undone [OF assms(1)])
      (use assms(2) in \<open>auto simp: cachedAt_def sameButDirty_def\<close>)
  with True show ?thesis by simp
next
  case False
  have "accts (absState db adb) a = Some (viewObj db so)"
    using assms adbOk_view by (simp add: absState_def cachedAt_def)
  with False assms show ?thesis by (auto simp: undone_def aundo_def fun_upd_idem)
qed

lemma undone_create:
  assumes "adbOk db (J @ [createObjectChange a]) adb"
  shows "undone db J adb (aundo db (createObjectChange a) (absState db adb)) (undo db (createObjectChange a) adb)"
proof -
  let ?adb1 = "adb\<lparr>accountObjects := (accountObjects adb)(a := None), accountObjectsDirty := accountObjectsDirty adb - {a}\<rparr>"
  have tr: "getAccountObjectFromTrie db adb a = None" using assms by (auto simp: adbOk_def journalOk_def)
  have "view db ?adb1 = (view db adb)(a := None)"
    using tr by (intro ext) (simp add: view_alt split: option.splits)
  moreover have "adbOk db J ?adb1"
    using adbOk_butlast [OF assms] assms createdFirst_last [of J a]
    by (auto simp: adbOk_def dbOk_def journalOk_def)
  ultimately show ?thesis by (auto simp: undone_def absState_def aundo_def sameFrame_def)
qed

lemma undone_refund:
  assumes "adbOk db J adb"
  shows "undone db J adb (aundo db (refundChange p) (absState db adb)) (undo db (refundChange p) adb)"
proof -
  have "adbOk db J (adb\<lparr>refund := p\<rparr>)" using assms adbOk_cong [of "adb\<lparr>refund := p\<rparr>" adb] by simp
  then show ?thesis using view_cong [of "adb\<lparr>refund := p\<rparr>" adb db]
    by (auto simp: undone_def absState_def aundo_def sameFrame_def)
qed

lemma undo_undone:
  assumes "adbOk db (J @ [e]) adb"
  shows "undone db J adb (aundo db e (absState db adb)) (undo db e adb)"
proof -
  have ok: "adbOk db J adb" using adbOk_butlast [OF assms] .
  have cached: "\<exists>so. cachedAt db adb a so" if "entryAddr e = Some a" for a
    using that assms by (auto simp: adbOk_def journalOk_def cachedAt_def)
  have code: "fixed32 h" if "e = codeChange a c h" for a c h
    using that assms by (auto simp: adbOk_def journalOk_def)
  show ?thesis
  proof (cases e)
    case createObjectChange
    with undone_create assms show ?thesis by simp
  next
    case (codeChange a c h)
    with cached code undone_code [OF ok] show ?thesis by (metis entryAddr.simps(7))
  next
    case refundChange
    with undone_refund [OF ok] show ?thesis by simp
  qed (use cached in \<open>simp_all only: entryAddr.simps,
      (metis undone_reset [OF ok] undone_suicide [OF ok] undone_balance [OF ok]
        undone_nonce [OF ok] undone_storage [OF ok] undone_touch [OF ok])+\<close>)
qed

lemma undoAll_undone:
  "adbOk db (J @ es) adb \<Longrightarrow> undone db J adb (fold (aundo db) (rev es) (absState db adb)) (undoAll db (rev es) adb)"
proof (induction es arbitrary: adb rule: rev_induct)
  case Nil
  then show ?case by (simp add: undone_def)
next
  case (snoc e es)
  then have "adbOk db ((J @ es) @ [e]) adb" by simp
  from undo_undone [OF this] obtain adb' where a: "undo db e adb = Some adb'" "adbOk db (J @ es) adb'"
    "absState db adb' = aundo db e (absState db adb)" "sameFrame adb' adb" by (auto simp: undone_def)
  from snoc.IH [OF a(2)] a show ?case by (auto simp: undone_def intro: sameFrame_trans)
qed

section \<open>Creating accounts\<close>

text \<open>
  On an existing account \<open>CreateAccount\<close> changes nothing but the journal: the new object is
  detached and the old one stays.
\<close>

lemma CreateAccount_step:
  assumes "adbOk db (transitions adb) adb"
  shows "dbStep db adb (CreateAccount db adb a) (aOn db (absState db adb) a (\<lambda>x. x))"
proof (cases "getAccountObject db adb a")
  case (Pair o1 adb1)
  show ?thesis
  proof (cases o1)
    case None
    with Pair getAccountObject_None [OF assms] have none: "getAccountObject db adb a = (None, adb)" "view db adb a = None"
      by auto
    from createObject_fresh [OF assms none(1)] obtain adb2 so where c:
      "createObject db adb a = (adb2, so, True, None)"
      "adbOk db (transitions adb2) adb2" "transitions adb2 = transitions adb @ [createObjectChange a]"
      "view db adb2 = (view db adb)(a \<mapsto> zeroView db)" "refund adb2 = refund adb" "adbTrie adb2 = adbTrie adb"
      "validRevisions adb2 = validRevisions adb" "nextRevisionID adb2 = nextRevisionID adb" by metis
    then show ?thesis using none(2)
      by (auto simp: dbStep_def aOn_def absState_def aundo_def fun_upd_idem CreateAccount_def)
  next
    case (Some so)
    note g = getAccountObject_Some [OF assms Pair [unfolded Some]]
    let ?adb2 = "(MarkAccountObjectDirty adb1 a)\<lparr>transitions := transitions adb1 @ [resetObjectChange so]\<rparr>"
    have eq: "CreateAccount db adb a = ?adb2"
      using g by (simp add: CreateAccount_def createObject_def Pair Some ao_setNonce_def callOnDirty_def newAccountObject_def
        setAccountObject_def appendTransition_def MarkAccountObjectDirty_def zeroAccount_def writeBack_def ao_setBalance_def)
    have same: "accountObjects ?adb2 = accountObjects adb1" "adbTrie ?adb2 = adbTrie adb1" "refund ?adb2 = refund adb1"
      by (simp_all add: MarkAccountObjectDirty_def)
    have "adbOk db (transitions adb @ [resetObjectChange so]) adb1"
      using adbOk_append_plain [of db "transitions adb" adb1 "[resetObjectChange so]" a] g by (simp add: plainEntry_def)
    then have ok: "adbOk db (transitions adb @ [resetObjectChange so]) ?adb2" using adbOk_cong [OF same(1,2)] by simp
    have abs: "absState db ?adb2 = absState db adb"
      using absState_cong [OF same, of db] g onlyObjectsD [of adb adb1] by (simp add: absState_def)
    have "aOn db (absState db adb) a (\<lambda>x. x) = absState db adb" "aundo db (resetObjectChange so) (absState db adb) = absState db adb"
      using g by (auto simp: aOn_def aundo_def absState_def fun_upd_idem)
    with ok abs g onlyObjectsD [of adb adb1] show ?thesis
      unfolding eq by (auto simp: dbStep_def MarkAccountObjectDirty_def)
  qed
qed

section \<open>Snapshots as copies\<close>

datatype adb_op =
    OpAddBalance address bigint
  | OpSubBalance address bigint
  | OpSetBalance address bigint
  | OpSetNonce address u64
  | OpSetCode address bytes
  | OpSetData address bytes "bytes option"
  | OpTransfer address address bigint
  | OpSuicide address
  | OpCreateAccount address
  | OpAddRefund u64
  | OpGetData address bytes
  | OpGetBalance address
  | OpSnapshot
  | OpRevert nat

fun exec :: "accountDatabase \<Rightarrow> adb_op \<Rightarrow> AccountDB \<Rightarrow> AccountDB option" where
  "exec db (OpAddBalance a n) adb = Some (AddBalance db adb a n)"
| "exec db (OpSubBalance a n) adb = Some (SubBalance db adb a n)"
| "exec db (OpSetBalance a n) adb = Some (SetBalance db adb a n)"
| "exec db (OpSetNonce a n) adb = Some (SetNonce db adb a n)"
| "exec db (OpSetCode a c) adb = Some (SetCode db adb a c)"
| "exec db (OpSetData a k v) adb = Some (SetData db adb a k v)"
| "exec db (OpTransfer a b n) adb = Some (Transfer db adb a b n)"
| "exec db (OpSuicide a) adb = Some (snd (Suicide db adb a))"
| "exec db (OpCreateAccount a) adb = Some (CreateAccount db adb a)"
| "exec db (OpAddRefund g) adb = Some (AddRefund adb g)"
| "exec db (OpGetData a k) adb = Some (snd (GetData db adb a k))"
| "exec db (OpGetBalance a) adb = Some (snd (GetBalance db adb a))"
| "exec db OpSnapshot adb = Some (snd (Snapshot adb))"
| "exec db (OpRevert i) adb = RevertToSnapshot db adb i"

text \<open>The contract: an operation on the plain state, a stack of copies with their identifiers.\<close>

fun plainOp :: "accountDatabase \<Rightarrow> adb_op \<Rightarrow> astate \<Rightarrow> astate" where
  "plainOp db (OpAddBalance a n) s = aOn db s a (\<lambda>x. x\<lparr>aBalance := aBalance x + n\<rparr>)"
| "plainOp db (OpSubBalance a n) s = aOn db s a (\<lambda>x. x\<lparr>aBalance := aBalance x - n\<rparr>)"
| "plainOp db (OpSetBalance a n) s = aOn db s a (\<lambda>x. x\<lparr>aBalance := n\<rparr>)"
| "plainOp db (OpSetNonce a n) s = aOn db s a (\<lambda>x. x\<lparr>aNonce := n\<rparr>)"
| "plainOp db (OpSetCode a c) s = aOn db s a (\<lambda>x. x\<lparr>aCodeHash := Sum256 db c, aCode := Some c\<rparr>)"
| "plainOp db (OpSetData a k v) s = aOn db s a (\<lambda>x. x\<lparr>aData := (aData x)(k := v)\<rparr>)"
| "plainOp db (OpTransfer a b n) s =
     (if n \<le> 0 then s
      else aOn db (aOn db s a (\<lambda>x. x\<lparr>aBalance := aBalance x - n\<rparr>)) b (\<lambda>x. x\<lparr>aBalance := aBalance x + n\<rparr>))"
| "plainOp db (OpSuicide a) s =
     (if accts s a = None then s else aOn db s a (\<lambda>x. x\<lparr>aSuicided := True, aBalance := 0\<rparr>))"
| "plainOp db (OpCreateAccount a) s = aOn db s a (\<lambda>x. x)"
| "plainOp db (OpAddRefund g) s = s\<lparr>aRefund := aRefund s + g\<rparr>"
| "plainOp db _ s = s"

type_synonym copies = "astate \<times> (nat \<times> astate) list \<times> nat"

fun copyExec :: "accountDatabase \<Rightarrow> adb_op \<Rightarrow> copies \<Rightarrow> copies option" where
  "copyExec db OpSnapshot (s, st, n) = Some (s, st @ [(n, s)], Suc n)"
| "copyExec db (OpRevert i) (s, st, n) =
     (let k = length (takeWhile (\<lambda>p. fst p \<noteq> i) st)
      in if k < length st then Some (snd (st ! k), take k st, n) else None)"
| "copyExec db c (s, st, n) = Some (plainOp db c s, st, n)"

fun runOps :: "('a \<Rightarrow> 's \<Rightarrow> 's option) \<Rightarrow> 'a list \<Rightarrow> 's \<Rightarrow> 's option" where
  "runOps f [] s = Some s"
| "runOps f (c # cs) s = Option.bind (f c s) (runOps f cs)"

definition revMatches :: "accountDatabase \<Rightarrow> transitionEntry list \<Rightarrow> astate \<Rightarrow> revision \<Rightarrow> nat \<times> astate \<Rightarrow> bool" where
  "revMatches db J s r p \<longleftrightarrow> revId r = fst p \<and> journalIndex r \<le> length J \<and>
     fold (aundo db) (rev (drop (journalIndex r) J)) s = snd p"

definition simCopies :: "accountDatabase \<Rightarrow> AccountDB \<Rightarrow> copies \<Rightarrow> bool" where
  "simCopies db adb cp \<longleftrightarrow>
    (case cp of (s, st, n) \<Rightarrow>
       adbOk db (transitions adb) adb \<and> absState db adb = s \<and> nextRevisionID adb = n \<and>
       sorted_wrt (<) (map revId (validRevisions adb)) \<and> (\<forall>r \<in> set (validRevisions adb). revId r < n) \<and>
       sorted (map journalIndex (validRevisions adb)) \<and>
       list_all2 (revMatches db (transitions adb) s) (validRevisions adb) st)"

lemma plain_step:
  assumes "adbOk db (transitions adb) adb" and "c \<noteq> OpSnapshot" and "\<And>i. c \<noteq> OpRevert i"
  shows "\<exists>adb'. exec db c adb = Some adb' \<and> dbStep db adb adb' (plainOp db c (absState db adb))"
proof -
  note on = onObject_step [OF assms(1)]
  have sha: "fixed32 (Sum256 db x)" for x using assms(1) by (simp add: adbOk_def dbOk_def)
  show ?thesis
  proof (cases c)
    case (OpTransfer a b n)
    then show ?thesis using Transfer_step [OF assms(1), of n a b] dbStep_refl [OF assms(1)]
      by (cases "n \<le> 0") (auto simp: Transfer_def)
  next
    case (OpSuicide a)
    then show ?thesis using Suicide_step [OF assms(1), of a] by simp
  next
    case (OpAddRefund g)
    then show ?thesis using AddRefund_step [OF assms(1), of g] by (simp add: absState_def)
  qed (use assms(2,3) on GetData_step [OF assms(1)] GetBalance_step [OF assms(1)] CreateAccount_step [OF assms(1)]
         SetCode_objStep [OF sha] in
       \<open>simp_all add: AddBalance_def SubBalance_def SetBalance_def SetNonce_def SetCode_def SetData_def object_steps\<close>)
qed

lemma sim_step:
  assumes "simCopies db adb (s, st, n)" and "dbStep db adb adb' s'"
  shows "simCopies db adb' (s', st, n)"
proof -
  from assms(2) obtain es where es: "transitions adb' = transitions adb @ es" "adbOk db (transitions adb') adb'"
    "absState db adb' = s'" "fold (aundo db) (rev es) s' = absState db adb"
    "validRevisions adb' = validRevisions adb" "nextRevisionID adb' = nextRevisionID adb" by (auto simp: dbStep_def)
  have "revMatches db (transitions adb') s' r p" if "revMatches db (transitions adb) s r p" for r p
    using that assms(1) es(1,4) by (auto simp: revMatches_def simCopies_def)
  then have "list_all2 (revMatches db (transitions adb') s') (validRevisions adb) st"
    using assms(1) by (auto simp: simCopies_def elim!: list_all2_mono)
  with assms(1) es show ?thesis by (auto simp: simCopies_def)
qed

lemma sim_snapshot:
  assumes "simCopies db adb (s, st, n)"
  shows "simCopies db (snd (Snapshot adb)) (s, st @ [(n, s)], Suc n)"
proof -
  let ?adb1 = "snd (Snapshot adb)"
  have eq: "accountObjects ?adb1 = accountObjects adb" "adbTrie ?adb1 = adbTrie adb" "refund ?adb1 = refund adb"
    "transitions ?adb1 = transitions adb" by (simp_all add: Snapshot_def Let_def)
  have "journalIndex r \<le> length (transitions adb)" if "r \<in> set (validRevisions adb)" for r
    using assms that by (auto simp: simCopies_def revMatches_def list_all2_conv_all_nth in_set_conv_nth)
  then show ?thesis
    using assms adbOk_cong [OF eq(1,2)] absState_cong [OF eq(1-3), of db] eq(4)
    by (auto simp: simCopies_def Snapshot_def Let_def sorted_wrt_append sorted_append less_Suc_eq
      intro!: list_all2_appendI) (simp add: revMatches_def)
qed

lemma sorted_ids_index:
  assumes "sorted_wrt (<) (map f xs)" and "list_all2 (\<lambda>x p. f x = fst p) xs st"
  shows "let idx = goSearch (\<lambda>i. f (xs ! i) \<ge> v) 0 (length xs); k = length (takeWhile (\<lambda>p. fst p \<noteq> v) st)
    in if idx = length xs \<or> f (xs ! idx) \<noteq> (v :: nat) then k = length st else k = idx \<and> idx < length xs"
proof -
  define idx where "idx = goSearch (\<lambda>i. f (xs ! i) \<ge> v) 0 (length xs)"
  have mono: "f (xs ! x) < f (xs ! y)" if "x < y" "y < length xs" for x y
    using sorted_wrt_nth_less [OF assms(1), of x y] that by simp
  have "f (xs ! y) \<ge> v" if "x \<le> y" "y < length xs" "f (xs ! x) \<ge> v" for x y
    using mono [of x y] that by (cases "x = y") auto
  from goSearch_least [of "length xs" "\<lambda>i. f (xs ! i) \<ge> v" 0] this
  have idx: "idx \<le> length xs" "\<forall>x<idx. f (xs ! x) < v" "idx < length xs \<longrightarrow> f (xs ! idx) \<ge> v"
    by (auto simp: idx_def not_le)
  have st: "length st = length xs" "\<And>i. i < length xs \<Longrightarrow> fst (st ! i) = f (xs ! i)"
    using assms(2) by (auto simp: list_all2_conv_all_nth)
  show ?thesis
  proof (cases "idx = length xs \<or> f (xs ! idx) \<noteq> v")
    case True
    have "fst (st ! i) \<noteq> v" if "i < length st" for i
    proof (cases i idx rule: linorder_cases)
      case less
      with idx(2) st that show ?thesis by fastforce
    next
      case equal
      with True st that show ?thesis by simp
    next
      case greater
      with mono [of idx i] st that idx(3) show ?thesis by simp
    qed
    then have "\<forall>p \<in> set st. fst p \<noteq> v" unfolding all_set_conv_all_nth by blast
    then have "takeWhile (\<lambda>p. fst p \<noteq> v) st = st" unfolding takeWhile_eq_all_conv .
    then have "length (takeWhile (\<lambda>p. fst p \<noteq> v) st) = length st" by (rule arg_cong)
    with True show ?thesis by (simp add: idx_def [symmetric])
  next
    case False
    then have "takeWhile (\<lambda>p. fst p \<noteq> v) st = take idx st"
      using st idx by (intro takeWhile_eq_take_P_nth) auto
    with False st idx(1) have "length (takeWhile (\<lambda>p. fst p \<noteq> v) st) = idx" by simp
    with False idx(1) show ?thesis by (simp add: idx_def [symmetric])
  qed
qed

lemma undo_prefix:
  assumes "j' \<le> j" and "j \<le> length J"
  shows "fold f (rev (drop j' (take j J))) (fold f (rev (drop j J)) s) = fold f (rev (drop j' J)) s"
proof -
  have "drop j' J = drop j' (take j J @ drop j J)" by simp
  also have "\<dots> = drop j' (take j J) @ drop j J" using assms by (subst drop_append) simp
  finally have eq: "drop j' J = drop j' (take j J) @ drop j J" .
  show ?thesis unfolding eq rev_append fold_append comp_def ..
qed

lemma revMatches_take:
  assumes "revMatches db J s r p" and "journalIndex r \<le> j" and "j \<le> length J"
  shows "revMatches db (take j J) (fold (aundo db) (rev (drop j J)) s) r p"
  using assms undo_prefix [OF assms(2,3), of "aundo db" s] by (simp add: revMatches_def)

lemma sim_revert:
  assumes "simCopies db adb (s, st, n)"
  shows "case copyExec db (OpRevert i) (s, st, n) of
      None \<Rightarrow> RevertToSnapshot db adb i = None
    | Some cp \<Rightarrow> \<exists>adb'. RevertToSnapshot db adb i = Some adb' \<and> simCopies db adb' cp"
proof -
  let ?revs = "validRevisions adb" and ?J = "transitions adb"
  define idx where "idx = goSearch (\<lambda>k. revId (?revs ! k) \<ge> i) 0 (length ?revs)"
  define k where "k = length (takeWhile (\<lambda>p. fst p \<noteq> i) st)"
  from assms have sorted: "sorted_wrt (<) (map revId ?revs)" "sorted (map journalIndex ?revs)"
    and ok: "adbOk db ?J adb" "absState db adb = s" "nextRevisionID adb = n"
    and below: "\<forall>r \<in> set ?revs. revId r < n"
    and l2: "list_all2 (revMatches db ?J s) ?revs st"
    by (auto simp: simCopies_def)
  have ids: "list_all2 (\<lambda>r p. revId r = fst p) ?revs st"
    using l2 by (rule list_all2_mono) (simp add: revMatches_def)
  have ik: "if idx = length ?revs \<or> revId (?revs ! idx) \<noteq> i then k = length st else k = idx \<and> idx < length ?revs"
    using sorted_ids_index [OF sorted(1) ids, of i] unfolding Let_def idx_def k_def .
  have len: "length st = length ?revs" using l2 by (simp add: list_all2_lengthD)
  show ?thesis
  proof (cases "idx = length ?revs \<or> revId (?revs ! idx) \<noteq> i")
    case True
    with ik show ?thesis by (simp add: k_def [symmetric] RevertToSnapshot_def Let_def idx_def [symmetric])
  next
    case False
    with ik have k: "k = idx" "idx < length ?revs" by auto
    let ?j = "journalIndex (?revs ! idx)"
    from l2 k have j: "?j \<le> length ?J" "fold (aundo db) (rev (drop ?j ?J)) s = snd (st ! idx)"
      by (auto simp: revMatches_def list_all2_conv_all_nth)
    from undoAll_undone [of db "take ?j ?J" "drop ?j ?J" adb] ok j obtain adb1 where
      u: "undoAll db (rev (drop ?j ?J)) adb = Some adb1" "adbOk db (take ?j ?J) adb1" "absState db adb1 = snd (st ! idx)"
        "sameFrame adb1 adb" by (auto simp: undone_def)
    let ?adb2 = "adb1\<lparr>transitions := take ?j ?J, validRevisions := take idx ?revs\<rparr>"
    have rev: "RevertToSnapshot db adb i = Some ?adb2"
      using False u(1) by (simp add: RevertToSnapshot_def Let_def idx_def [symmetric])
    have before: "journalIndex (?revs ! m) \<le> ?j" if "m < idx" for m
      using sorted_nth_mono [OF sorted(2), of m idx] that k by simp
    have "list_all2 (revMatches db (take ?j ?J) (snd (st ! idx))) (take idx ?revs) (take idx st)"
      using l2 before k len revMatches_take [OF _ _ j(1), of db s] unfolding list_all2_conv_all_nth j(2) by simp
    moreover have "adbOk db (take ?j ?J) ?adb2" "absState db ?adb2 = snd (st ! idx)"
      using u adbOk_cong [of ?adb2 adb1 db] absState_cong [of ?adb2 adb1 db] by simp_all
    ultimately have "simCopies db ?adb2 (snd (st ! idx), take idx st, n)"
      using sorted below ok(3) u(4)
      by (auto simp: simCopies_def sameFrame_def take_map [symmetric] sorted_wrt_take dest: in_set_takeD)
    with rev k len show ?thesis by (simp add: k_def [symmetric])
  qed
qed

lemma exec_simulates:
  assumes "simCopies db adb cp"
  shows "case copyExec db c cp of None \<Rightarrow> exec db c adb = None
    | Some cp' \<Rightarrow> \<exists>adb'. exec db c adb = Some adb' \<and> simCopies db adb' cp'"
proof -
  obtain s st n where cp: "cp = (s, st, n)" by (cases cp)
  have ok: "adbOk db (transitions adb) adb" "absState db adb = s" using assms by (auto simp: simCopies_def cp)
  consider "c = OpSnapshot" | i where "c = OpRevert i" | "c \<noteq> OpSnapshot" "\<And>i. c \<noteq> OpRevert i" by blast
  then show ?thesis
  proof cases
    case 1
    with sim_snapshot [OF assms [unfolded cp]] show ?thesis by (simp add: cp)
  next
    case 2
    show ?thesis unfolding 2 cp exec.simps by (rule sim_revert [OF assms [unfolded cp]])
  next
    case 3
    from plain_step [OF ok(1) 3] obtain adb' where "exec db c adb = Some adb'" "dbStep db adb adb' (plainOp db c s)"
      by (auto simp: ok(2))
    moreover have "copyExec db c (s, st, n) = Some (plainOp db c s, st, n)" using 3 by (cases c) auto
    ultimately show ?thesis using sim_step [OF assms [unfolded cp]] by (auto simp: cp)
  qed
qed

lemma run_simulates:
  "simCopies db adb cp \<Longrightarrow>
   (case runOps (copyExec db) cs cp of None \<Rightarrow> runOps (exec db) cs adb = None
    | Some cp' \<Rightarrow> \<exists>adb'. runOps (exec db) cs adb = Some adb' \<and> simCopies db adb' cp')"
proof (induction cs arbitrary: adb cp)
  case (Cons c cs)
  from exec_simulates [OF Cons.prems, of c] show ?case
  proof (cases "copyExec db c cp")
    case (Some cp')
    with exec_simulates [OF Cons.prems, of c] obtain adb' where
      e: "exec db c adb = Some adb'" "simCopies db adb' cp'" by auto
    have eq: "runOps (exec db) (c # cs) adb = runOps (exec db) cs adb'"
      "runOps (copyExec db) (c # cs) cp = runOps (copyExec db) cs cp'" by (simp_all add: e(1) Some)
    from Cons.IH [OF e(2)] show ?thesis unfolding eq .
  qed simp
qed simp

text \<open>A database just opened over a trie: nothing cached, an empty journal.\<close>

definition freshDB :: "AccountDB \<Rightarrow> bool" where
  "freshDB adb \<longleftrightarrow> accountObjects adb = (\<lambda>_. None) \<and> transitions adb = [] \<and> validRevisions adb = []"

lemma fresh_sim:
  assumes "dbOk db adb" and "freshDB adb"
  shows "simCopies db adb (absState db adb, [], nextRevisionID adb)"
  using assms by (auto simp: simCopies_def freshDB_def adbOk_def journalOk_def createdFirst_def)

text \<open>Sequences in which snapshots are only reverted to if they were taken after \<open>n\<close>.\<close>

fun revertsAfter :: "nat \<Rightarrow> adb_op \<Rightarrow> bool" where
  "revertsAfter n (OpRevert i) \<longleftrightarrow> n < i"
| "revertsAfter n _ \<longleftrightarrow> True"

lemma copies_keep_prefix:
  assumes "\<forall>c \<in> set cs. revertsAfter n c" and "\<forall>p \<in> set st. fst p < n"
  shows "runOps (copyExec db) cs (s, st @ (n, s0) # st', k) = Some (s', stk, k') \<Longrightarrow>
    \<exists>st''. stk = st @ (n, s0) # st''"
  using assms(1)
proof (induction cs arbitrary: s st' k)
  case (Cons c cs)
  from Cons.prems obtain t where t: "copyExec db c (s, st @ (n, s0) # st', k) = Some t"
    "runOps (copyExec db) cs t = Some (s', stk, k')" by (auto split: Option.bind_splits)
  have "\<exists>s1 st1 k1. t = (s1, st @ (n, s0) # st1, k1)"
  proof (cases c)
    case (OpRevert i)
    with Cons.prems(2) have i: "n < i" by simp
    have "takeWhile (\<lambda>p. fst p \<noteq> i) (st @ (n, s0) # st') = st @ (n, s0) # takeWhile (\<lambda>p. fst p \<noteq> i) st'"
      using i assms(2) by (subst takeWhile_append2) auto
    with t(1) show ?thesis by (auto simp: OpRevert Let_def split: if_splits)
  qed (use t(1) in auto)
  then obtain s1 st1 k1 where "t = (s1, st @ (n, s0) # st1, k1)" by blast
  with Cons.IH t(2) Cons.prems(2) show ?case by auto
qed auto

section \<open>Properties\<close>

definition exampleDb :: accountDatabase where
  "exampleDb = \<lparr>OpenTrie = (\<lambda>_. Some (\<lambda>_. None)), TrieHash = (\<lambda>_. replicate 32 0), ContractCode = (\<lambda>_. None),
    EncodeAccount = (\<lambda>_. [1]), DecodeAccount = (\<lambda>_. None), Sum256 = (\<lambda>_. replicate 32 0)\<rparr>"

definition exampleAdb :: AccountDB where
  "exampleAdb = \<lparr>adbTrie = (\<lambda>_. None), accountObjects = (\<lambda>_. None), accountObjectsDirty = {}, adbErr = None,
    refund = 0, transitions = [], validRevisions = [], nextRevisionID = 0\<rparr>"

lemma example_ok: "dbOk exampleDb exampleAdb" "freshDB exampleAdb"
  by (auto simp: dbOk_def freshDB_def exampleDb_def exampleAdb_def getAccountObjectFromTrie_def fixed32_def)

text \<open>
  (C4) The journal implements snapshots by copying. For every sequence of balance, nonce, code,
  storage, transfer, suicide, account creation, read, snapshot and revert operations, started on
  a freshly opened account database, the database panics exactly when the machine that keeps full
  copies of the plain state rejects the sequence, and otherwise shows the same accounts.
\<close>

theorem journal_refines_copies:
  assumes "dbOk db adb" and "freshDB adb"
  shows "case runOps (copyExec db) cs (absState db adb, [], nextRevisionID adb) of
      None \<Rightarrow> runOps (exec db) cs adb = None
    | Some (s, _) \<Rightarrow> \<exists>adb'. runOps (exec db) cs adb = Some adb' \<and> absState db adb' = s"
  using run_simulates [OF fresh_sim [OF assms], of cs]
  by (auto simp: simCopies_def split: option.splits)

theorem journal_refines_copies_witness:
  "\<exists>adb'. runOps (exec exampleDb)
      [OpAddBalance [1] 5, OpSnapshot, OpSetBalance [1] 9, OpSetData [2] [3] (Some [4]), OpRevert 0] exampleAdb = Some adb' \<and>
    accts (absState exampleDb adb') [2] = None \<and>
    map_option aBalance (accts (absState exampleDb adb') [1]) = Some 5"
proof -
  let ?cs = "[OpAddBalance [1] 5, OpSnapshot, OpSetBalance [1] 9, OpSetData [2] [3] (Some [4]), OpRevert 0]"
  have "view exampleDb exampleAdb = (\<lambda>_. None)"
    by (rule ext) (simp add: view_alt exampleAdb_def getAccountObjectFromTrie_def)
  then have "runOps (copyExec exampleDb) ?cs (absState exampleDb exampleAdb, [], nextRevisionID exampleAdb) =
      Some (\<lparr>accts = [[1] \<mapsto> (zeroView exampleDb)\<lparr>aBalance := 5\<rparr>], aRefund = 0\<rparr>, [], 1)"
    by (simp add: absState_def aOn_def exampleAdb_def zeroView_def viewObj_def newAccountObject_def zeroAccount_def)
  with journal_refines_copies [OF example_ok, of ?cs] show ?thesis by auto
qed

text \<open>
  (C17) Reverting to a snapshot restores the state it was taken in: whatever operations follow the
  snapshot, nested snapshots and their reverts included, \<open>RevertToSnapshot\<close> does not panic and
  every account reads as it did before.
\<close>

theorem revert_restores_snapshot:
  assumes "dbOk db adb0" and "freshDB adb0" and "runOps (exec db) before adb0 = Some adb"
    and "\<forall>c \<in> set cs. revertsAfter (fst (Snapshot adb)) c"
    and "runOps (exec db) cs (snd (Snapshot adb)) = Some adb2"
  shows "\<exists>adb3. RevertToSnapshot db adb2 (fst (Snapshot adb)) = Some adb3 \<and> absState db adb3 = absState db adb"
proof -
  from run_simulates [OF fresh_sim [OF assms(1,2)], of "before"] assms(3) obtain s st n where
    sim: "simCopies db adb (s, st, n)" by (auto split: option.splits)
  let ?i = "fst (Snapshot adb)"
  have i: "?i = n" and s: "absState db adb = s" using sim by (auto simp: Snapshot_def Let_def simCopies_def)
  have ids: "\<forall>p \<in> set st. fst p < n"
    using sim by (auto simp: simCopies_def revMatches_def list_all2_conv_all_nth all_set_conv_all_nth)
  from run_simulates [OF sim_snapshot [OF sim], of cs] assms(5) obtain s2 stk k2 where
    cp2: "runOps (copyExec db) cs (s, st @ [(n, s)], Suc n) = Some (s2, stk, k2)" "simCopies db adb2 (s2, stk, k2)"
    by (auto split: option.splits)
  from copies_keep_prefix [of cs n st db s s "[]" "Suc n" s2 stk k2] cp2 assms(4) ids i
  obtain st'' where stk: "stk = st @ (n, s) # st''" by auto
  have "takeWhile (\<lambda>p. fst p \<noteq> n) stk = st" unfolding stk using ids by (subst takeWhile_append2) auto
  then have "copyExec db (OpRevert n) (s2, stk, k2) = Some (s, st, k2)" by (simp add: stk)
  with sim_revert [OF cp2(2), of n] show ?thesis by (auto simp: i s simCopies_def)
qed

theorem revert_restores_snapshot_witness:
  "\<exists>adb2 adb3. runOps (exec exampleDb) [OpAddBalance [1] 5, OpSnapshot, OpRevert 1] (snd (Snapshot exampleAdb)) = Some adb2 \<and>
    RevertToSnapshot exampleDb adb2 0 = Some adb3 \<and> absState exampleDb adb3 = absState exampleDb exampleAdb"
proof -
  let ?cs = "[OpAddBalance [1] 5, OpSnapshot, OpRevert 1]"
  note sim = fresh_sim [OF example_ok]
  have "runOps (copyExec exampleDb) ?cs (absState exampleDb exampleAdb, [(0, absState exampleDb exampleAdb)], 1) \<noteq> None"
    by (simp add: Let_def)
  with run_simulates [OF sim_snapshot [OF sim], of ?cs] obtain adb2 where
    r: "runOps (exec exampleDb) ?cs (snd (Snapshot exampleAdb)) = Some adb2"
    by (auto simp: exampleAdb_def simp del: runOps.simps split: option.splits)
  have z: "fst (Snapshot exampleAdb) = 0" by (simp add: Snapshot_def exampleAdb_def)
  have "runOps (exec exampleDb) [] exampleAdb = Some exampleAdb" by simp
  from revert_restores_snapshot [OF example_ok this _ r] r z show ?thesis by auto
qed

end
