(* ===== verification/Account_Commit.thy ===== *)
theory Account_Commit
  imports Account_Snapshot
begin

text \<open>
  Writing back: the loop of \<open>updateTrie\<close> on a real trie object, through the contract
  \<open>byte_store\<close>, and what \<open>Finalise\<close> puts into the account trie. Go iterates over its maps in
  an arbitrary order; the results do not depend on it.
\<close>

section \<open>Flushing storage slots\<close>

text \<open>The value a slot has once it went through a trie: an empty slice is a deletion.\<close>

fun trieValue :: "bytes option \<Rightarrow> bytes option" where
  "trieValue None = None"
| "trieValue (Some v) = (if v = [] then None else Some v)"

lemma flushKeys_trie:
  "fst (flushKeys keys tr dirty) k =
    (if k \<in> set keys then (case map_of dirty k of None \<Rightarrow> tr k | Some v \<Rightarrow> trieValue v) else tr k)"
proof (induction keys arbitrary: tr dirty)
  case (Cons key keys)
  show ?case
  proof (cases "map_of dirty key")
    case None
    then show ?thesis using Cons.IH by (auto split: option.splits)
  next
    case (Some v)
    then show ?thesis using Cons.IH
      by (cases v) (auto simp: delete_conv' mapUpdate_def split: option.splits)
  qed
qed simp

lemma flushKeys_dirty:
  "map_of (snd (flushKeys keys tr dirty)) k = (if k \<in> set keys then None else map_of dirty k)"
proof (induction keys arbitrary: tr dirty)
  case (Cons key keys)
  then show ?case by (auto simp: delete_conv' split: option.splits)
qed simp

lemma flushKeys_set: "set keys = set keys' \<Longrightarrow> fst (flushKeys keys tr dirty) = fst (flushKeys keys' tr dirty)"
  by (rule ext) (simp add: flushKeys_trie)

text \<open>
  The same loop on a byte store, with the errors it remembers: \<^verbatim>\<open>ao.setError\<close> keeps the first one.
\<close>

definition firstError :: "'e option \<Rightarrow> 'e option \<Rightarrow> 'e option" where
  "firstError err e = (if err = None then e else err)"

fun flushStore ::
  "('s \<Rightarrow> bytes \<Rightarrow> bytes \<Rightarrow> (trie_error option \<times> 's) option) \<Rightarrow> ('s \<Rightarrow> bytes \<Rightarrow> (trie_error option \<times> 's) option) \<Rightarrow>
   bytes list \<Rightarrow> 's \<Rightarrow> Storage \<Rightarrow> trie_error option \<Rightarrow> ('s \<times> Storage \<times> trie_error option) option" where
  "flushStore put del [] s dirty err = Some (s, dirty, err)"
| "flushStore put del (key # keys) s dirty err =
     (case map_of dirty key of
        None \<Rightarrow> flushStore put del keys s dirty err
      | Some None \<Rightarrow>
          Option.bind (del s key) (\<lambda>(e, s'). flushStore put del keys s' (AList.delete key dirty) (firstError err e))
      | Some (Some value) \<Rightarrow>
          Option.bind (put s key value) (\<lambda>(e, s'). flushStore put del keys s' (AList.delete key dirty) (firstError err e)))"

context byte_store
begin

lemma flush_law:
  "rep s m \<Longrightarrow> \<exists>s'. flushStore put del keys s dirty err = Some (s', snd (flushKeys keys m dirty), err) \<and>
     rep s' (fst (flushKeys keys m dirty))"
proof (induction keys arbitrary: s m dirty)
  case (Cons key keys)
  show ?case
  proof (cases "map_of dirty key")
    case None
    with Cons show ?thesis by simp
  next
    case (Some v)
    show ?thesis
    proof (cases v)
      case None
      from del_law [OF Cons.prems, of key] obtain s' where
        "del s key = Some (None, s')" "rep s' (m(key := None))" by blast
      with Cons.IH [OF this(2)] Some None show ?thesis by (simp add: firstError_def del: fun_upd_apply)
    next
      case (Some w)
      from put_law [OF Cons.prems, of key w] obtain s' where
        "put s key w = Some (None, s')" "rep s' (mapUpdate m key w)" by blast
      with Cons.IH [OF this(2)] \<open>map_of dirty key = Some v\<close> Some show ?thesis by (simp add: firstError_def)
    qed
  qed
qed simp

end

section \<open>Finalising\<close>

definition named :: "AccountDB \<Rightarrow> bool" where
  "named adb \<longleftrightarrow> (\<forall>a so. accountObjects adb a = Some so \<longrightarrow> address so = a)"

lemma updateRoot_simps [simp]:
  "address (updateRoot db keys so) = address so"
  "Nonce (data (updateRoot db keys so)) = Nonce (data so)"
  "Balance (data (updateRoot db keys so)) = Balance (data so)"
  "CodeHash (data (updateRoot db keys so)) = CodeHash (data so)"
  "Root (data (updateRoot db keys so)) = TrieHash db (fst (flushKeys keys (trieOf db so) (dirtyStorage so)))"
proof -
  obtain tr so1 where g: "getTrie db so = (tr, so1)" by force
  have eq: "tr = trieOf db so" "dirtyStorage so1 = dirtyStorage so" "data so1 = data so" "address so1 = address so"
    using getTrie_simps [of db so] by (simp_all add: g)
  obtain tr' d' where f: "flushKeys keys tr (dirtyStorage so) = (tr', d')" by force
  show "address (updateRoot db keys so) = address so"
    "Nonce (data (updateRoot db keys so)) = Nonce (data so)"
    "Balance (data (updateRoot db keys so)) = Balance (data so)"
    "CodeHash (data (updateRoot db keys so)) = CodeHash (data so)"
    "Root (data (updateRoot db keys so)) = TrieHash db (fst (flushKeys keys (trieOf db so) (dirtyStorage so)))"
    using f by (simp_all add: updateRoot_def updateTrie_def g eq)
qed

lemma finaliseOne_other:
  assumes "named adb" and "b \<noteq> a"
  shows "accountObjects (finaliseOne db del keysOf b adb) a = accountObjects adb a"
    and "adbTrie (finaliseOne db del keysOf b adb) a = adbTrie adb a"
    and "named (finaliseOne db del keysOf b adb)"
  using assms
  by (auto simp: finaliseOne_def writeBack_def deleteAccountObject_def updateAccountObject_def mapUpdate_def named_def
    Let_def split: option.splits if_splits)

lemma finaliseOne_named: "named adb \<Longrightarrow> named (finaliseOne db del keysOf b adb)"
  by (auto simp: finaliseOne_def writeBack_def deleteAccountObject_def updateAccountObject_def named_def
    Let_def split: option.splits if_splits)

lemma fold_finalise_other:
  "named adb \<Longrightarrow> a \<notin> set order \<Longrightarrow>
   accountObjects (fold (finaliseOne db del keysOf) order adb) a = accountObjects adb a \<and>
   adbTrie (fold (finaliseOne db del keysOf) order adb) a = adbTrie adb a"
proof (induction order arbitrary: adb)
  case (Cons b order)
  with finaliseOne_other [OF Cons.prems(1), of b a db del keysOf] show ?case by auto
qed simp

lemma fold_finalise_named: "named adb \<Longrightarrow> named (fold (finaliseOne db del keysOf) order adb)"
  by (induction order arbitrary: adb) (auto intro: finaliseOne_named)

text \<open>In the end the account trie holds, for a visited address, what its round of the loop wrote.\<close>

lemma Finalise_trie:
  assumes "named adb" and "distinct order" and "a \<in> set order" and "accountObjects adb a = Some so"
  shows "adbTrie (Finalise db del keysOf order adb) a =
    (if suicided so \<or> (del \<and> ao_empty db so) then None
     else trieValue (Some (EncodeAccount db (data (updateRoot db (keysOf a) so)))))"
proof -
  from assms(3) obtain xs ys where o: "order = xs @ a # ys" by (auto simp: in_set_conv_decomp)
  with assms(2) have xy: "a \<notin> set xs" "a \<notin> set ys" by auto
  define mid where "mid = fold (finaliseOne db del keysOf) xs adb"
  have mid: "named mid" "accountObjects mid a = Some so"
    using fold_finalise_other [OF assms(1) xy(1)] fold_finalise_named [OF assms(1)] assms(4) by (auto simp: mid_def)
  have so: "address so = a" using mid by (simp add: named_def)
  have "adbTrie (Finalise db del keysOf order adb) a = adbTrie (finaliseOne db del keysOf a mid) a"
    using fold_finalise_other [OF finaliseOne_named [OF mid(1)] xy(2)]
    by (simp add: Finalise_def clearJournalAndRefund_def o mid_def)
  also have "\<dots> = (if suicided so \<or> (del \<and> ao_empty db so) then None
     else trieValue (Some (EncodeAccount db (data (updateRoot db (keysOf a) so)))))"
    using mid so
    by (auto simp: finaliseOne_def writeBack_def deleteAccountObject_def updateAccountObject_def mapUpdate_def Let_def)
  finally show ?thesis .
qed

text \<open>A new account database over the finalised account trie.\<close>

definition reopen :: "AccountDB \<Rightarrow> AccountDB" where
  "reopen adb = \<lparr>adbTrie = adbTrie adb, accountObjects = (\<lambda>_. None), accountObjectsDirty = {}, adbErr = None,
     refund = 0, transitions = [], validRevisions = [], nextRevisionID = 0\<rparr>"

text \<open>What the storage of an object is once flushed: its visible slots.\<close>

lemma flush_visible:
  assumes "coherent db so" and "dom (map_of (dirtyStorage so)) \<subseteq> set keys"
    and "\<And>k. trieOf db so k \<noteq> Some []"
  shows "fst (flushKeys keys (trieOf db so) (dirtyStorage so)) = (\<lambda>k. trieValue (dataOf db so k))"
proof (rule ext)
  fix k
  have tv: "trieValue (trieOf db so k) = trieOf db so k" using assms(3) [of k] by (cases "trieOf db so k") auto
  show "fst (flushKeys keys (trieOf db so) (dirtyStorage so)) k = trieValue (dataOf db so k)"
  proof (cases "map_of (dirtyStorage so) k")
    case None
    then have "dataOf db so k = trieOf db so k"
      using assms(1) by (auto simp: dataOf_def coherent_def split: option.splits)
    with None tv show ?thesis by (simp add: flushKeys_trie)
  next
    case (Some v)
    then have "map_of (cachedStorage so) k = Some v" "k \<in> set keys" using assms(1,2) by (auto simp: coherent_def)
    with Some show ?thesis by (simp add: flushKeys_trie dataOf_def)
  qed
qed

section \<open>Balances\<close>

text \<open>
  The contract of balances that transfers rest on: adding and subtracting changes one balance.
\<close>

locale balance_store =
  fixes ok :: "'s \<Rightarrow> bool"
    and bal :: "'s \<Rightarrow> address \<Rightarrow> int"
    and add :: "'s \<Rightarrow> address \<Rightarrow> int \<Rightarrow> 's"
    and sub :: "'s \<Rightarrow> address \<Rightarrow> int \<Rightarrow> 's"
  assumes ok_add: "ok s \<Longrightarrow> ok (add s a n)"
    and ok_sub: "ok s \<Longrightarrow> ok (sub s a n)"
    and bal_add: "ok s \<Longrightarrow> bal (add s a n) b = bal s b + (if b = a then n else 0)"
    and bal_sub: "ok s \<Longrightarrow> bal (sub s a n) b = bal s b - (if b = a then n else 0)"
begin

lemma moved:
  "ok s \<Longrightarrow> bal (add (sub s a n) b n) c = bal s c - (if c = a then n else 0) + (if c = b then n else 0)"
  by (simp add: bal_add bal_sub ok_sub)

lemma total_kept:
  assumes "ok s" and "finite A" and "a \<in> A" and "b \<in> A"
  shows "(\<Sum>c \<in> A. bal (add (sub s a n) b n) c) = (\<Sum>c \<in> A. bal s c)"
proof -
  have "(\<Sum>c \<in> A. bal (add (sub s a n) b n) c) =
      (\<Sum>c \<in> A. bal s c) - (\<Sum>c \<in> A. if c = a then n else 0) + (\<Sum>c \<in> A. if c = b then n else 0)"
    by (simp add: moved [OF assms(1)] sum.distrib sum_subtractf)
  then show ?thesis using assms by simp
qed

end

definition balanceOf :: "accountDatabase \<Rightarrow> AccountDB \<Rightarrow> address \<Rightarrow> int" where
  "balanceOf db adb a = fst (GetBalance db adb a)"

lemma balanceOf_abs:
  "adbOk db (transitions adb) adb \<Longrightarrow>
   balanceOf db adb a = (case accts (absState db adb) a of Some x \<Rightarrow> aBalance x | None \<Rightarrow> 0)"
  using GetBalance_step [of db adb a] by (simp add: balanceOf_def)

lemma zeroView_balance [simp]: "aBalance (zeroView db) = 0"
  by (simp add: zeroView_def viewObj_def newAccountObject_def zeroAccount_def)

interpretation ab: balance_store "\<lambda>adb. adbOk db (transitions adb) adb" "balanceOf db" "AddBalance db" "SubBalance db" for db
proof
  fix s :: AccountDB and a b :: address and n :: int
  assume ok: "adbOk db (transitions s) s"
  have add: "dbStep db s (AddBalance db s a n) (aOn db (absState db s) a (\<lambda>x. x\<lparr>aBalance := aBalance x + n\<rparr>))"
    unfolding AddBalance_def by (rule onObject_step [OF ok AddBalance_objStep])
  have sub: "dbStep db s (SubBalance db s a n) (aOn db (absState db s) a (\<lambda>x. x\<lparr>aBalance := aBalance x - n\<rparr>))"
    unfolding SubBalance_def by (rule onObject_step [OF ok SubBalance_objStep])
  note a = dbStep_ok [OF add] and b = dbStep_ok [OF sub]
  from a show "adbOk db (transitions (AddBalance db s a n)) (AddBalance db s a n)" by simp
  from b show "adbOk db (transitions (SubBalance db s a n)) (SubBalance db s a n)" by simp
  show "balanceOf db (AddBalance db s a n) b = balanceOf db s b + (if b = a then n else 0)"
    using a balanceOf_abs [OF ok] balanceOf_abs [of db "AddBalance db s a n"]
    by (auto simp: aOn_def split: option.splits)
  show "balanceOf db (SubBalance db s a n) b = balanceOf db s b - (if b = a then n else 0)"
    using b balanceOf_abs [OF ok] balanceOf_abs [of db "SubBalance db s a n"]
    by (auto simp: aOn_def split: option.splits)
qed

section \<open>Properties\<close>

text \<open>
  (C18) A transfer moves coins and creates none: over any finite set of accounts that holds
  sender and recipient, the sum of the balances after \<open>Transfer\<close> is the sum before, also when
  they are the same account and when an account did not exist.
\<close>

theorem Transfer_keeps_total:
  assumes "adbOk db (transitions adb) adb" and "finite A" and "x \<in> A" and "y \<in> A"
  shows "(\<Sum>c \<in> A. balanceOf db (Transfer db adb x y amount) c) = (\<Sum>c \<in> A. balanceOf db adb c)"
  using ab.total_kept [OF assms] by (simp add: Transfer_def)

lemma example_adbOk: "adbOk exampleDb (transitions exampleAdb) exampleAdb"
  using fresh_sim [OF example_ok] by (simp add: simCopies_def)

theorem Transfer_keeps_total_witness:
  "(\<Sum>c \<in> {[1], [2]}. balanceOf exampleDb (Transfer exampleDb exampleAdb [1] [2] 7) c) =
   (\<Sum>c \<in> {[1], [2]}. balanceOf exampleDb exampleAdb c)"
  by (rule Transfer_keeps_total [OF example_adbOk]) simp_all

text \<open>
  (C19) The order in which \<open>updateTrie\<close> visits the dirty slots, which Go leaves open, does not
  matter: the flush succeeds, keeps a remembered error, empties the visited slots, and leaves a
  trie whose canonical shape is the same for every order.
\<close>

theorem storage_flush_order_irrelevant:
  assumes "represents ndb t m" and "set keys = set keys'"
  shows "\<exists>t1 d1 t2 d2. flushStore (TryUpdate ndb) (TryDelete ndb) keys t dirty err = Some (t1, d1, err) \<and>
    flushStore (TryUpdate ndb) (TryDelete ndb) keys' t dirty err = Some (t2, d2, err) \<and>
    (\<forall>k \<in> set keys. map_of d1 k = None \<and> map_of d2 k = None) \<and>
    (\<exists>!p. contents p (fst (flushKeys keys m dirty)) \<and>
      expands ndb (cachegen t1) (root t1) p \<and> expands ndb (cachegen t2) (root t2) p)"
proof -
  from ts.flush_law [OF assms(1), of keys dirty err] obtain t1 where
    t1: "flushStore (TryUpdate ndb) (TryDelete ndb) keys t dirty err = Some (t1, snd (flushKeys keys m dirty), err)"
      "represents ndb t1 (fst (flushKeys keys m dirty))" by blast
  from ts.flush_law [OF assms(1), of keys' dirty err] obtain t2 where
    t2: "flushStore (TryUpdate ndb) (TryDelete ndb) keys' t dirty err = Some (t2, snd (flushKeys keys' m dirty), err)"
      "represents ndb t2 (fst (flushKeys keys m dirty))" using flushKeys_set [OF assms(2)] by auto
  from t1(2) t2(2) contents_unique have "\<exists>!p. contents p (fst (flushKeys keys m dirty)) \<and>
      expands ndb (cachegen t1) (root t1) p \<and> expands ndb (cachegen t2) (root t2) p"
    unfolding represents_def by metis
  with t1(1) t2(1) assms(2) show ?thesis by (auto simp: flushKeys_dirty)
qed

theorem storage_flush_order_irrelevant_witness:
  "\<exists>t1 d1 t2 d2.
     flushStore (TryUpdate oneEntryDb) (TryDelete oneEntryDb) [[1], [2]] oneEntryTrie [([1], None), ([2], Some [5])] None = Some (t1, d1, None) \<and>
     flushStore (TryUpdate oneEntryDb) (TryDelete oneEntryDb) [[2], [1]] oneEntryTrie [([1], None), ([2], Some [5])] None = Some (t2, d2, None) \<and>
     (\<exists>p. expands oneEntryDb (cachegen t1) (root t1) p \<and> expands oneEntryDb (cachegen t2) (root t2) p)"
proof -
  have "set [[1], [2] :: bytes] = set [[2], [1]]" by auto
  from storage_flush_order_irrelevant [OF oneEntry_represents this, of "[([1], None), ([2], Some [5])]" None]
  show ?thesis by blast
qed


text \<open>An account database that can hold one kind of account: five coins at nonce 0.\<close>

definition fiveCoins :: Account where
  "fiveCoins = \<lparr>Nonce = 0, Balance = 5, Root = replicate 32 0, CodeHash = replicate 32 0\<rparr>"

definition fiveDb :: accountDatabase where
  "fiveDb = exampleDb\<lparr>DecodeAccount := (\<lambda>_. Some fiveCoins)\<rparr>"

definition fiveAdb :: AccountDB where
  "fiveAdb = AddBalance fiveDb exampleAdb [1] 5"

lemmas account_eval = AddBalance_def onObject_def getOrNewAccountObject_def getAccountObject_def createObject_def
  getAccountObjectFromTrie_def ao_setNonce_def callOnDirty_def newAccountObject_def appendTransition_def
  setAccountObject_def MarkAccountObjectDirty_def zeroAccount_def writeBack_def ao_AddBalance_def ao_SetBalance_def
  ao_setBalance_def Let_def

lemma fiveAdb_object:
  "\<exists>so. accountObjects fiveAdb [1] = Some so \<and> dirtyStorage so = [] \<and> cachedStorage so = [] \<and> aoTrie so = None \<and>
    \<not> suicided so \<and> data so = fiveCoins"
  by (simp add: fiveAdb_def account_eval exampleAdb_def fiveDb_def exampleDb_def fiveCoins_def emptyCodeHash_def)

lemma five_ok: "adbOk fiveDb (transitions fiveAdb) fiveAdb"
proof -
  have "dbOk fiveDb exampleAdb"
    by (simp add: dbOk_def fiveDb_def exampleDb_def exampleAdb_def getAccountObjectFromTrie_def fixed32_def)
  then have "adbOk fiveDb (transitions exampleAdb) exampleAdb"
    using fresh_sim [of fiveDb exampleAdb] example_ok(2) by (simp add: simCopies_def)
  then show ?thesis unfolding fiveAdb_def by (rule ab.ok_add)
qed




text \<open>
  A lost update. Let an account be stored in the trie, empty but for its existence (nonce
  and balance zero, no code). If zero coins are added to it and that is reverted, the account is
  taken off the dirty set while its object keeps believing it is on it; coins added afterwards
  are visible but the address is not dirty, so \<open>Finalise\<close> does not visit it.
\<close>

theorem touch_then_revert_loses_updates:
  assumes "freshDB adb" and "accountObjectsDirty adb = {}" and "a \<noteq> ripemd"
    and "getAccountObjectFromTrie db adb a = Some so"
    and "Nonce (data so) = 0" and "Balance (data so) = 0" and "CodeHash (data so) = emptyCodeHash db" and "n \<noteq> 0"
  shows "\<exists>adb'. runOps (exec db) [OpSnapshot, OpAddBalance a 0, OpRevert (nextRevisionID adb), OpAddBalance a n] adb = Some adb' \<and>
    fst (GetBalance db adb' a) = n \<and> accountObjectsDirty adb' = {}"
proof -
  have so: "address so = a" "\<not> deleted so" "cachedStorage so = []" "onDirty so" "\<not> touched so"
    using assms(4) by (auto simp: getAccountObjectFromTrie_def newAccountObject_def split: option.splits if_splits)
  have search: "goSearch (\<lambda>i. k \<le> revId ([\<lparr>revId = k, journalIndex = 0\<rparr>] ! i)) 0 (Suc 0) = 0" for k
    by (simp add: goSearch.simps)
  show ?thesis
    using assms so
    by (simp add: freshDB_def Snapshot_def account_eval ao_empty_def touch_def RevertToSnapshot_def search undoOn_def
      GetBalance_def)
qed

definition zeroDb :: accountDatabase where
  "zeroDb = exampleDb\<lparr>DecodeAccount := (\<lambda>_. Some (zeroAccount exampleDb))\<rparr>"

definition zeroAdb :: AccountDB where
  "zeroAdb = exampleAdb\<lparr>adbTrie := (\<lambda>_. Some [1])\<rparr>"

theorem touch_then_revert_loses_updates_witness:
  "\<exists>adb'. runOps (exec zeroDb) [OpSnapshot, OpAddBalance [1] 0, OpRevert 0, OpAddBalance [1] 5] zeroAdb = Some adb' \<and>
    fst (GetBalance zeroDb adb' [1]) = 5 \<and> accountObjectsDirty adb' = {}"
proof -
  have "getAccountObjectFromTrie zeroDb zeroAdb [1] = Some (newAccountObject zeroDb [1] (zeroAccount exampleDb))"
    by (simp add: getAccountObjectFromTrie_def zeroAdb_def zeroDb_def exampleDb_def)
  moreover have "fixed32 ripemd" by (simp add: ripemd_def numAddress_def)
  then have "[1] \<noteq> ripemd" by (auto simp: fixed32_def dest: arg_cong [of _ _ length])
  moreover have "freshDB zeroAdb" "accountObjectsDirty zeroAdb = {}" "nextRevisionID zeroAdb = 0"
    by (simp_all add: freshDB_def zeroAdb_def exampleAdb_def)
  ultimately show ?thesis using touch_then_revert_loses_updates [of zeroAdb "[1]" zeroDb _ 5]
    by (simp add: newAccountObject_def zeroAccount_def emptyCodeHash_def zeroDb_def del: runOps.simps)
qed

end
