(* ===== verification/Core_State.thy ===== *)
theory Core_State
  imports Common
begin

text \<open>
  The account state as the packages above \<^verbatim>\<open>src/storage\<close> use it, through the interface
  \<^verbatim>\<open>types.AccountDB\<close> (\<^verbatim>\<open>src/middleware/types/vminterface.go\<close>): balances, nonces, code and one
  key-value store per address. The theory World_Refine shows that the account database implements
  it, snapshots included. A Go function that can panic has type \<open>'a option\<close> (\<open>None\<close> is the
  panic), one that returns an error has a sum type with the error on the left.
\<close>

section \<open>The state behind the interface\<close>

text \<open>
  Every write creates the account it goes to when it is missing. The code hash of an account without
  code is that of the empty code, also in the entries of accounts that do not exist; reading it for
  one of those gives the zero hash.
\<close>

record world =
  wBalance :: "address \<Rightarrow> bigint"
  wNonce :: "address \<Rightarrow> u64"
  wCodeHash :: "address \<Rightarrow> hash"
  wCode :: "address \<Rightarrow> bytes option"
  wData :: "address \<Rightarrow> bytes \<Rightarrow> bytes option"
  wExists :: "address \<Rightarrow> bool"

definition w_GetBalance :: "world \<Rightarrow> address \<Rightarrow> bigint" where
  "w_GetBalance w a = wBalance w a"

definition w_AddBalance :: "world \<Rightarrow> address \<Rightarrow> bigint \<Rightarrow> world" where
  "w_AddBalance w a n = w\<lparr>wBalance := (wBalance w)(a := wBalance w a + n), wExists := (wExists w)(a := True)\<rparr>"

definition w_SubBalance :: "world \<Rightarrow> address \<Rightarrow> bigint \<Rightarrow> world" where
  "w_SubBalance w a n = w\<lparr>wBalance := (wBalance w)(a := wBalance w a - n), wExists := (wExists w)(a := True)\<rparr>"

definition w_CanTransfer :: "world \<Rightarrow> address \<Rightarrow> bigint \<Rightarrow> bool" where
  "w_CanTransfer w a n \<longleftrightarrow> (if n < 0 then False else w_GetBalance w a \<ge> n)"

definition w_Transfer :: "world \<Rightarrow> address \<Rightarrow> address \<Rightarrow> bigint \<Rightarrow> world" where
  "w_Transfer w sender recipient n =
    (if n \<le> 0 then w else w_AddBalance (w_SubBalance w sender n) recipient n)"

definition w_GetNonce :: "world \<Rightarrow> address \<Rightarrow> u64" where
  "w_GetNonce w a = wNonce w a"

definition w_SetNonce :: "world \<Rightarrow> address \<Rightarrow> u64 \<Rightarrow> world" where
  "w_SetNonce w a n = w\<lparr>wNonce := (wNonce w)(a := n), wExists := (wExists w)(a := True)\<rparr>"

definition w_GetData :: "world \<Rightarrow> address \<Rightarrow> bytes \<Rightarrow> bytes option" where
  "w_GetData w a k = wData w a k"

definition w_SetData :: "world \<Rightarrow> address \<Rightarrow> bytes \<Rightarrow> bytes option \<Rightarrow> world" where
  "w_SetData w a k v = w\<lparr>wData := (wData w)(a := (wData w a)(k := v)), wExists := (wExists w)(a := True)\<rparr>"

definition w_RemoveData :: "world \<Rightarrow> address \<Rightarrow> bytes \<Rightarrow> world" where
  "w_RemoveData w a k = w_SetData w a k None"

definition w_SetCode :: "hash \<Rightarrow> world \<Rightarrow> address \<Rightarrow> bytes \<Rightarrow> world" where
  "w_SetCode h w a c = w\<lparr>wCodeHash := (wCodeHash w)(a := h), wCode := (wCode w)(a := Some c), wExists := (wExists w)(a := True)\<rparr>"

definition w_GetCodeHash :: "world \<Rightarrow> address \<Rightarrow> hash" where
  "w_GetCodeHash w a = (if wExists w a then wCodeHash w a else replicate 32 0)"

lemma w_GetData_SetData [simp]:
  "w_GetData (w_SetData w a k v) b j = (if a = b \<and> k = j then v else w_GetData w b j)"
  by (auto simp: w_GetData_def w_SetData_def)

lemma w_GetData_RemoveData [simp]:
  "w_GetData (w_RemoveData w a k) b j = (if a = b \<and> k = j then None else w_GetData w b j)"
  by (simp add: w_RemoveData_def)

lemma w_GetData_balance [simp]:
  "w_GetData (w_AddBalance w a n) = w_GetData w" "w_GetData (w_SubBalance w a n) = w_GetData w"
  "w_GetData (w_Transfer w a b n) = w_GetData w" "w_GetData (w_SetNonce w a m) = w_GetData w"
  by (auto simp: w_GetData_def w_AddBalance_def w_SubBalance_def w_Transfer_def w_SetNonce_def fun_eq_iff)

lemma wBalance_SetData [simp]:
  "wBalance (w_SetData w a k v) = wBalance w" "wBalance (w_RemoveData w a k) = wBalance w"
  "wBalance (w_SetNonce w a m) = wBalance w"
  by (simp_all add: w_SetData_def w_RemoveData_def w_SetNonce_def)

lemma wNonce_updates [simp]:
  "wNonce (w_SetData w a k v) = wNonce w" "wNonce (w_RemoveData w a k) = wNonce w"
  "wNonce (w_AddBalance w a n) = wNonce w" "wNonce (w_SubBalance w a n) = wNonce w"
  "wNonce (w_Transfer w a b n) = wNonce w"
  by (simp_all add: w_SetData_def w_RemoveData_def w_AddBalance_def w_SubBalance_def w_Transfer_def)

lemma wBalance_AddBalance [simp]:
  "wBalance (w_AddBalance w a n) = (wBalance w)(a := wBalance w a + n)"
  "wBalance (w_SubBalance w a n) = (wBalance w)(a := wBalance w a - n)"
  by (simp_all add: w_AddBalance_def w_SubBalance_def)

lemma wExists_updates [simp]:
  "wExists (w_SetData w a k v) = (wExists w)(a := True)" "wExists (w_RemoveData w a k) = (wExists w)(a := True)"
  "wExists (w_AddBalance w a n) = (wExists w)(a := True)" "wExists (w_SubBalance w a n) = (wExists w)(a := True)"
  "wExists (w_SetNonce w a m) = (wExists w)(a := True)" "wExists (w_SetCode h w a c) = (wExists w)(a := True)"
  by (simp_all add: w_SetData_def w_RemoveData_def w_AddBalance_def w_SubBalance_def w_SetNonce_def w_SetCode_def)

lemma wCodeHash_updates [simp]:
  "wCodeHash (w_SetData w a k v) = wCodeHash w" "wCodeHash (w_RemoveData w a k) = wCodeHash w"
  "wCodeHash (w_AddBalance w a n) = wCodeHash w" "wCodeHash (w_SubBalance w a n) = wCodeHash w"
  "wCodeHash (w_Transfer w a b n) = wCodeHash w" "wCodeHash (w_SetNonce w a m) = wCodeHash w"
  by (simp_all add: w_SetData_def w_RemoveData_def w_AddBalance_def w_SubBalance_def w_Transfer_def w_SetNonce_def)

section \<open>The value of a world\<close>

text \<open>The coins of a finite set of accounts.\<close>

definition coins :: "address set \<Rightarrow> world \<Rightarrow> bigint" where
  "coins A w = (\<Sum>a\<in>A. wBalance w a)"

lemma coins_update:
  assumes "finite A" and "a \<in> A"
  shows "(\<Sum>x\<in>A. ((f :: address \<Rightarrow> int)(a := f a + n)) x) = (\<Sum>x\<in>A. f x) + n"
  using assms by (simp add: sum.remove [of A a])

lemma coins_AddBalance: "finite A \<Longrightarrow> a \<in> A \<Longrightarrow> coins A (w_AddBalance w a n) = coins A w + n"
  unfolding coins_def wBalance_AddBalance by (rule coins_update)

lemma coins_SubBalance: "finite A \<Longrightarrow> a \<in> A \<Longrightarrow> coins A (w_SubBalance w a n) = coins A w - n"
  unfolding coins_def wBalance_AddBalance using coins_update [of A a "wBalance w" "- n"] by simp

lemma coins_SetData [simp]:
  "coins A (w_SetData w a k v) = coins A w" "coins A (w_RemoveData w a k) = coins A w"
  "coins A (w_SetNonce w a m) = coins A w"
  by (simp_all add: coins_def)

lemmas coin_simps = coins_AddBalance coins_SubBalance

lemma coins_Transfer:
  "finite A \<Longrightarrow> a \<in> A \<Longrightarrow> b \<in> A \<Longrightarrow> coins A (w_Transfer w a b n) = coins A w"
  by (simp add: w_Transfer_def coin_simps)

section \<open>Results of operations\<close>

datatype ReceiptStatus =
    RSSuccess
  | RSFail
  | RSBalanceNotEnough
  | RSAbiError
  | RSTvmError
  | RSGasNotEnoughError
  | RSNoCodeError
  | RSParseFail
  | RSMinerStakeFrozen
  | RSMinerStakeOverLimit
  | RSMinerStakeLessThanReduce
  | RSMinerVerifyLowerStake
  | RSMinerVerifyInGroup
  | RSMinerReduceHeightNotEnough
  | RSVoteNotInRound
  | RSMinerUnSupportOp
  | RSMinerNotFullStake
  | RSMinerMaxApplyGuard
  | RSMinerChangeModeExpired
  | RSMinerAbortHasPrepared
  | RSMinerRefundHeightNotEnougn
  | RSMinerNotExists

type_synonym error = string

text \<open>
  The pair \<^verbatim>\<open>(error, types.ReceiptStatus)\<close> with the state the operation leaves behind; the
  error is \<open>None\<close> on success. \<open>andThen\<close> is the early return on an error.
\<close>

type_synonym outcome = "(error \<times> ReceiptStatus) option \<times> world"

definition fails :: "error \<Rightarrow> ReceiptStatus \<Rightarrow> world \<Rightarrow> outcome option" where
  "fails e rs w = Some (Some (e, rs), w)"

definition succeeds :: "world \<Rightarrow> outcome option" where
  "succeeds w = Some (None, w)"

definition andThen :: "outcome option \<Rightarrow> (world \<Rightarrow> outcome option) \<Rightarrow> outcome option" where
  "andThen r k =
    (case r of
       None \<Rightarrow> None
     | Some (Some e, w) \<Rightarrow> Some (Some e, w)
     | Some (None, w) \<Rightarrow> k w)"

lemma outcome_simps [simp]:
  "andThen (fails e rs w) k = fails e rs w"
  "andThen (succeeds w) k = k w"
  "andThen None k = None"
  by (simp_all add: andThen_def fails_def succeeds_def)

lemma outcome_eq [simp]:
  "fails e rs w = Some (err, w') \<longleftrightarrow> err = Some (e, rs) \<and> w' = w"
  "succeeds w = Some (err, w') \<longleftrightarrow> err = None \<and> w' = w"
  by (auto simp: fails_def succeeds_def)

lemma andThen_success [simp]:
  "andThen r k = Some (None, w') \<longleftrightarrow> (\<exists>w. r = Some (None, w) \<and> k w = Some (None, w'))"
  by (auto simp: andThen_def split: option.splits prod.splits)

lemma andThen_panic: "andThen r k = None \<longleftrightarrow> r = None \<or> (\<exists>w. r = Some (None, w) \<and> k w = None)"
  by (auto simp: andThen_def split: option.splits prod.splits)

section \<open>Paying\<close>

definition needTransfer :: "bigint \<Rightarrow> bool" where
  "needTransfer amount \<longleftrightarrow> \<not> amount \<le> 0"

definition transfer :: "world \<Rightarrow> address \<Rightarrow> address \<Rightarrow> bigint \<Rightarrow> bool \<times> world" where
  "transfer w source target amount =
    (if \<not> needTransfer amount then (True, w)
     else if w_CanTransfer w source amount then (True, w_Transfer w source target amount)
     else (False, w))"

definition reduceBalance :: "world \<Rightarrow> address \<Rightarrow> u64 \<Rightarrow> error + world" where
  "reduceBalance w target value1 =
    (let amount = uint value1
     in if needTransfer amount then
          (if \<not> w_CanTransfer w target amount then Inl ''balance not enough''
           else Inr (w_SubBalance w target amount))
        else Inr w)"

lemma reduceBalance_Inr:
  "reduceBalance w a v = Inr w' \<Longrightarrow> w_GetData w' = w_GetData w \<and> wBalance w' = (wBalance w)(a := wBalance w a - uint v) \<and>
    (uint v \<le> wBalance w a \<or> v = 0)"
  by (auto simp: reduceBalance_def needTransfer_def Let_def w_CanTransfer_def w_GetBalance_def
      uint_0_iff word_le_def split: if_splits)

end
