(* ===== verification/Miner.thy ===== *)
theory Miner
  imports Core_State
begin

text \<open>
  The miner records (\<^verbatim>\<open>src/middleware/types/miner.go\<close>) and the functions of
  \<^verbatim>\<open>src/core/miner_base.go\<close> that read and write them in the account state: stake bounds by
  height, storage keys, typed storage, pools, tickets and the total proposal stake. The msgpack
  library, the group manager's live-group test and the stake platform's address are fields of an
  environment record.
\<close>

section \<open>Miner records\<close>

type_synonym MinerType = byte
type_synonym MinerStatus = byte
type_synonym NodeIdentity = byte
type_synonym StakeStatus = byte
type_synonym FundGuardType = byte
type_synonym FundModeType = byte

definition MinerTypeVerify :: MinerType where "MinerTypeVerify = 0"
definition MinerTypeProposal :: MinerType where "MinerTypeProposal = 1"

definition MinerStatusPrepare :: MinerStatus where "MinerStatusPrepare = 0"
definition MinerStatusActive :: MinerStatus where "MinerStatusActive = 1"
definition MinerStatusFrozen :: MinerStatus where "MinerStatusFrozen = 2"

definition MinerNormal :: NodeIdentity where "MinerNormal = 0"
definition MinerGuard :: NodeIdentity where "MinerGuard = 1"
definition MinerPool :: NodeIdentity where "MinerPool = 2"
definition InValidMinerPool :: NodeIdentity where "InValidMinerPool = 3"

definition Staked :: StakeStatus where "Staked = 0"
definition StakeFrozen :: StakeStatus where "StakeFrozen = 1"
definition StakePunishment :: StakeStatus where "StakePunishment = 2"

definition normalNodeType :: FundGuardType where "normalNodeType = 0"
definition fullStakeGuardNodeType :: FundGuardType where "fullStakeGuardNodeType = 1"
definition fundGuardNodeType :: FundGuardType where "fundGuardNodeType = 2"

definition SIXAddFive :: FundModeType where "SIXAddFive = 0"
definition SIXAddSix :: FundModeType where "SIXAddSix = 1"

definition pkSize :: nat where "pkSize = 128"
definition vrfPkSize :: nat where "vrfPkSize = 32"

lemmas miner_consts = MinerTypeVerify_def MinerTypeProposal_def MinerStatusPrepare_def
  MinerStatusActive_def MinerStatusFrozen_def MinerNormal_def MinerGuard_def MinerPool_def
  InValidMinerPool_def Staked_def StakeFrozen_def StakePunishment_def

record Miner =
  ID :: bytes
  PublicKey :: bytes
  VrfPublicKey :: bytes
  ApplyHeight :: u64
  Stake :: u64
  StatusUpdateHeight :: u64
  MType :: MinerType
  Status :: MinerStatus
  Identity :: NodeIdentity
  IdentityUpdateHeight :: u64

definition IsActive :: "Miner \<Rightarrow> bool" where "IsActive m \<longleftrightarrow> Status m = MinerStatusActive"
definition IsFrozen :: "Miner \<Rightarrow> bool" where "IsFrozen m \<longleftrightarrow> Status m = MinerStatusFrozen"
definition IsPrepare :: "Miner \<Rightarrow> bool" where "IsPrepare m \<longleftrightarrow> Status m = MinerStatusPrepare"
definition IsGuard :: "Miner \<Rightarrow> bool" where "IsGuard m \<longleftrightarrow> Identity m = MinerGuard"
definition IsMinerPool :: "Miner \<Rightarrow> bool" where "IsMinerPool m \<longleftrightarrow> Identity m = MinerPool"

definition IsProposalRole :: "MinerType \<Rightarrow> bool" where "IsProposalRole t \<longleftrightarrow> t = MinerTypeProposal"
definition IsVerifyRole :: "MinerType \<Rightarrow> bool" where "IsVerifyRole t \<longleftrightarrow> t = MinerTypeVerify"

definition PksCompleted :: "Miner \<Rightarrow> bool" where
  "PksCompleted m \<longleftrightarrow> length (PublicKey m) = pkSize \<and> length (VrfPublicKey m) = vrfPkSize"

definition UpdateStatus :: "MinerStatus \<Rightarrow> u64 \<Rightarrow> Miner \<Rightarrow> Miner" where
  "UpdateStatus status height m = m\<lparr>StatusUpdateHeight := height, Status := status\<rparr>"

definition UpdateIdentity :: "NodeIdentity \<Rightarrow> u64 \<Rightarrow> Miner \<Rightarrow> Miner" where
  "UpdateIdentity identity height m = m\<lparr>IdentityUpdateHeight := height, Identity := identity\<rparr>"

lemmas miner_status_defs = IsActive_def IsFrozen_def IsPrepare_def UpdateStatus_def UpdateIdentity_def

record MinerPks =
  pksMType :: MinerType
  Pk :: bytes
  VrfPk :: bytes

definition PayloadVersion :: byte where "PayloadVersion = 1"

definition EncodePayload :: "MinerPks \<Rightarrow> bytes" where
  "EncodePayload pks =
    [PayloadVersion, pksMType pks] @
    (if length (Pk pks) = pkSize \<and> length (VrfPk pks) = vrfPkSize then Pk pks @ VrfPk pks else [])"

definition DecodePayload :: "bytes \<Rightarrow> error + MinerPks" where
  "DecodePayload bs =
    (let totalLen = 2 + pkSize + vrfPkSize
     in if length bs \<noteq> 2 \<and> length bs \<noteq> totalLen then Inl ''length error''
        else if bs ! 0 \<noteq> PayloadVersion then Inl ''version error''
        else Inr (let pks = \<lparr>pksMType = bs ! 1, Pk = [], VrfPk = []\<rparr>
                  in if length bs = totalLen
                     then pks\<lparr>Pk := take pkSize (drop 2 bs), VrfPk := drop (2 + pkSize) bs\<rparr>
                     else pks))"

record stakeDetail =
  sdValue :: u64
  sdHeight :: u64
  DisMissHeight :: u64
  MarkNotFullHeight :: u64

record voteInfo =
  vTarget :: address
  vHeight :: u64

record fundGuardNode =
  fgType :: FundGuardType
  fgHeight :: u64
  fgModeType :: FundModeType

section \<open>The environment\<close>

text \<open>
  The msgpack library (\<^verbatim>\<open>Marshal\<close> may return an error, \<^verbatim>\<open>Unmarshal\<close> too), the filter of
  \<^verbatim>\<open>GroupManagerImpl.MinerJoinedLivedGroupCountFilter(1, height)\<close>, the stake platform's address
  and the fork heights of \<^verbatim>\<open>params.ChainConfig\<close>.
\<close>

record ChainConfig =
  ChainId :: u16
  ZIP001 :: u64
  ZIP002 :: u64
  ZIP003 :: u64
  ZIP004 :: u64
  ZIP005 :: u64
  ZIP006 :: u64

definition config :: ChainConfig where
  "config = \<lparr>ChainId = 0, ZIP001 = 931588, ZIP002 = 960388, ZIP003 = 4945537, ZIP004 = 7583800,
     ZIP005 = 10000000, ZIP006 = 9464382\<rparr>"

definition isFork :: "u64 \<Rightarrow> u64 \<Rightarrow> bool" where "isFork s head \<longleftrightarrow> s \<le> head"

definition IsZIP001 :: "ChainConfig \<Rightarrow> u64 \<Rightarrow> bool" where "IsZIP001 cfg h = isFork (ZIP001 cfg) h"
definition IsZIP002 :: "ChainConfig \<Rightarrow> u64 \<Rightarrow> bool" where "IsZIP002 cfg h = isFork (ZIP002 cfg) h"
definition IsZIP003 :: "ChainConfig \<Rightarrow> u64 \<Rightarrow> bool" where "IsZIP003 cfg h = isFork (ZIP003 cfg) h"
definition IsZIP004 :: "ChainConfig \<Rightarrow> u64 \<Rightarrow> bool" where "IsZIP004 cfg h = isFork (ZIP004 cfg) h"
definition IsZIP006 :: "ChainConfig \<Rightarrow> u64 \<Rightarrow> bool" where "IsZIP006 cfg h = isFork (ZIP006 cfg) h"

definition IsZIP005Checkpoint :: "ChainConfig \<Rightarrow> u64 \<Rightarrow> u64 \<Rightarrow> bool" where
  "IsZIP005Checkpoint cfg preHeight height \<longleftrightarrow> (if preHeight < ZIP005 cfg \<and> height \<ge> ZIP005 cfg then True else False)"

definition IsZIP006Checkpoint :: "ChainConfig \<Rightarrow> u64 \<Rightarrow> u64 \<Rightarrow> bool" where
  "IsZIP006Checkpoint cfg preHeight height \<longleftrightarrow> (if preHeight < ZIP006 cfg \<and> height \<ge> ZIP006 cfg then True else False)"

record menv =
  marshalMiner :: "Miner \<Rightarrow> bytes option"
  unmarshalMiner :: "bytes \<Rightarrow> Miner option"
  marshalDetail :: "stakeDetail \<Rightarrow> bytes option"
  unmarshalDetail :: "bytes \<Rightarrow> stakeDetail option"
  marshalVote :: "voteInfo \<Rightarrow> bytes option"
  unmarshalVote :: "bytes \<Rightarrow> voteInfo option"
  marshalGuard :: "fundGuardNode \<Rightarrow> bytes option"
  unmarshalGuard :: "bytes \<Rightarrow> fundGuardNode option"
  noLiveGroup :: "u64 \<Rightarrow> address \<Rightarrow> bool"
  StakePlatformAddr :: address

text \<open>
  What the code relies on: marshalling a value of the Go type succeeds, is never empty, and
  unmarshalling inverts it and only yields values of the Go type (a vote's target is a 32-byte
  array).
\<close>

definition codecLaw :: "('a \<Rightarrow> bool) \<Rightarrow> ('a \<Rightarrow> bytes option) \<Rightarrow> (bytes \<Rightarrow> 'a option) \<Rightarrow> bool" where
  "codecLaw typed enc dec \<longleftrightarrow>
    (\<forall>x. typed x \<longrightarrow> (\<exists>b. enc x = Some b \<and> b \<noteq> [] \<and> dec b = Some x)) \<and> (\<forall>b x. dec b = Some x \<longrightarrow> typed x)"

definition codecsOk :: "menv \<Rightarrow> bool" where
  "codecsOk E \<longleftrightarrow>
    codecLaw (\<lambda>_. True) (marshalMiner E) (unmarshalMiner E) \<and>
    codecLaw (\<lambda>_. True) (marshalDetail E) (unmarshalDetail E) \<and>
    codecLaw (\<lambda>v. fixed32 (vTarget v)) (marshalVote E) (unmarshalVote E) \<and>
    codecLaw (\<lambda>_. True) (marshalGuard E) (unmarshalGuard E)"

section \<open>Stake bounds by height\<close>

definition MinMinerStake :: u64 where "MinMinerStake = 500 * ZVC"
definition initMaxMinerStakeAddAmount :: u64 where "initMaxMinerStakeAddAmount = 1000000 * ZVC"
definition maxMinerStakeAddAdjustPeriod :: u64 where "maxMinerStakeAddAdjustPeriod = 30000000"
definition initMaxMinerStake :: u64 where "initMaxMinerStake = 2500000 * ZVC"
definition MaxMinerStakeAdjustPeriod :: u64 where "MaxMinerStakeAdjustPeriod = 10000000"
definition stakeAdjustTimes :: u64 where "stakeAdjustTimes = 12"
definition initMinerPoolTickets :: u64 where "initMinerPoolTickets = 8"
definition minMinerPoolTickets :: u64 where "minMinerPoolTickets = 1"
definition minerPoolReduceCount :: u64 where "minerPoolReduceCount = 2"
definition adjustWeightPeriod :: u64 where "adjustWeightPeriod = 10000000"

lemmas stake_consts = MinMinerStake_def initMaxMinerStakeAddAmount_def maxMinerStakeAddAdjustPeriod_def
  initMaxMinerStake_def MaxMinerStakeAdjustPeriod_def stakeAdjustTimes_def initMinerPoolTickets_def
  minMinerPoolTickets_def minerPoolReduceCount_def adjustWeightPeriod_def ZVC_def

definition minimumStake :: u64 where
  "minimumStake = MinMinerStake"

text \<open>A shift count is an unsigned number; shifting by the width or more gives zero.\<close>

fun canStakeLoop :: "nat \<Rightarrow> u64 \<Rightarrow> u64 \<Rightarrow> u64" where
  "canStakeLoop 0 i canStake = canStake"
| "canStakeLoop (Suc n) i canStake =
     canStakeLoop n (i + 1)
       (canStake + drop_bit (unat (i * MaxMinerStakeAdjustPeriod div maxMinerStakeAddAdjustPeriod)) initMaxMinerStakeAddAmount)"

definition maximumStake :: "u64 \<Rightarrow> u64" where
  "maximumStake height =
    (let period = (if height > stakeAdjustTimes * MaxMinerStakeAdjustPeriod then stakeAdjustTimes
                   else height div MaxMinerStakeAdjustPeriod)
     in canStakeLoop (unat period) 0 initMaxMinerStake)"

definition getValidTicketsByHeight :: "u64 \<Rightarrow> u64" where
  "getValidTicketsByHeight height =
    (let reduce = height div (adjustWeightPeriod * 3); reduceTickets = reduce * minerPoolReduceCount
     in if initMinerPoolTickets \<le> reduceTickets then minMinerPoolTickets
        else initMinerPoolTickets - reduceTickets)"

definition getFullMinerPoolStake :: "u64 \<Rightarrow> u64" where
  "getFullMinerPoolStake height = maximumStake height * getValidTicketsByHeight height"

definition checkUpperBound :: "Miner \<Rightarrow> u64 \<Rightarrow> bool" where
  "checkUpperBound m height \<longleftrightarrow> Stake m \<le> maximumStake height"

definition isFullStake :: "u64 \<Rightarrow> u64 \<Rightarrow> bool" where
  "isFullStake stake height \<longleftrightarrow> stake = maximumStake height"

definition checkMinerPoolUpperBound :: "Miner \<Rightarrow> u64 \<Rightarrow> bool" where
  "checkMinerPoolUpperBound m height \<longleftrightarrow> Stake m \<le> getFullMinerPoolStake height"

definition checkLowerBound :: "Miner \<Rightarrow> bool" where
  "checkLowerBound m \<longleftrightarrow> Stake m \<ge> minimumStake"

definition checkCanActivate :: "Miner \<Rightarrow> bool" where
  "checkCanActivate m \<longleftrightarrow> (if \<not> PksCompleted m then False else checkLowerBound m)"

definition checkCanVote :: "u64 \<Rightarrow> u64 \<Rightarrow> bool" where
  "checkCanVote voteHeight currentHeight \<longleftrightarrow>
    (if voteHeight = 0 then True
     else currentHeight div (adjustWeightPeriod div 2) > voteHeight div (adjustWeightPeriod div 2))"

definition isFullTickets :: "u64 \<Rightarrow> u64 \<Rightarrow> bool" where
  "isFullTickets totalTickets height \<longleftrightarrow> totalTickets \<ge> getValidTicketsByHeight height"

definition setPks :: "Miner \<Rightarrow> MinerPks \<Rightarrow> Miner" where
  "setPks m pks =
    (let m1 = (if Pk pks \<noteq> [] then m\<lparr>PublicKey := Pk pks\<rparr> else m)
     in if VrfPk pks \<noteq> [] then m1\<lparr>VrfPublicKey := VrfPk pks\<rparr> else m1)"

section \<open>Storage keys\<close>

definition getDetailKey :: "address \<Rightarrow> MinerType \<Rightarrow> StakeStatus \<Rightarrow> bytes" where
  "getDetailKey a t status = PrefixDetail @ a @ [t, status]"

text \<open>Each \<^verbatim>\<open>reader.Read\<close> must fill its buffer; a short key panics. Trailing bytes are ignored.\<close>

definition parseDetailKey :: "bytes \<Rightarrow> (address \<times> MinerType \<times> StakeStatus) option" where
  "parseDetailKey key =
    (if length key < length PrefixDetail + 34 then None
     else Some (BytesToAddress (take 32 (drop (length PrefixDetail) key)),
                key ! (length PrefixDetail + 32), key ! (length PrefixDetail + 33)))"

definition getMinerKey :: "MinerType \<Rightarrow> bytes" where
  "getMinerKey t = PrefixMiner @ [t]"

definition getPoolKey :: "bytes \<Rightarrow> address \<Rightarrow> bytes" where
  "getPoolKey prefix a = prefix @ a"

definition getFundGuardKey :: "bytes \<Rightarrow> address \<Rightarrow> bytes" where
  "getFundGuardKey prefix a = prefix @ a"

definition getTicketsKey :: "address \<Rightarrow> bytes" where
  "getTicketsKey a = KeyTickets @ a"

end
