(* ===== verification/Miner_Store.thy ===== *)
theory Miner_Store
  imports Miner
begin

text \<open>
  Typed access to the account state (\<^verbatim>\<open>src/core/miner_base.go\<close>): miners, stake details, votes and
  fund guard nodes under their keys, the pools of active miners, the total stake of the active
  proposers, and the tickets of miner pools.
\<close>

section \<open>Typed slots\<close>

text \<open>
  An absent or empty value is no record; a value that does not unmarshal is an error. A write that
  fails to marshal is an error that leaves the state alone.
\<close>

definition getMiner :: "menv \<Rightarrow> world \<Rightarrow> address \<Rightarrow> MinerType \<Rightarrow> error + Miner option" where
  "getMiner E w a t =
    (case w_GetData w a (getMinerKey t) of
       None \<Rightarrow> Inr None
     | Some d \<Rightarrow>
         if d = [] then Inr None
         else (case unmarshalMiner E d of None \<Rightarrow> Inl ''unmarshal miner'' | Some m \<Rightarrow> Inr (Some m)))"

definition setMiner :: "menv \<Rightarrow> world \<Rightarrow> Miner \<Rightarrow> error + world" where
  "setMiner E w m =
    (case marshalMiner E m of
       None \<Rightarrow> Inl ''marshal miner''
     | Some bs \<Rightarrow> Inr (w_SetData w (BytesToAddress (ID m)) (getMinerKey (MType m)) (Some bs)))"

definition parseDetail :: "menv \<Rightarrow> bytes \<Rightarrow> error + stakeDetail" where
  "parseDetail E v = (case unmarshalDetail E v of None \<Rightarrow> Inl ''unmarshal detail'' | Some d \<Rightarrow> Inr d)"

definition getDetail :: "menv \<Rightarrow> world \<Rightarrow> address \<Rightarrow> bytes \<Rightarrow> error + stakeDetail option" where
  "getDetail E w a detailKey =
    (case w_GetData w a detailKey of
       None \<Rightarrow> Inr None
     | Some d \<Rightarrow>
         if d = [] then Inr None
         else (case parseDetail E d of Inl e \<Rightarrow> Inl e | Inr sd \<Rightarrow> Inr (Some sd)))"

definition setDetail :: "menv \<Rightarrow> world \<Rightarrow> address \<Rightarrow> bytes \<Rightarrow> stakeDetail \<Rightarrow> error + world" where
  "setDetail E w a detailKey sd =
    (case marshalDetail E sd of
       None \<Rightarrow> Inl ''marshal detail''
     | Some bs \<Rightarrow> Inr (w_SetData w a detailKey (Some bs)))"

definition removeDetail :: "world \<Rightarrow> address \<Rightarrow> bytes \<Rightarrow> world" where
  "removeDetail w a detailKey = w_RemoveData w a detailKey"

text \<open>The vote and fund guard getters test for nil only.\<close>

definition getVoteInfo :: "menv \<Rightarrow> world \<Rightarrow> address \<Rightarrow> error + voteInfo option" where
  "getVoteInfo E w a =
    (case w_GetData w a KeyVote of
       None \<Rightarrow> Inr None
     | Some d \<Rightarrow> (case unmarshalVote E d of None \<Rightarrow> Inl ''unmarshal vote'' | Some vf \<Rightarrow> Inr (Some vf)))"

definition setVoteInfo :: "menv \<Rightarrow> world \<Rightarrow> address \<Rightarrow> voteInfo \<Rightarrow> error + world" where
  "setVoteInfo E w a vf =
    (case marshalVote E vf of
       None \<Rightarrow> Inl ''marshal vote''
     | Some bs \<Rightarrow> Inr (w_SetData w a KeyVote (Some bs)))"

definition delVoteInfo :: "world \<Rightarrow> address \<Rightarrow> world" where
  "delVoteInfo w a = w_RemoveData w a KeyVote"

definition newVoteInfo :: voteInfo where
  "newVoteInfo = \<lparr>vTarget = emptyAddress, vHeight = 0\<rparr>"

definition initVoteInfo :: "menv \<Rightarrow> world \<Rightarrow> address \<Rightarrow> error + voteInfo \<times> world" where
  "initVoteInfo E w a =
    (case marshalVote E newVoteInfo of
       None \<Rightarrow> Inl ''marshal vote''
     | Some bs \<Rightarrow> Inr (newVoteInfo, w_SetData w a KeyVote (Some bs)))"

definition voteMinerPool :: "menv \<Rightarrow> world \<Rightarrow> voteInfo \<Rightarrow> address \<Rightarrow> address \<Rightarrow> u64 \<Rightarrow> error + world" where
  "voteMinerPool E w vf source targetAddress height =
    (case marshalVote E (vf\<lparr>vHeight := height, vTarget := targetAddress\<rparr>) of
       None \<Rightarrow> Inl ''marshal vote''
     | Some bs \<Rightarrow> Inr (w_SetData w source KeyVote (Some bs)))"

definition NewFundGuardNode :: fundGuardNode where
  "NewFundGuardNode = \<lparr>fgType = fundGuardNodeType, fgHeight = 0, fgModeType = SIXAddSix\<rparr>"

definition isSixAddSix :: "fundGuardNode \<Rightarrow> bool" where "isSixAddSix f \<longleftrightarrow> fgModeType f = SIXAddSix"
definition isSixAddFive :: "fundGuardNode \<Rightarrow> bool" where "isSixAddFive f \<longleftrightarrow> fgModeType f = SIXAddFive"
definition isFundGuard :: "fundGuardNode \<Rightarrow> bool" where "isFundGuard f \<longleftrightarrow> fgType f = fundGuardNodeType"
definition isGuardNode :: "fundGuardNode \<Rightarrow> bool" where "isGuardNode f \<longleftrightarrow> fgType f \<noteq> normalNodeType"

definition getFundGuardNode :: "menv \<Rightarrow> world \<Rightarrow> address \<Rightarrow> error + fundGuardNode option" where
  "getFundGuardNode E w a =
    (case w_GetData w FundGuardNodeAddr (getFundGuardKey KeyGuardNodes a) of
       None \<Rightarrow> Inr None
     | Some d \<Rightarrow> (case unmarshalGuard E d of None \<Rightarrow> Inl ''unmarshal guard'' | Some fn \<Rightarrow> Inr (Some fn)))"

definition setFundGuardNode :: "menv \<Rightarrow> world \<Rightarrow> address \<Rightarrow> fundGuardNode \<Rightarrow> error + world" where
  "setFundGuardNode E w a fn =
    (case marshalGuard E fn of
       None \<Rightarrow> Inl ''marshal guard''
     | Some bs \<Rightarrow> Inr (w_SetData w FundGuardNodeAddr (getFundGuardKey KeyGuardNodes a) (Some bs)))"

definition addFundGuardPool :: "menv \<Rightarrow> world \<Rightarrow> address \<Rightarrow> error + world" where
  "addFundGuardPool E w a = setFundGuardNode E w a NewFundGuardNode"

definition updateFundGuardMode :: "menv \<Rightarrow> world \<Rightarrow> fundGuardNode \<Rightarrow> address \<Rightarrow> FundModeType \<Rightarrow> u64 \<Rightarrow> error + world" where
  "updateFundGuardMode E w fn a mode height = setFundGuardNode E w a (fn\<lparr>fgHeight := height, fgModeType := mode\<rparr>)"

text \<open>A fund guard node that cannot be read is not an error here: the function returns nil.\<close>

definition updateFundGuardPoolStatus :: "menv \<Rightarrow> world \<Rightarrow> address \<Rightarrow> FundGuardType \<Rightarrow> u64 \<Rightarrow> error + world" where
  "updateFundGuardPoolStatus E w a fnType height =
    (case getFundGuardNode E w a of
       Inl e \<Rightarrow> Inr w
     | Inr None \<Rightarrow> Inl ''fund guard info is nil''
     | Inr (Some fn) \<Rightarrow> setFundGuardNode E w a (fn\<lparr>fgHeight := height, fgType := fnType\<rparr>))"

definition hasScanedSixAddFiveFundGuards :: "world \<Rightarrow> bool" where
  "hasScanedSixAddFiveFundGuards w \<longleftrightarrow> w_GetData w ScanAllFundGuardStatusAddr KeyScanSixAddFiveNodes \<noteq> None"

definition markScanedSixAddFiveFundGuards :: "world \<Rightarrow> world" where
  "markScanedSixAddFiveFundGuards w = w_SetData w ScanAllFundGuardStatusAddr KeyScanSixAddFiveNodes (Some [1])"

definition hasScanedSixAddSixFundGuards :: "world \<Rightarrow> bool" where
  "hasScanedSixAddSixFundGuards w \<longleftrightarrow> w_GetData w ScanAllFundGuardStatusAddr KeyScanSixAddSixNodes \<noteq> None"

definition markScanedSixAddSixFundGuards :: "world \<Rightarrow> world" where
  "markScanedSixAddSixFundGuards w = w_SetData w ScanAllFundGuardStatusAddr KeyScanSixAddSixNodes (Some [1])"

definition addFullStakeGuardPool :: "world \<Rightarrow> address \<Rightarrow> world" where
  "addFullStakeGuardPool w a = w_SetData w FullStakeGuardNodeAddr (getFundGuardKey KeyGuardNodes a) (Some [1])"

definition isInFullStakeGuardNode :: "world \<Rightarrow> address \<Rightarrow> bool" where
  "isInFullStakeGuardNode w a \<longleftrightarrow> w_GetData w FullStakeGuardNodeAddr (getFundGuardKey KeyGuardNodes a) \<noteq> None"

definition removeFullStakeGuardNodeFromPool :: "world \<Rightarrow> address \<Rightarrow> world" where
  "removeFullStakeGuardNodeFromPool w a = w_RemoveData w FullStakeGuardNodeAddr (getFundGuardKey KeyGuardNodes a)"

section \<open>Pools, total stake and tickets\<close>

definition getProposalTotalStake :: "world \<Rightarrow> u64" where
  "getProposalTotalStake w =
    (case w_GetData w MinerPoolAddr KeyPoolProposalTotalStake of
       None \<Rightarrow> 0
     | Some b \<Rightarrow> if length b > 0 then ByteToUInt64 b else 0)"

definition setProposalTotalStake :: "world \<Rightarrow> u64 \<Rightarrow> world" where
  "setProposalTotalStake w v = w_SetData w MinerPoolAddr KeyPoolProposalTotalStake (Some (Uint64ToByte v))"

definition subProposalTotalStake :: "world \<Rightarrow> u64 \<Rightarrow> world option" where
  "subProposalTotalStake w subStake =
    (let totalStake = getProposalTotalStake w
     in if totalStake < subStake then None
        else Some (setProposalTotalStake w (totalStake - subStake)))"

definition addProposalTotalStake :: "world \<Rightarrow> u64 \<Rightarrow> world option" where
  "addProposalTotalStake w addStake =
    (let totalStake = getProposalTotalStake w
     in if addStake + totalStake < totalStake then None
        else Some (setProposalTotalStake w (addStake + totalStake)))"

text \<open>A type that is neither role leaves the key nil, which is the empty key.\<close>

definition poolKey :: "MinerType \<Rightarrow> address \<Rightarrow> bytes" where
  "poolKey t a =
    (if IsProposalRole t then getPoolKey PrefixPoolProposal a
     else if IsVerifyRole t then getPoolKey PrefixPoolVerifier a else [])"

definition removeFromPool :: "world \<Rightarrow> MinerType \<Rightarrow> address \<Rightarrow> u64 \<Rightarrow> world option" where
  "removeFromPool w t a stake =
    (if IsProposalRole t then
       (let totalStake = getProposalTotalStake w
        in if totalStake < stake then None
           else Some (w_RemoveData (setProposalTotalStake w (totalStake - stake)) MinerPoolAddr (poolKey t a)))
     else Some (w_RemoveData w MinerPoolAddr (poolKey t a)))"

definition addToPool :: "world \<Rightarrow> MinerType \<Rightarrow> address \<Rightarrow> u64 \<Rightarrow> world option" where
  "addToPool w t a addStake =
    (case (if IsProposalRole t then addProposalTotalStake w addStake else Some w) of
       None \<Rightarrow> None
     | Some w1 \<Rightarrow> Some (w_SetData w1 MinerPoolAddr (poolKey t a) (Some [1])))"

definition getTotalTickets :: "world \<Rightarrow> bytes \<Rightarrow> u64" where
  "getTotalTickets w key =
    (case w_GetData w MinerPoolTicketsAddr key of
       None \<Rightarrow> 0
     | Some b \<Rightarrow> if length b > 0 then ByteToUInt64 b else 0)"

definition getTickets :: "world \<Rightarrow> address \<Rightarrow> u64" where
  "getTickets w a = getTotalTickets w (getTicketsKey a)"

definition addTicket :: "world \<Rightarrow> address \<Rightarrow> u64 \<times> world" where
  "addTicket w a =
    (let key = getTicketsKey a; totalTickets = getTotalTickets w key + 1
     in (totalTickets, w_SetData w MinerPoolTicketsAddr key (Some (Uint64ToByte totalTickets))))"

definition subTicket :: "world \<Rightarrow> address \<Rightarrow> u64 \<times> world" where
  "subTicket w a =
    (let key = getTicketsKey a; t = getTotalTickets w key;
         totalTickets = (if t < 1 then 0 else t - 1)
     in (totalTickets, w_SetData w MinerPoolTicketsAddr key (Some (Uint64ToByte totalTickets))))"

end
