(* ===== verification/Miner_Node.thy ===== *)
theory Miner_Node
  imports Miner_Store
begin

text \<open>
  The operations a miner node supports, by identity (\<^verbatim>\<open>src/core/miner_node.go\<close>), and the
  transitions of the miner transactions that dispatch to them
  (\<^verbatim>\<open>src/core/miner_operation.go\<close>). A method of the Go interface \<^verbatim>\<open>baseIdentityOp\<close> is a function
  of the identity: \<^verbatim>\<open>BaseMiner\<close>'s body with the overriding bodies as further cases.
\<close>

section \<open>Identities\<close>

datatype baseIdentityOp =
    VerifyMiner
  | NormalProposalMiner
  | GuardProposalMiner
  | MinerPoolProposalMiner
  | InvalidProposalMiner
  | UnSupportMiner

definition geneBaseIdentityOp :: "MinerType \<Rightarrow> Miner option \<Rightarrow> baseIdentityOp" where
  "geneBaseIdentityOp opType targetMiner =
    (if opType = MinerTypeVerify then VerifyMiner
     else case targetMiner of
            None \<Rightarrow> NormalProposalMiner
          | Some m \<Rightarrow>
              if Identity m = MinerNormal then NormalProposalMiner
              else if Identity m = MinerGuard then GuardProposalMiner
              else if Identity m = MinerPool then MinerPoolProposalMiner
              else if Identity m = InValidMinerPool then InvalidProposalMiner
              else UnSupportMiner)"

definition oneHourBlocks :: u64 where "oneHourBlocks = 86400 div 3 div 24"
definition oneDayBlocks :: u64 where "oneDayBlocks = 86400 div 3"
definition stakeBuffer :: u64 where "stakeBuffer = 15 * oneDayBlocks"
definition refundDeadlineTwoDays :: u64 where "refundDeadlineTwoDays = 2 * oneDayBlocks"
definition refundDeadlineNinetyDays :: u64 where "refundDeadlineNinetyDays = 90 * oneDayBlocks"

lemmas duration_defs = oneHourBlocks_def oneDayBlocks_def stakeBuffer_def refundDeadlineTwoDays_def
  refundDeadlineNinetyDays_def

text \<open>A write that fails to marshal ends the operation with \<^verbatim>\<open>RSFail\<close>.\<close>

definition orFail :: "error + world \<Rightarrow> world \<Rightarrow> (world \<Rightarrow> outcome option) \<Rightarrow> outcome option" where
  "orFail r w k = (case r of Inl e \<Rightarrow> fails e RSFail w | Inr w1 \<Rightarrow> k w1)"

text \<open>A panic of a helper is a panic of the operation.\<close>

definition orPanic :: "world option \<Rightarrow> (world \<Rightarrow> outcome option) \<Rightarrow> outcome option" where
  "orPanic r k = (case r of None \<Rightarrow> None | Some w1 \<Rightarrow> k w1)"

text \<open>
  The detail after a value has been added to it, the three places that accumulate one: a missing
  detail starts with the value (\<^verbatim>\<open>&stakeDetail{Value: op.value}\<close>).
\<close>

definition raiseDetail :: "stakeDetail option \<Rightarrow> u64 \<Rightarrow> stakeDetail" where
  "raiseDetail detail v =
    (case detail of
       Some d \<Rightarrow> d\<lparr>sdValue := sdValue d + v\<rparr>
     | None \<Rightarrow> \<lparr>sdValue = v, sdHeight = 0, DisMissHeight = 0, MarkNotFullHeight = 0\<rparr>)"

section \<open>Adding stake\<close>

record stakeAddOp =
  saPks :: MinerPks
  saValue :: u64
  addSource :: address
  addTarget :: address
  saType :: MinerType
  saHeight :: u64

definition initMiner :: "stakeAddOp \<Rightarrow> Miner" where
  "initMiner op =
    \<lparr>ID = addTarget op, PublicKey = [], VrfPublicKey = [], ApplyHeight = saHeight op, Stake = saValue op,
     StatusUpdateHeight = 0, MType = saType op, Status = MinerStatusPrepare, Identity = MinerNormal,
     IdentityUpdateHeight = 0\<rparr>"

fun checkStakeAdd :: "menv \<Rightarrow> baseIdentityOp \<Rightarrow> stakeAddOp \<Rightarrow> world \<Rightarrow> (error \<times> ReceiptStatus) option" where
  "checkStakeAdd E VerifyMiner op w =
    (if addSource op \<noteq> addTarget op
     then Some (''could not stake to other's verify node'', RSMinerUnSupportOp) else None)"
| "checkStakeAdd E NormalProposalMiner op w =
    (if addSource op = addTarget op \<or> addSource op = StakePlatformAddr E then None
     else (case getMiner E w (addSource op) MinerTypeProposal of
             Inl e \<Rightarrow> Some (e, RSFail)
           | Inr sourceMiner \<Rightarrow>
               if (case sourceMiner of None \<Rightarrow> False | Some m \<Rightarrow> IsMinerPool m) then None
               else Some (''stake add to normal node only can be stake add by fund owner or miner pool'', RSMinerUnSupportOp)))"
| "checkStakeAdd E GuardProposalMiner op w =
    (if addSource op \<noteq> addTarget op
     then Some (''guard miner node cannot be staked by others'', RSMinerUnSupportOp) else None)"
| "checkStakeAdd E MinerPoolProposalMiner op w =
    (case getMiner E w (addSource op) MinerTypeProposal of
       Inl e \<Rightarrow> Some (e, RSFail)
     | Inr sourceMiner \<Rightarrow>
         if (case sourceMiner of None \<Rightarrow> False | Some m \<Rightarrow> IsMinerPool m) \<and> addSource op \<noteq> addTarget op
         then Some (''miner pool can not stake add to other miner pool'', RSMinerUnSupportOp) else None)"
| "checkStakeAdd E InvalidProposalMiner op w =
    Some (''invalid miner pool not support stake add'', RSMinerUnSupportOp)"
| "checkStakeAdd E UnSupportMiner op w = Some (''unSupported stake add'', RSMinerUnSupportOp)"

fun iopCheckUpperBound :: "baseIdentityOp \<Rightarrow> Miner \<Rightarrow> u64 \<Rightarrow> bool" where
  "iopCheckUpperBound MinerPoolProposalMiner m height = checkMinerPoolUpperBound m height"
| "iopCheckUpperBound UnSupportMiner m height = False"
| "iopCheckUpperBound _ m height = checkUpperBound m height"

text \<open>The miner after the stake has been added, or the error that stops it.\<close>

definition stakedMiner :: "stakeAddOp \<Rightarrow> Miner option \<Rightarrow> (error \<times> ReceiptStatus) + Miner" where
  "stakedMiner op targetMiner =
    (case targetMiner of
       None \<Rightarrow> Inr (initMiner op)
     | Some m \<Rightarrow>
         if IsFrozen m then Inl (''miner is frozen, cannot add stake'', RSMinerStakeFrozen)
         else if Stake m + saValue op < Stake m then Inl (''stake overflow'', RSFail)
         else Inr (m\<lparr>Stake := Stake m + saValue op\<rparr>))"

text \<open>Raising the total of an active miner, or activating one that has become eligible.\<close>

definition activate :: "stakeAddOp \<Rightarrow> Miner \<Rightarrow> world \<Rightarrow> (Miner \<times> world) option" where
  "activate op m w =
    (if IsActive m then
       (if IsProposalRole (saType op) then map_option (Pair m) (addProposalTotalStake w (saValue op))
        else Some (m, w))
     else if checkCanActivate m then
       map_option (Pair (UpdateStatus MinerStatusActive (saHeight op) m))
         (addToPool w (saType op) (addTarget op) (Stake m))
     else Some (m, w))"

definition addStakeDetail :: "menv \<Rightarrow> stakeAddOp \<Rightarrow> world \<Rightarrow> outcome option" where
  "addStakeDetail E op w =
    (let detailKey = getDetailKey (addSource op) (saType op) Staked
     in case getDetail E w (addTarget op) detailKey of
          Inl e \<Rightarrow> fails e RSFail w
        | Inr detail \<Rightarrow>
            if (case detail of Some d \<Rightarrow> sdValue d + saValue op < sdValue d | None \<Rightarrow> False)
            then fails ''stake detail value overflow'' RSFail w
            else orFail (setDetail E w (addTarget op) detailKey
                           ((raiseDetail detail (saValue op))\<lparr>sdHeight := saHeight op\<rparr>)) w succeeds)"

definition baseProcessStakeAdd :: "menv \<Rightarrow> baseIdentityOp \<Rightarrow> stakeAddOp \<Rightarrow> Miner option \<Rightarrow> world \<Rightarrow> outcome option" where
  "baseProcessStakeAdd E iop op targetMiner w =
    (case reduceBalance w (addSource op) (saValue op) of
       Inl e \<Rightarrow> fails e RSBalanceNotEnough w
     | Inr w1 \<Rightarrow>
         (case stakedMiner op targetMiner of
            Inl (e, rs) \<Rightarrow> fails e rs w1
          | Inr m0 \<Rightarrow>
              (let m1 = (if addTarget op = addSource op then setPks m0 (saPks op) else m0)
               in if \<not> iopCheckUpperBound iop m1 (saHeight op)
                  then fails ''stake more than upper bound'' RSMinerStakeOverLimit w1
                  else (case activate op m1 w1 of
                          None \<Rightarrow> None
                        | Some (m2, w2) \<Rightarrow> orFail (setMiner E w2 m2) w2 (addStakeDetail E op)))))"

definition processStakeAdd :: "menv \<Rightarrow> baseIdentityOp \<Rightarrow> stakeAddOp \<Rightarrow> Miner option \<Rightarrow> world \<Rightarrow> outcome option" where
  "processStakeAdd E iop op targetMiner w =
    (if iop = UnSupportMiner then fails ''unSupported stake add'' RSMinerUnSupportOp w
     else baseProcessStakeAdd E iop op targetMiner w)"

definition stakeAdd_Transition :: "menv \<Rightarrow> stakeAddOp \<Rightarrow> world \<Rightarrow> outcome option" where
  "stakeAdd_Transition E op w =
    (case getMiner E w (addTarget op) (saType op) of
       Inl e \<Rightarrow> fails e RSFail w
     | Inr targetMiner \<Rightarrow>
         (let baseOp = geneBaseIdentityOp (saType op) targetMiner
          in case checkStakeAdd E baseOp op w of
               Some (e, rs) \<Rightarrow> fails e rs w
             | None \<Rightarrow> processStakeAdd E baseOp op targetMiner w))"

section \<open>Aborting\<close>

record minerAbortOp =
  maAddr :: address
  maType :: MinerType
  maHeight :: u64

definition checkStakeAbort :: "minerAbortOp \<Rightarrow> Miner \<Rightarrow> (error \<times> ReceiptStatus) option" where
  "checkStakeAbort op m =
    (if IsPrepare m then Some (''already in prepare status'', RSMinerAbortHasPrepared)
     else if IsFrozen m \<and> maHeight op \<le> StatusUpdateHeight m + oneHourBlocks
     then Some (''frozen miner can't abort less than 1 hour since frozen'', RSMinerStakeFrozen)
     else None)"

definition baseProcessMinerAbort :: "menv \<Rightarrow> minerAbortOp \<Rightarrow> Miner option \<Rightarrow> world \<Rightarrow> outcome option" where
  "baseProcessMinerAbort E op miner w =
    (case miner of
       None \<Rightarrow> fails ''no miner info'' RSMinerNotExists w
     | Some m \<Rightarrow>
         (case checkStakeAbort op m of
            Some (e, rs) \<Rightarrow> fails e rs w
          | None \<Rightarrow>
              orPanic (if IsActive m then removeFromPool w (maType op) (maAddr op) (Stake m) else Some w)
                (\<lambda>w1. orFail (setMiner E w1 (UpdateStatus MinerStatusPrepare (maHeight op) m)) w1 succeeds)))"

fun processMinerAbort :: "menv \<Rightarrow> baseIdentityOp \<Rightarrow> minerAbortOp \<Rightarrow> Miner option \<Rightarrow> world \<Rightarrow> outcome option" where
  "processMinerAbort E InvalidProposalMiner op miner w =
    fails ''invalid miner pool unSupported miner abort'' RSMinerUnSupportOp w"
| "processMinerAbort E UnSupportMiner op miner w = fails ''unSupported miner abort'' RSMinerUnSupportOp w"
| "processMinerAbort E _ op miner w = baseProcessMinerAbort E op miner w"

definition minerAbort_Transition :: "menv \<Rightarrow> minerAbortOp \<Rightarrow> world \<Rightarrow> outcome option" where
  "minerAbort_Transition E op w =
    (case getMiner E w (maAddr op) (maType op) of
       Inl e \<Rightarrow> fails e RSFail w
     | Inr miner \<Rightarrow> processMinerAbort E (geneBaseIdentityOp (maType op) miner) op miner w)"

section \<open>Reducing stake\<close>

record stakeReduceOp =
  cancelTarget :: address
  cancelSource :: address
  srValue :: u64
  srType :: MinerType
  srHeight :: u64

definition checkCanReduce :: "menv \<Rightarrow> stakeReduceOp \<Rightarrow> Miner \<Rightarrow> (error \<times> ReceiptStatus) option" where
  "checkCanReduce E op m =
    (if IsFrozen m then Some (''frozen miner must abort first'', RSMinerStakeFrozen)
     else if \<not> checkLowerBound m \<and> IsVerifyRole (srType op) then
       (if IsActive m
        then Some (''active verify miner cann't reduce stake to below bound'', RSMinerVerifyLowerStake)
        else if \<not> noLiveGroup E (srHeight op) (cancelTarget op)
        then Some (''miner still in active groups, cannot reduce stake'', RSMinerVerifyInGroup)
        else None)
     else None)"

text \<open>The miner and the pool after the reduction; \<open>m\<close> already has the reduced stake.\<close>

definition deactivate :: "stakeReduceOp \<Rightarrow> u64 \<Rightarrow> Miner \<Rightarrow> world \<Rightarrow> (Miner \<times> world) option" where
  "deactivate op originStake m w =
    (if IsActive m \<and> IsProposalRole (srType op) then
       (if \<not> checkLowerBound m then
          map_option (Pair (UpdateStatus MinerStatusPrepare (srHeight op) m))
            (removeFromPool w (srType op) (cancelTarget op) originStake)
        else map_option (Pair m) (subProposalTotalStake w (srValue op)))
     else Some (m, w))"

definition freezeDetail :: "menv \<Rightarrow> stakeReduceOp \<Rightarrow> world \<Rightarrow> outcome option" where
  "freezeDetail E op w =
    (let frozenDetailKey = getDetailKey (cancelSource op) (srType op) StakeFrozen
     in case getDetail E w (cancelTarget op) frozenDetailKey of
          Inl e \<Rightarrow> fails e RSFail w
        | Inr frozenDetail \<Rightarrow>
            orFail (setDetail E w (cancelTarget op) frozenDetailKey
                      ((raiseDetail frozenDetail (srValue op))\<lparr>sdHeight := srHeight op\<rparr>)) w succeeds)"

definition reduceDetail :: "menv \<Rightarrow> stakeReduceOp \<Rightarrow> u64 \<Rightarrow> world \<Rightarrow> outcome option" where
  "reduceDetail E op originStake w =
    (let stakedDetailKey = getDetailKey (cancelSource op) (srType op) Staked
     in case getDetail E w (cancelTarget op) stakedDetailKey of
          Inl e \<Rightarrow> fails e RSFail w
        | Inr None \<Rightarrow> fails ''target account has no staked detail data'' RSFail w
        | Inr (Some d) \<Rightarrow>
            if srHeight op < DisMissHeight d
            then fails ''current height can not be reduce'' RSMinerReduceHeightNotEnough w
            else if sdValue d > originStake then None
            else if sdValue d < srValue op
            then fails ''detail stake less than cancel amount'' RSMinerStakeLessThanReduce w
            else (let d1 = d\<lparr>sdValue := sdValue d - srValue op, sdHeight := srHeight op\<rparr>
                  in if sdValue d1 = 0 then freezeDetail E op (removeDetail w (cancelTarget op) stakedDetailKey)
                     else orFail (setDetail E w (cancelTarget op) stakedDetailKey d1) w (freezeDetail E op)))"

definition processStakeReduce :: "menv \<Rightarrow> baseIdentityOp \<Rightarrow> stakeReduceOp \<Rightarrow> Miner option \<Rightarrow> world \<Rightarrow> outcome option" where
  "processStakeReduce E iop op miner w =
    (if iop = UnSupportMiner then fails ''unSupported miner abort'' RSMinerUnSupportOp w
     else case miner of
       None \<Rightarrow> fails ''no miner info'' RSMinerNotExists w
     | Some m \<Rightarrow>
         if Stake m < srValue op then fails ''miner stake not enough'' RSMinerStakeLessThanReduce w
         else (let m1 = m\<lparr>Stake := Stake m - srValue op\<rparr>
               in case checkCanReduce E op m1 of
                    Some (e, rs) \<Rightarrow> fails e rs w
                  | None \<Rightarrow>
                      (case deactivate op (Stake m) m1 w of
                         None \<Rightarrow> None
                       | Some (m2, w1) \<Rightarrow> orFail (setMiner E w1 m2) w1 (reduceDetail E op (Stake m)))))"

definition stakeReduce_Transition :: "menv \<Rightarrow> stakeReduceOp \<Rightarrow> world \<Rightarrow> outcome option" where
  "stakeReduce_Transition E op w =
    (case getMiner E w (cancelTarget op) (srType op) of
       Inl e \<Rightarrow> fails e RSFail w
     | Inr miner \<Rightarrow> processStakeReduce E (geneBaseIdentityOp (srType op) miner) op miner w)"

end
