(* ===== verification/Miner_Operation.thy ===== *)
theory Miner_Operation
  imports Miner_Node
begin

text \<open>
  The remaining miner transactions (\<^verbatim>\<open>src/core/miner_operation.go\<close>, \<^verbatim>\<open>src/core/miner_node.go\<close>):
  refunds, freezing, penalties, tickets and votes, guard nodes; their parsing from transactions;
  their execution with a snapshot and the periodic checks of the miner manager
  (\<^verbatim>\<open>src/core/miner_manager.go\<close>).
\<close>

section \<open>Refund\<close>

record stakeRefundOp =
  refundTarget :: address
  refundSource :: address
  rfType :: MinerType
  rfHeight :: u64

definition refundDeadline :: "menv \<Rightarrow> stakeRefundOp \<Rightarrow> stakeDetail \<Rightarrow> u64" where
  "refundDeadline E op frozenDetail =
    (if IsZIP004 config (rfHeight op) then refundDeadlineTwoDays
     else if IsZIP003 config (sdHeight frozenDetail) \<and> refundSource op \<noteq> StakePlatformAddr E
     then refundDeadlineNinetyDays
     else refundDeadlineTwoDays)"

definition stakeRefund_Transition :: "menv \<Rightarrow> stakeRefundOp \<Rightarrow> world \<Rightarrow> outcome option" where
  "stakeRefund_Transition E op w =
    (let frozenDetailKey = getDetailKey (refundSource op) (rfType op) StakeFrozen
     in case getDetail E w (refundTarget op) frozenDetailKey of
          Inl e \<Rightarrow> fails e RSFail w
        | Inr None \<Rightarrow> fails ''target has no frozen detail'' RSFail w
        | Inr (Some d) \<Rightarrow>
            if rfHeight op \<le> sdHeight d + refundDeadline E op d
            then fails ''refund cann't happen'' RSMinerRefundHeightNotEnougn w
            else succeeds (w_AddBalance (removeDetail w (refundTarget op) frozenDetailKey)
                             (refundSource op) (uint (sdValue d))))"

section \<open>Freezing and penalties\<close>

definition minerFreeze_Transition :: "menv \<Rightarrow> address \<Rightarrow> u64 \<Rightarrow> world \<Rightarrow> outcome option" where
  "minerFreeze_Transition E addr height w =
    (case getMiner E w addr MinerTypeVerify of
       Inl e \<Rightarrow> fails e RSFail w
     | Inr None \<Rightarrow> fails ''no miner info'' RSMinerNotExists w
     | Inr (Some m) \<Rightarrow>
         if IsFrozen m then fails ''already in forzen status'' RSFail w
         else if \<not> IsVerifyRole (MType m) then fails ''not a verifier'' RSFail w
         else orPanic (if IsActive m then removeFromPool w MinerTypeVerify addr (Stake m) else Some w)
                (\<lambda>w1. orFail (setMiner E w1 (UpdateStatus MinerStatusFrozen height m)) w1 succeeds))"

text \<open>The accumulated punishment of one target.\<close>

definition addPunishment :: "menv \<Rightarrow> address \<Rightarrow> u64 \<Rightarrow> u64 \<Rightarrow> world \<Rightarrow> outcome option" where
  "addPunishment E addr pvalue height w =
    (let punishmentKey = getDetailKey PunishmentDetailAddr MinerTypeVerify StakePunishment
     in case getDetail E w addr punishmentKey of
          Inl e \<Rightarrow> fails e RSFail w
        | Inr detail \<Rightarrow>
            orFail (setDetail E w addr punishmentKey ((raiseDetail detail pvalue)\<lparr>sdHeight := height\<rparr>)) w succeeds)"

definition subFrozen :: "menv \<Rightarrow> address \<Rightarrow> u64 \<Rightarrow> u64 \<Rightarrow> world \<Rightarrow> outcome option" where
  "subFrozen E addr remain height w =
    (let frozenKey = getDetailKey addr MinerTypeVerify StakeFrozen
     in case getDetail E w addr frozenKey of
          Inl e \<Rightarrow> fails e RSFail w
        | Inr None \<Rightarrow> None
        | Inr (Some d) \<Rightarrow>
            if sdValue d < remain then None
            else orFail (setDetail E w addr frozenKey (d\<lparr>sdValue := sdValue d - remain, sdHeight := height\<rparr>)) w succeeds)"

definition subPunished :: "menv \<Rightarrow> address \<Rightarrow> u64 \<Rightarrow> u64 \<Rightarrow> world \<Rightarrow> outcome option" where
  "subPunished E addr pvalue height w =
    (let normalStakeKey = getDetailKey addr MinerTypeVerify Staked
     in case getDetail E w addr normalStakeKey of
          Inl e \<Rightarrow> fails e RSFail w
        | Inr None \<Rightarrow> None
        | Inr (Some d) \<Rightarrow>
            if sdValue d > pvalue
            then orFail (setDetail E w addr normalStakeKey (d\<lparr>sdValue := sdValue d - pvalue, sdHeight := height\<rparr>)) w succeeds
            else (let remain = pvalue - sdValue d; w1 = removeDetail w addr normalStakeKey
                  in if remain > 0 then subFrozen E addr remain height w1 else succeeds w1))"

definition punishOne :: "menv \<Rightarrow> u64 \<Rightarrow> u64 \<Rightarrow> address \<Rightarrow> world \<Rightarrow> outcome option" where
  "punishOne E pvalue height addr w =
    (case getMiner E w addr MinerTypeVerify of
       Inl e \<Rightarrow> fails e RSFail w
     | Inr None \<Rightarrow> fails ''no miner info'' RSMinerNotExists w
     | Inr (Some m) \<Rightarrow>
         if \<not> IsVerifyRole (MType m) then fails ''not a verifier'' RSFail w
         else orPanic (if IsActive m then removeFromPool w MinerTypeVerify addr (Stake m) else Some w)
           (\<lambda>w1. if Stake m < pvalue then None
             else orFail (setMiner E w1 (UpdateStatus MinerStatusFrozen height (m\<lparr>Stake := Stake m - pvalue\<rparr>))) w1
                    (\<lambda>w2. andThen (addPunishment E addr pvalue height w2) (subPunished E addr pvalue height))))"

fun punishAll :: "menv \<Rightarrow> u64 \<Rightarrow> u64 \<Rightarrow> address list \<Rightarrow> world \<Rightarrow> outcome option" where
  "punishAll E pvalue height [] w = succeeds w"
| "punishAll E pvalue height (a # as) w = andThen (punishOne E pvalue height a w) (punishAll E pvalue height as)"

record minerPenaltyOp =
  mpTargets :: "address list"
  mpRewards :: "address list"
  mpValue :: u64
  mpHeight :: u64

definition minerPenalty_Transition :: "menv \<Rightarrow> minerPenaltyOp \<Rightarrow> world \<Rightarrow> outcome option" where
  "minerPenalty_Transition E op w =
    andThen (punishAll E (mpValue op) (mpHeight op) (mpTargets op) w)
      (\<lambda>w1. if length (mpRewards op) > 0 then
         (let addEach = uint (mpValue op * of_nat (length (mpTargets op)) div of_nat (length (mpRewards op)))
          in succeeds (fold (\<lambda>a v. w_AddBalance v a addEach) (mpRewards op) w1))
       else succeeds w1)"

section \<open>Tickets and votes\<close>

record reduceTicketsOp =
  rtTarget :: address
  rtHeight :: u64

fun afterTicketReduce :: "menv \<Rightarrow> baseIdentityOp \<Rightarrow> reduceTicketsOp \<Rightarrow> Miner option \<Rightarrow> u64 \<Rightarrow> world \<Rightarrow> outcome option" where
  "afterTicketReduce E MinerPoolProposalMiner op miner totalTickets w =
    (if \<not> isFullTickets totalTickets (rtHeight op) then
       (case miner of
          None \<Rightarrow> fails ''find miner pool miner is nil'' RSFail w
        | Some m \<Rightarrow>
            (let m1 = UpdateIdentity InValidMinerPool (rtHeight op) m
             in if IsActive m1 then
                  orPanic (removeFromPool w MinerTypeProposal (rtTarget op) (Stake m1))
                    (\<lambda>w1. orFail (setMiner E w1 (UpdateStatus MinerStatusPrepare (rtHeight op) m1)) w1 succeeds)
                else orFail (setMiner E w m1) w succeeds))
     else succeeds w)"
| "afterTicketReduce E _ op miner totalTickets w = succeeds w"

definition processReduceTicket :: "menv \<Rightarrow> baseIdentityOp \<Rightarrow> reduceTicketsOp \<Rightarrow> Miner option \<Rightarrow> world \<Rightarrow> outcome option" where
  "processReduceTicket E iop op targetMiner w =
    (if iop = UnSupportMiner then fails ''unSupported reduce ticket'' RSMinerUnSupportOp w
     else (case subTicket w (rtTarget op) of
             (totalTickets, w1) \<Rightarrow> afterTicketReduce E iop op targetMiner totalTickets w1))"

definition reduceTickets_Transition :: "menv \<Rightarrow> reduceTicketsOp \<Rightarrow> world \<Rightarrow> outcome option" where
  "reduceTickets_Transition E op w =
    (case getMiner E w (rtTarget op) MinerTypeProposal of
       Inl e \<Rightarrow> fails e RSFail w
     | Inr targetMiner \<Rightarrow>
         processReduceTicket E (geneBaseIdentityOp MinerTypeProposal targetMiner) op targetMiner w)"

record voteMinerPoolOp =
  vmSource :: address
  vmTarget :: address
  vmHeight :: u64

definition checkVote :: "menv \<Rightarrow> voteMinerPoolOp \<Rightarrow> voteInfo option \<Rightarrow> world \<Rightarrow> (error \<times> ReceiptStatus) option" where
  "checkVote E op vf w =
    (case getMiner E w (vmSource op) MinerTypeProposal of
       Inl e \<Rightarrow> Some (e, RSFail)
     | Inr None \<Rightarrow> Some (''miner info is nil,cannot vote'', RSMinerUnSupportOp)
     | Inr (Some m) \<Rightarrow>
         if \<not> IsGuard m then Some (''this miner is not guard node,can not vote'', RSMinerUnSupportOp)
         else (let voteHeight = (case vf of None \<Rightarrow> 0 | Some v \<Rightarrow> vHeight v)
               in if \<not> checkCanVote voteHeight (vmHeight op)
                  then Some (''has voted in this round,can not vote'', RSVoteNotInRound) else None))"

text \<open>The vote record the voter has before voting: a missing one is written first.\<close>

definition voteBefore :: "menv \<Rightarrow> voteMinerPoolOp \<Rightarrow> voteInfo option \<Rightarrow> world \<Rightarrow> error + voteInfo \<times> world" where
  "voteBefore E op vf w = (case vf of None \<Rightarrow> initVoteInfo E w (vmSource op) | Some v \<Rightarrow> Inr (v, w))"

definition baseVote :: "menv \<Rightarrow> voteMinerPoolOp \<Rightarrow> voteInfo option \<Rightarrow> world \<Rightarrow> (bool \<Rightarrow> world \<Rightarrow> outcome option) \<Rightarrow> outcome option" where
  "baseVote E op vf w k =
    (case voteBefore E op vf w of
       Inl e \<Rightarrow> fails e RSFail w
     | Inr (v, w1) \<Rightarrow>
         orFail (voteMinerPool E w1 v (vmSource op) (vmTarget op) (vmHeight op)) w1
           (\<lambda>w2. let oldTarget = vTarget v
             in if oldTarget = vmTarget op \<and> oldTarget \<noteq> emptyAddress
                then k (isFullTickets (getTickets w2 (vmTarget op)) (vmHeight op)) w2
                else andThen
                  (if oldTarget \<noteq> emptyAddress
                   then reduceTickets_Transition E \<lparr>rtTarget = oldTarget, rtHeight = vmHeight op\<rparr> w2
                   else succeeds w2)
                  (\<lambda>w3. case addTicket w3 (vmTarget op) of
                     (totalTickets, w4) \<Rightarrow> k (isFullTickets totalTickets (vmHeight op)) w4)))"

fun afterTicketsFull :: "menv \<Rightarrow> baseIdentityOp \<Rightarrow> voteMinerPoolOp \<Rightarrow> Miner option \<Rightarrow> world \<Rightarrow> outcome option" where
  "afterTicketsFull E MinerPoolProposalMiner op targetMiner w = succeeds w"
| "afterTicketsFull E UnSupportMiner op targetMiner w = succeeds w"
| "afterTicketsFull E _ op targetMiner w =
    (let m = (case targetMiner of
                Some m \<Rightarrow> m
              | None \<Rightarrow> \<lparr>ID = vmTarget op, PublicKey = [], VrfPublicKey = [], ApplyHeight = vmHeight op, Stake = 0,
                         StatusUpdateHeight = 0, MType = MinerTypeProposal, Status = MinerStatusPrepare,
                         Identity = MinerNormal, IdentityUpdateHeight = 0\<rparr>)
     in orFail (setMiner E w (UpdateIdentity MinerPool (vmHeight op) m)) w succeeds)"

definition baseProcessVote :: "menv \<Rightarrow> baseIdentityOp \<Rightarrow> voteMinerPoolOp \<Rightarrow> Miner option \<Rightarrow> world \<Rightarrow> outcome option" where
  "baseProcessVote E iop op targetMiner w =
    (case getVoteInfo E w (vmSource op) of
       Inl e \<Rightarrow> fails e RSFail w
     | Inr vf \<Rightarrow>
         (case checkVote E op vf w of
            Some (e, rs) \<Rightarrow> fails e rs w
          | None \<Rightarrow>
              baseVote E op vf w
                (\<lambda>isFull w1. if isFull then afterTicketsFull E iop op targetMiner w1 else succeeds w1)))"

fun processVote :: "menv \<Rightarrow> baseIdentityOp \<Rightarrow> voteMinerPoolOp \<Rightarrow> Miner option \<Rightarrow> world \<Rightarrow> outcome option" where
  "processVote E VerifyMiner op targetMiner w = fails ''verify node not support vote'' RSMinerUnSupportOp w"
| "processVote E GuardProposalMiner op targetMiner w = fails ''guard node not support vote'' RSMinerUnSupportOp w"
| "processVote E UnSupportMiner op targetMiner w = fails ''unSupported miner abort'' RSMinerUnSupportOp w"
| "processVote E iop op targetMiner w = baseProcessVote E iop op targetMiner w"

definition voteMinerPool_Transition :: "menv \<Rightarrow> voteMinerPoolOp \<Rightarrow> world \<Rightarrow> outcome option" where
  "voteMinerPool_Transition E op w =
    (case getMiner E w (vmTarget op) MinerTypeProposal of
       Inl e \<Rightarrow> fails e RSFail w
     | Inr targetMiner \<Rightarrow>
         processVote E (geneBaseIdentityOp MinerTypeProposal targetMiner) op targetMiner w)"

section \<open>Guard nodes\<close>

record applyGuardMinerOp =
  agTarget :: address
  agHeight :: u64

definition checkApplyGuard :: "applyGuardMinerOp \<Rightarrow> stakeDetail option \<Rightarrow> (error \<times> ReceiptStatus) option" where
  "checkApplyGuard op detail =
    (case detail of
       None \<Rightarrow> Some (''target account has no staked detail data'', RSMinerNotFullStake)
     | Some d \<Rightarrow>
         if \<not> isFullStake (sdValue d) (agHeight op)
         then Some (''not full stake,apply guard faild'', RSMinerNotFullStake)
         else if DisMissHeight d > agHeight op \<and> DisMissHeight d - agHeight op > adjustWeightPeriod div 2
         then Some (''apply guard time too long'', RSMinerMaxApplyGuard)
         else None)"

fun afterBecomeFullGuardNode :: "menv \<Rightarrow> baseIdentityOp \<Rightarrow> bytes \<Rightarrow> stakeDetail \<Rightarrow> address \<Rightarrow> u64 \<Rightarrow> world \<Rightarrow> outcome option" where
  "afterBecomeFullGuardNode E NormalProposalMiner detailKey d a height w =
    (let w1 = addFullStakeGuardPool w a
     in orFail (setDetail E w1 a detailKey (d\<lparr>DisMissHeight := height + adjustWeightPeriod div 2\<rparr>)) w1 succeeds)"
| "afterBecomeFullGuardNode E GuardProposalMiner detailKey d a height w =
    (if DisMissHeight d = 0 then
       orFail (updateFundGuardPoolStatus E w a fullStakeGuardNodeType height) w
         (\<lambda>w1. let w2 = addFullStakeGuardPool w1 a
           in orFail (setDetail E w2 a detailKey (d\<lparr>DisMissHeight := height + adjustWeightPeriod div 2\<rparr>)) w2 succeeds)
     else orFail (setDetail E w a detailKey (d\<lparr>DisMissHeight := DisMissHeight d + adjustWeightPeriod div 2\<rparr>)) w succeeds)"
| "afterBecomeFullGuardNode E _ detailKey d a height w = succeeds w"

text \<open>A voter that becomes a guard node may vote again from the current round on.\<close>

definition refreshVote :: "menv \<Rightarrow> applyGuardMinerOp \<Rightarrow> world \<Rightarrow> outcome option" where
  "refreshVote E op w =
    (case getVoteInfo E w (agTarget op) of
       Inl e \<Rightarrow> fails e RSFail w
     | Inr None \<Rightarrow> succeeds w
     | Inr (Some vf) \<Rightarrow> orFail (setVoteInfo E w (agTarget op) (vf\<lparr>vHeight := agHeight op\<rparr>)) w succeeds)"

definition baseProcessApplyGuard :: "menv \<Rightarrow> baseIdentityOp \<Rightarrow> applyGuardMinerOp \<Rightarrow> Miner option \<Rightarrow> world \<Rightarrow> outcome option" where
  "baseProcessApplyGuard E iop op miner w =
    (let detailKey = getDetailKey (agTarget op) MinerTypeProposal Staked
     in case getDetail E w (agTarget op) detailKey of
          Inl e \<Rightarrow> fails e RSFail w
        | Inr stakedDetail \<Rightarrow>
            (case miner of
               None \<Rightarrow> fails ''no miner info'' RSMinerNotExists w
             | Some m \<Rightarrow>
                 (case checkApplyGuard op stakedDetail of
                    Some (e, rs) \<Rightarrow> fails e rs w
                  | None \<Rightarrow>
                      orFail (setMiner E w (UpdateIdentity MinerGuard (agHeight op) m)) w
                        (\<lambda>w1. andThen
                           (afterBecomeFullGuardNode E iop detailKey (the stakedDetail) (agTarget op) (agHeight op) w1)
                           (refreshVote E op)))))"

fun processApplyGuard :: "menv \<Rightarrow> baseIdentityOp \<Rightarrow> applyGuardMinerOp \<Rightarrow> Miner option \<Rightarrow> world \<Rightarrow> outcome option" where
  "processApplyGuard E InvalidProposalMiner op miner w =
    fails ''invalid miner pool not support apply guard node'' RSMinerUnSupportOp w"
| "processApplyGuard E VerifyMiner op miner w = fails ''verify node not support apply guard node'' RSMinerUnSupportOp w"
| "processApplyGuard E MinerPoolProposalMiner op miner w =
    fails ''miner pool not support apply guard node'' RSMinerUnSupportOp w"
| "processApplyGuard E UnSupportMiner op miner w = fails ''unSupported apply guard'' RSMinerUnSupportOp w"
| "processApplyGuard E iop op miner w = baseProcessApplyGuard E iop op miner w"

definition applyGuard_Transition :: "menv \<Rightarrow> applyGuardMinerOp \<Rightarrow> world \<Rightarrow> outcome option" where
  "applyGuard_Transition E op w =
    (case getMiner E w (agTarget op) MinerTypeProposal of
       Inl e \<Rightarrow> fails e RSFail w
     | Inr None \<Rightarrow> fails ''no miner info'' RSMinerNotExists w
     | Inr (Some m) \<Rightarrow>
         processApplyGuard E (geneBaseIdentityOp MinerTypeProposal (Some m)) op (Some m) w)"

record changeFundGuardModeOp =
  cfSource :: address
  cfMode :: FundModeType
  cfHeight :: u64

text \<open>
  The last test of the source is \<^verbatim>\<open>if err == nil { return err, types.RSFail }\<close>: a nil error is
  success for the caller, and a marshalling error falls through to \<^verbatim>\<open>return nil\<close> as well.
\<close>

definition processChangeFundGuardMode :: "menv \<Rightarrow> baseIdentityOp \<Rightarrow> changeFundGuardModeOp \<Rightarrow> world \<Rightarrow> outcome option" where
  "processChangeFundGuardMode E iop op w =
    (if iop = UnSupportMiner then fails ''unSupported change fund guard mode'' RSMinerUnSupportOp w
     else if cfHeight op > adjustWeightPeriod div 2
     then fails ''changge fund guard mode must be in suitable height'' RSMinerChangeModeExpired w
     else case getFundGuardNode E w (cfSource op) of
            Inl e \<Rightarrow> fails e RSFail w
          | Inr None \<Rightarrow> fails ''fund guard info is nil'' RSMinerUnSupportOp w
          | Inr (Some fn) \<Rightarrow>
              if \<not> isFundGuard fn then fails ''only fund guard can do this operator'' RSMinerUnSupportOp w
              else (case updateFundGuardMode E w fn (cfSource op) (cfMode op) (cfHeight op) of
                      Inl e \<Rightarrow> succeeds w
                    | Inr w1 \<Rightarrow> succeeds w1))"

definition changeFundGuardMode_Transition :: "menv \<Rightarrow> changeFundGuardModeOp \<Rightarrow> world \<Rightarrow> outcome option" where
  "changeFundGuardMode_Transition E op w =
    (case getMiner E w (cfSource op) MinerTypeProposal of
       Inl e \<Rightarrow> fails e RSFail w
     | Inr targetMiner \<Rightarrow>
         processChangeFundGuardMode E (geneBaseIdentityOp MinerTypeProposal targetMiner) op w)"

text \<open>The expiry of a guard node returns a plain error; its status is \<open>RSFail\<close> here.\<close>

definition guardNodeExpired :: "menv \<Rightarrow> address \<Rightarrow> u64 \<Rightarrow> bool \<Rightarrow> world \<Rightarrow> outcome option" where
  "guardNodeExpired E a height isFundGuardNode w =
    (case getMiner E w a MinerTypeProposal of
       Inl e \<Rightarrow> fails e RSFail w
     | Inr None \<Rightarrow> fails ''guard invalid find miner is nil'' RSFail w
     | Inr (Some m) \<Rightarrow>
         orFail (setMiner E w (UpdateIdentity MinerNormal height m)) w
           (\<lambda>w1. let w2 = (if \<not> isFundGuardNode then removeFullStakeGuardNodeFromPool w1 a else w1)
             in case getVoteInfo E w2 a of
                  Inl e \<Rightarrow> fails e RSFail w2
                | Inr None \<Rightarrow> succeeds w2
                | Inr (Some vf) \<Rightarrow>
                    (let w3 = delVoteInfo w2 a
                     in if vTarget vf \<noteq> emptyAddress
                        then reduceTickets_Transition E \<lparr>rtTarget = vTarget vf, rtHeight = height\<rparr> w3
                        else succeeds w3)))"

end
