(* ===== verification/Miner_Manager.thy ===== *)
theory Miner_Manager
  imports Miner_Operation
begin

text \<open>
  From transactions to miner operations: parsing (\<^verbatim>\<open>src/core/miner_operation.go\<close>), execution with
  a snapshot that is reverted on error, genesis miners, and the periodic guard node checks of the
  miner manager (\<^verbatim>\<open>src/core/miner_manager.go\<close>).
\<close>

section \<open>Messages and parsing\<close>

text \<open>A pointer that may be nil is an option; reading through nil, or past the payload, panics.\<close>

record txMessage =
  OpType :: int
  Operator :: "address option"
  OpTarget :: "address option"
  Amount :: "bigint option"
  Payload :: bytes

definition bigUint64 :: "bigint \<Rightarrow> u64" where
  "bigUint64 n = of_int \<bar>n\<bar>"

definition TransactionTypeTransfer :: int where "TransactionTypeTransfer = 0"
definition TransactionTypeContractCreate :: int where "TransactionTypeContractCreate = 1"
definition TransactionTypeContractCall :: int where "TransactionTypeContractCall = 2"
definition TransactionTypeStakeAdd :: int where "TransactionTypeStakeAdd = 3"
definition TransactionTypeMinerAbort :: int where "TransactionTypeMinerAbort = 4"
definition TransactionTypeStakeReduce :: int where "TransactionTypeStakeReduce = 5"
definition TransactionTypeStakeRefund :: int where "TransactionTypeStakeRefund = 6"
definition TransactionTypeApplyGuardMiner :: int where "TransactionTypeApplyGuardMiner = 7"
definition TransactionTypeVoteMinerPool :: int where "TransactionTypeVoteMinerPool = 8"
definition TransactionTypeChangeFundGuardMode :: int where "TransactionTypeChangeFundGuardMode = 9"
definition TransactionTypeBlacklistUpdate :: int where "TransactionTypeBlacklistUpdate = 10"
definition TransactionTypeGroupPiece :: int where "TransactionTypeGroupPiece = 101"
definition TransactionTypeGroupMpk :: int where "TransactionTypeGroupMpk = 102"
definition TransactionTypeGroupOriginPiece :: int where "TransactionTypeGroupOriginPiece = 103"
definition TransactionTypeReward :: int where "TransactionTypeReward = 104"

lemmas tx_type_defs = TransactionTypeTransfer_def TransactionTypeContractCreate_def
  TransactionTypeContractCall_def TransactionTypeStakeAdd_def TransactionTypeMinerAbort_def
  TransactionTypeStakeReduce_def TransactionTypeStakeRefund_def TransactionTypeApplyGuardMiner_def
  TransactionTypeVoteMinerPool_def TransactionTypeChangeFundGuardMode_def
  TransactionTypeBlacklistUpdate_def TransactionTypeGroupPiece_def TransactionTypeGroupMpk_def
  TransactionTypeGroupOriginPiece_def TransactionTypeReward_def

datatype mOperation =
    StakeAdd stakeAddOp
  | MinerAbort minerAbortOp
  | StakeReduce stakeReduceOp
  | StakeRefund stakeRefundOp
  | ApplyGuard applyGuardMinerOp
  | VoteMinerPool voteMinerPoolOp
  | ChangeFundGuardMode changeFundGuardModeOp
  | MinerFreeze address u64
  | MinerPenalty minerPenaltyOp

definition parseStakeAdd :: "txMessage \<Rightarrow> u64 \<Rightarrow> (error + stakeAddOp) option" where
  "parseStakeAdd msg height =
    (case DecodePayload (Payload msg) of
       Inl e \<Rightarrow> Some (Inl e)
     | Inr m \<Rightarrow>
         (case (Operator msg, OpTarget msg) of
            (Some source, Some target) \<Rightarrow>
              if length (Pk m) > 0 \<and> source \<noteq> target
              then Some (Inl ''cann't specify target pubkeys when stakes for others'')
              else (case Amount msg of
                      None \<Rightarrow> None
                    | Some v \<Rightarrow> Some (Inr \<lparr>saPks = m, saValue = bigUint64 v, addSource = source,
                                          addTarget = target, saType = pksMType m, saHeight = height\<rparr>))
          | _ \<Rightarrow> None))"

definition parseMinerAbort :: "txMessage \<Rightarrow> u64 \<Rightarrow> (error + minerAbortOp) option" where
  "parseMinerAbort msg height =
    (case (Payload msg, Operator msg) of
       (t # _, Some a) \<Rightarrow> Some (Inr \<lparr>maAddr = a, maType = t, maHeight = height\<rparr>)
     | _ \<Rightarrow> None)"

definition parseStakeReduce :: "txMessage \<Rightarrow> u64 \<Rightarrow> (error + stakeReduceOp) option" where
  "parseStakeReduce msg height =
    (case (Payload msg, OpTarget msg, Operator msg, Amount msg) of
       (t # _, Some target, Some source, Some v) \<Rightarrow>
         Some (Inr \<lparr>cancelTarget = target, cancelSource = source, srValue = bigUint64 v, srType = t, srHeight = height\<rparr>)
     | _ \<Rightarrow> None)"

definition parseStakeRefund :: "txMessage \<Rightarrow> u64 \<Rightarrow> (error + stakeRefundOp) option" where
  "parseStakeRefund msg height =
    (case (Payload msg, OpTarget msg, Operator msg) of
       (t # _, Some target, Some source) \<Rightarrow>
         Some (Inr \<lparr>refundTarget = target, refundSource = source, rfType = t, rfHeight = height\<rparr>)
     | _ \<Rightarrow> None)"

definition parseApplyGuard :: "txMessage \<Rightarrow> u64 \<Rightarrow> (error + applyGuardMinerOp) option" where
  "parseApplyGuard msg height =
    map_option (\<lambda>a. Inr \<lparr>agTarget = a, agHeight = height\<rparr>) (Operator msg)"

definition parseVoteMinerPool :: "txMessage \<Rightarrow> u64 \<Rightarrow> (error + voteMinerPoolOp) option" where
  "parseVoteMinerPool msg height =
    (case OpTarget msg of
       None \<Rightarrow> Some (Inl ''target must be not nil'')
     | Some target \<Rightarrow>
         map_option (\<lambda>a. Inr \<lparr>vmSource = a, vmTarget = target, vmHeight = height\<rparr>) (Operator msg))"

definition fundGuardModeCheck :: "FundModeType \<Rightarrow> error option" where
  "fundGuardModeCheck md = (if md \<noteq> SIXAddFive \<and> md \<noteq> SIXAddSix then Some ''unknown fund guard mode'' else None)"

definition parseChangeFundGuardMode :: "txMessage \<Rightarrow> u64 \<Rightarrow> (error + changeFundGuardModeOp) option" where
  "parseChangeFundGuardMode msg height =
    (if length (Payload msg) \<noteq> 1 then Some (Inl ''data length should be 1'')
     else case fundGuardModeCheck (Payload msg ! 0) of
            Some e \<Rightarrow> Some (Inl e)
          | None \<Rightarrow> map_option (\<lambda>a. Inr \<lparr>cfSource = a, cfMode = Payload msg ! 0, cfHeight = height\<rparr>) (Operator msg))"

text \<open>
  The dispatch on the transaction type, restricted to miner transactions; the other types of
  \<^verbatim>\<open>getOpByType\<close> are in the theory of the state processor.
\<close>

definition parseMinerOp :: "txMessage \<Rightarrow> u64 \<Rightarrow> (error + mOperation) option" where
  "parseMinerOp msg height =
    (if OpType msg = TransactionTypeStakeAdd then map_option (map_sum id StakeAdd) (parseStakeAdd msg height)
     else if OpType msg = TransactionTypeMinerAbort then map_option (map_sum id MinerAbort) (parseMinerAbort msg height)
     else if OpType msg = TransactionTypeVoteMinerPool then map_option (map_sum id VoteMinerPool) (parseVoteMinerPool msg height)
     else if OpType msg = TransactionTypeStakeReduce then map_option (map_sum id StakeReduce) (parseStakeReduce msg height)
     else if OpType msg = TransactionTypeApplyGuardMiner then map_option (map_sum id ApplyGuard) (parseApplyGuard msg height)
     else if OpType msg = TransactionTypeStakeRefund then map_option (map_sum id StakeRefund) (parseStakeRefund msg height)
     else if OpType msg = TransactionTypeChangeFundGuardMode
     then map_option (map_sum id ChangeFundGuardMode) (parseChangeFundGuardMode msg height)
     else Some (Inl ''unSupported tx type''))"

fun mTransition :: "menv \<Rightarrow> mOperation \<Rightarrow> world \<Rightarrow> outcome option" where
  "mTransition E (StakeAdd op) w = stakeAdd_Transition E op w"
| "mTransition E (MinerAbort op) w = minerAbort_Transition E op w"
| "mTransition E (StakeReduce op) w = stakeReduce_Transition E op w"
| "mTransition E (StakeRefund op) w = stakeRefund_Transition E op w"
| "mTransition E (ApplyGuard op) w = applyGuard_Transition E op w"
| "mTransition E (VoteMinerPool op) w = voteMinerPool_Transition E op w"
| "mTransition E (ChangeFundGuardMode op) w = changeFundGuardMode_Transition E op w"
| "mTransition E (MinerFreeze a height) w = minerFreeze_Transition E a height w"
| "mTransition E (MinerPenalty op) w = minerPenalty_Transition E op w"

section \<open>Execution\<close>

text \<open>Reverting to the snapshot taken before the transition gives back the state before it.\<close>

definition executeOperation :: "menv \<Rightarrow> mOperation \<Rightarrow> world \<Rightarrow> (error option \<times> world) option" where
  "executeOperation E op w =
    (case mTransition E op w of
       None \<Rightarrow> None
     | Some (Some (e, rs), _) \<Rightarrow> Some (Some e, w)
     | Some (None, w1) \<Rightarrow> Some (None, w1))"

definition ExecuteOperation :: "menv \<Rightarrow> world \<Rightarrow> txMessage \<Rightarrow> u64 \<Rightarrow> (error option \<times> world) option" where
  "ExecuteOperation E w msg height =
    (case parseMinerOp msg height of
       None \<Rightarrow> None
     | Some (Inl e) \<Rightarrow> Some (Some e, w)
     | Some (Inr op) \<Rightarrow> executeOperation E op w)"

definition mm_MinerFrozen :: "menv \<Rightarrow> world \<Rightarrow> address \<Rightarrow> u64 \<Rightarrow> (error option \<times> world) option" where
  "mm_MinerFrozen E w miner height = executeOperation E (MinerFreeze miner height) w"

definition mm_MinerPenalty :: "menv \<Rightarrow> world \<Rightarrow> bytes list \<Rightarrow> bytes list \<Rightarrow> u64 \<Rightarrow> (error option \<times> world) option" where
  "mm_MinerPenalty E w penaltyTarget rewardTarget height =
    executeOperation E (MinerPenalty \<lparr>mpTargets = map BytesToAddress penaltyTarget,
      mpRewards = map BytesToAddress rewardTarget, mpValue = minimumStake, mpHeight = height\<rparr>) w"

section \<open>Guard node checks\<close>

text \<open>
  The entries a storage iterator yields from a prefix on are an argument: the iterator walks the
  committed trie of the address. The loop stops at the first key without the prefix.
\<close>

type_synonym entries = "(bytes \<times> bytes) list"

definition hasPrefix :: "bytes \<Rightarrow> bytes \<Rightarrow> bool" where
  "hasPrefix b p \<longleftrightarrow> take (length p) b = p"

definition GetAllFullStakeGuardNodes :: "entries \<Rightarrow> address list" where
  "GetAllFullStakeGuardNodes iter =
    map (\<lambda>(k, _). BytesToAddress (drop (length KeyGuardNodes) k)) (takeWhile (\<lambda>(k, _). hasPrefix k KeyGuardNodes) iter)"

fun decodeGuards :: "menv \<Rightarrow> entries \<Rightarrow> error + (address \<times> fundGuardNode) list" where
  "decodeGuards E [] = Inr []"
| "decodeGuards E ((k, v) # r) =
    (if \<not> hasPrefix k KeyGuardNodes then Inr []
     else case unmarshalGuard E v of
            None \<Rightarrow> Inl ''get fund guard nodes error''
          | Some fn \<Rightarrow> (case decodeGuards E r of
                         Inl e \<Rightarrow> Inl e
                       | Inr fds \<Rightarrow> Inr ((BytesToAddress (drop (length KeyGuardNodes) k), fn) # fds)))"

definition GetAllFundStakeGuardNodes :: "menv \<Rightarrow> entries \<Rightarrow> error + (address \<times> fundGuardNode) list" where
  "GetAllFundStakeGuardNodes E iter = decodeGuards E iter"

definition GetAllGuardNodeAddrs :: "menv \<Rightarrow> entries \<Rightarrow> entries \<Rightarrow> error option \<times> address list" where
  "GetAllGuardNodeAddrs E fullIter fundIter =
    (let addrs = GetAllFullStakeGuardNodes fullIter
     in case GetAllFundStakeGuardNodes E fundIter of
          Inl e \<Rightarrow> (Some e, addrs)
        | Inr fds \<Rightarrow> (None, addrs @ map fst (filter (\<lambda>(_, fn). isGuardNode fn) fds)))"

definition checkInterval :: u64 where "checkInterval = 1000"

text \<open>The nodes of one mode that are still fund guards become normal nodes; their addresses are returned.\<close>

fun expireFunds :: "menv \<Rightarrow> (fundGuardNode \<Rightarrow> bool) \<Rightarrow> u64 \<Rightarrow> (address \<times> fundGuardNode) list \<Rightarrow> world \<Rightarrow> error + address list \<times> world" where
  "expireFunds E mode height [] w = Inr ([], w)"
| "expireFunds E mode height ((a, fn) # fds) w =
    (if \<not> isFundGuard fn then expireFunds E mode height fds w
     else if \<not> mode fn then expireFunds E mode height fds w
     else case updateFundGuardPoolStatus E w a normalNodeType height of
            Inl e \<Rightarrow> Inl e
          | Inr w1 \<Rightarrow> (case expireFunds E mode height fds w1 of
                         Inl e \<Rightarrow> Inl e
                       | Inr (as, w2) \<Rightarrow> Inr (a # as, w2)))"

definition fundGuardSixAddFiveNodesCheck :: "menv \<Rightarrow> entries \<Rightarrow> u64 \<Rightarrow> world \<Rightarrow> error + address list \<times> world" where
  "fundGuardSixAddFiveNodesCheck E iter height w =
    (if height < adjustWeightPeriod div 2 \<or> height > adjustWeightPeriod * 2 then Inr ([], w)
     else if height mod checkInterval \<noteq> 0 then Inr ([], w)
     else if hasScanedSixAddFiveFundGuards w then Inr ([], w)
     else case GetAllFundStakeGuardNodes E iter of
            Inl e \<Rightarrow> Inl e
          | Inr fds \<Rightarrow> (case expireFunds E isSixAddFive height fds w of
                          Inl e \<Rightarrow> Inl e
                        | Inr (as, w1) \<Rightarrow> Inr (as, markScanedSixAddFiveFundGuards w1)))"

definition fundGuardSixAddSixNodesCheck :: "menv \<Rightarrow> entries \<Rightarrow> u64 \<Rightarrow> world \<Rightarrow> error + address list \<times> world" where
  "fundGuardSixAddSixNodesCheck E iter height w =
    (if height < adjustWeightPeriod \<or> height > adjustWeightPeriod * 3 then Inr ([], w)
     else if height mod checkInterval \<noteq> 0 then Inr ([], w)
     else if hasScanedSixAddSixFundGuards w then Inr ([], w)
     else case GetAllFundStakeGuardNodes E iter of
            Inl e \<Rightarrow> Inl e
          | Inr fds \<Rightarrow> (case expireFunds E isSixAddSix height fds w of
                          Inl e \<Rightarrow> Inl e
                        | Inr (as, w1) \<Rightarrow> Inr (as, markScanedSixAddSixFundGuards w1)))"

definition FundGuardExpiredCheck :: "menv \<Rightarrow> entries \<Rightarrow> u64 \<Rightarrow> world \<Rightarrow> error + address list \<times> world" where
  "FundGuardExpiredCheck E iter height w =
    (case fundGuardSixAddFiveNodesCheck E iter height w of
       Inl e \<Rightarrow> Inl e
     | Inr (as, w1) \<Rightarrow> (case fundGuardSixAddSixNodesCheck E iter height w1 of
                          Inl e \<Rightarrow> Inl e
                        | Inr (bs, w2) \<Rightarrow> Inr (as @ bs, w2)))"

definition checkFullStakeGuardNodeExpired :: "menv \<Rightarrow> address \<Rightarrow> u64 \<Rightarrow> world \<Rightarrow> error + bool \<times> world" where
  "checkFullStakeGuardNodeExpired E a height w =
    (let detailKey = getDetailKey a MinerTypeProposal Staked
     in case getDetail E w a detailKey of
          Inl e \<Rightarrow> Inl e
        | Inr None \<Rightarrow> Inl ''check guard nodes,find stake detail is nil''
        | Inr (Some d) \<Rightarrow>
            if height > DisMissHeight d + stakeBuffer then Inr (True, w)
            else if MarkNotFullHeight d > 0 then Inr (height > MarkNotFullHeight d + stakeBuffer, w)
            else if \<not> isFullStake (sdValue d) height then
              (case setDetail E w a detailKey (d\<lparr>MarkNotFullHeight := height\<rparr>) of
                 Inl e \<Rightarrow> Inl e
               | Inr w1 \<Rightarrow> Inr (False, w1))
            else Inr (False, w))"

fun fullStakeExpired :: "menv \<Rightarrow> u64 \<Rightarrow> address list \<Rightarrow> world \<Rightarrow> error + address list \<times> world" where
  "fullStakeExpired E height [] w = Inr ([], w)"
| "fullStakeExpired E height (a # as) w =
    (case checkFullStakeGuardNodeExpired E a height w of
       Inl e \<Rightarrow> Inl e
     | Inr (isExpired, w1) \<Rightarrow>
         (case fullStakeExpired E height as w1 of
            Inl e \<Rightarrow> Inl e
          | Inr (bs, w2) \<Rightarrow> Inr (if isExpired then a # bs else bs, w2)))"

definition FullStakeGuardNodesCheck :: "menv \<Rightarrow> entries \<Rightarrow> u64 \<Rightarrow> world \<Rightarrow> error + address list \<times> world" where
  "FullStakeGuardNodesCheck E iter height w =
    (if height < adjustWeightPeriod div 2 then Inr ([], w)
     else if height mod checkInterval \<noteq> 0 then Inr ([], w)
     else fullStakeExpired E height (GetAllFullStakeGuardNodes iter) w)"

text \<open>The expiry loop: the first error reverts to the state before the check and stops.\<close>

fun expireGuards :: "menv \<Rightarrow> u64 \<Rightarrow> bool \<Rightarrow> world \<Rightarrow> address list \<Rightarrow> world \<Rightarrow> world option" where
  "expireGuards E height isFund snapshot [] w = Some w"
| "expireGuards E height isFund snapshot (a # as) w =
    (case guardNodeExpired E a height isFund w of
       None \<Rightarrow> None
     | Some (Some _, _) \<Rightarrow> Some snapshot
     | Some (None, w1) \<Rightarrow> expireGuards E height isFund snapshot as w1)"

definition GuardNodesCheck :: "menv \<Rightarrow> entries \<Rightarrow> entries \<Rightarrow> u64 \<Rightarrow> world \<Rightarrow> world option" where
  "GuardNodesCheck E fullIter fundIter height w =
    (case (case FullStakeGuardNodesCheck E fullIter height w of
             Inl e \<Rightarrow> Some w
           | Inr (expired, w1) \<Rightarrow> expireGuards E height False w expired w1) of
       None \<Rightarrow> None
     | Some w2 \<Rightarrow>
         (case FundGuardExpiredCheck E fundIter height w2 of
            Inl e \<Rightarrow> Some w2
          | Inr (expired, w3) \<Rightarrow> expireGuards E height True w2 expired w3))"

end
