(* ===== verification/Miner_Frame.thy ===== *)
theory Miner_Frame
  imports Miner_Manager
begin

text \<open>
  What each write of the miner code changes and what it leaves alone. The keys of different record
  kinds are distinct (most of them by length), so a write to one slot does not show in another.
\<close>

section \<open>Distinct keys\<close>

lemma prefix_lengths [simp]:
  "length PrefixMiner = 5" "length PrefixDetail = 2" "length PrefixPoolProposal = 1"
  "length PrefixPoolVerifier = 1" "length KeyPoolProposalTotalStake = 10" "length KeyVote = 7"
  "length KeyTickets = 7" "length KeyGuardNodes = 5" "length KeyScanSixAddFiveNodes = 2"
  "length KeyScanSixAddSixNodes = 2"
  by (simp_all add: key_defs)

lemma key_lengths [simp]:
  "length (getMinerKey t) = 6"
  "fixed32 a \<Longrightarrow> length (getDetailKey a t s) = 36"
  "fixed32 a \<Longrightarrow> length (getTicketsKey a) = 39"
  "fixed32 a \<Longrightarrow> length (getFundGuardKey KeyGuardNodes a) = 37"
  by (simp_all add: getMinerKey_def getDetailKey_def getTicketsKey_def getFundGuardKey_def fixed32_def)

lemma poolKey_length: "fixed32 a \<Longrightarrow> length (poolKey t a) = (if IsProposalRole t \<or> IsVerifyRole t then 33 else 0)"
  by (simp add: poolKey_def getPoolKey_def fixed32_def)

lemma ne_by_length: "length x \<noteq> length y \<Longrightarrow> x \<noteq> y" by auto

lemma poolKey_not_length: "fixed32 a \<Longrightarrow> length k \<noteq> 33 \<Longrightarrow> length k \<noteq> 0 \<Longrightarrow> poolKey t a \<noteq> k"
  by (rule ne_by_length) (simp add: poolKey_length)

lemma minerKey_ne [simp]:
  "getMinerKey t \<noteq> KeyPoolProposalTotalStake" "getMinerKey t \<noteq> KeyVote"
  "KeyPoolProposalTotalStake \<noteq> getMinerKey t" "KeyVote \<noteq> getMinerKey t"
  "fixed32 a \<Longrightarrow> getDetailKey a u s \<noteq> getMinerKey t" "fixed32 a \<Longrightarrow> getTicketsKey a \<noteq> getMinerKey t"
  "fixed32 a \<Longrightarrow> getFundGuardKey KeyGuardNodes a \<noteq> getMinerKey t" "fixed32 a \<Longrightarrow> poolKey u a \<noteq> getMinerKey t"
  "KeyScanSixAddFiveNodes \<noteq> getMinerKey t" "KeyScanSixAddSixNodes \<noteq> getMinerKey t"
  by (auto intro!: ne_by_length simp: poolKey_length split: if_splits)

lemma detailKey_ne [simp]:
  "fixed32 a \<Longrightarrow> getMinerKey t \<noteq> getDetailKey a u s" "fixed32 a \<Longrightarrow> KeyVote \<noteq> getDetailKey a u s"
  "fixed32 a \<Longrightarrow> KeyPoolProposalTotalStake \<noteq> getDetailKey a u s"
  "fixed32 a \<Longrightarrow> fixed32 b \<Longrightarrow> getTicketsKey b \<noteq> getDetailKey a u s"
  "fixed32 a \<Longrightarrow> fixed32 b \<Longrightarrow> getFundGuardKey KeyGuardNodes b \<noteq> getDetailKey a u s"
  "fixed32 a \<Longrightarrow> fixed32 b \<Longrightarrow> poolKey t b \<noteq> getDetailKey a u s"
  by (auto intro!: ne_by_length simp: poolKey_length split: if_splits)

lemma totalKey_ne [simp]:
  "fixed32 a \<Longrightarrow> getDetailKey a u s \<noteq> KeyPoolProposalTotalStake" "KeyVote \<noteq> KeyPoolProposalTotalStake"
  "fixed32 a \<Longrightarrow> getTicketsKey a \<noteq> KeyPoolProposalTotalStake"
  "fixed32 a \<Longrightarrow> getFundGuardKey KeyGuardNodes a \<noteq> KeyPoolProposalTotalStake"
  "fixed32 a \<Longrightarrow> poolKey t a \<noteq> KeyPoolProposalTotalStake"
  by (auto intro!: ne_by_length simp: poolKey_length split: if_splits)

lemma poolKey_ne [simp]:
  "fixed32 a \<Longrightarrow> getMinerKey t \<noteq> poolKey MinerTypeProposal a"
  "fixed32 a \<Longrightarrow> KeyPoolProposalTotalStake \<noteq> poolKey MinerTypeProposal a"
  "fixed32 a \<Longrightarrow> KeyVote \<noteq> poolKey MinerTypeProposal a"
  "fixed32 a \<Longrightarrow> fixed32 b \<Longrightarrow> getDetailKey b u s \<noteq> poolKey MinerTypeProposal a"
  "fixed32 a \<Longrightarrow> fixed32 b \<Longrightarrow> getTicketsKey b \<noteq> poolKey MinerTypeProposal a"
  "fixed32 a \<Longrightarrow> fixed32 b \<Longrightarrow> getFundGuardKey KeyGuardNodes b \<noteq> poolKey MinerTypeProposal a"
  by (auto intro!: ne_by_length simp: poolKey_length IsProposalRole_def split: if_splits)

lemma poolKey_inj:
  "fixed32 a \<Longrightarrow> fixed32 b \<Longrightarrow> poolKey t a = poolKey MinerTypeProposal b \<longleftrightarrow> t = MinerTypeProposal \<and> a = b"
  by (auto simp: poolKey_def getPoolKey_def IsProposalRole_def IsVerifyRole_def key_defs fixed32_def)

lemma minerKey_inj [simp]: "getMinerKey t = getMinerKey u \<longleftrightarrow> t = u"
  by (simp add: getMinerKey_def)

lemma detailKey_inj:
  "fixed32 a \<Longrightarrow> fixed32 b \<Longrightarrow> getDetailKey a t s = getDetailKey b u r \<longleftrightarrow> a = b \<and> t = u \<and> s = r"
  by (auto simp: getDetailKey_def fixed32_def)

lemma fixed32_consts [simp]:
  "fixed32 MinerPoolAddr" "fixed32 MinerPoolTicketsAddr" "fixed32 FundGuardNodeAddr"
  "fixed32 FullStakeGuardNodeAddr" "fixed32 ScanAllFundGuardStatusAddr" "fixed32 PunishmentDetailAddr"
  "fixed32 emptyAddress"
  by (simp_all add: MinerPoolAddr_def MinerPoolTicketsAddr_def FundGuardNodeAddr_def FullStakeGuardNodeAddr_def
      ScanAllFundGuardStatusAddr_def PunishmentDetailAddr_def numAddress_def emptyAddress_def fixed32_def
      del: fixed32_BytesToAddress) (simp_all add: fixed32_def [symmetric])

section \<open>What is seen of the state\<close>

text \<open>The three observations the pool invariant speaks of, and the value of a stake detail.\<close>

definition inPool :: "world \<Rightarrow> address \<Rightarrow> bool" where
  "inPool w a \<longleftrightarrow> w_GetData w MinerPoolAddr (poolKey MinerTypeProposal a) \<noteq> None"

definition detailVal :: "menv \<Rightarrow> world \<Rightarrow> address \<Rightarrow> address \<Rightarrow> MinerType \<Rightarrow> StakeStatus \<Rightarrow> nat" where
  "detailVal E w a src t st =
    (case getDetail E w a (getDetailKey src t st) of Inr (Some d) \<Rightarrow> unat (sdValue d) | _ \<Rightarrow> 0)"

lemma observers_cong:
  assumes "\<And>b k. w_GetData w' b k = w_GetData w b k"
  shows "getMiner E w' = getMiner E w" "getProposalTotalStake w' = getProposalTotalStake w"
    "inPool w' = inPool w" "getDetail E w' = getDetail E w"
  using assms by (simp_all add: fun_eq_iff getMiner_def getProposalTotalStake_def inPool_def getDetail_def)

lemma observe_reduceBalance:
  assumes "reduceBalance w a v = Inr w'"
  shows "getMiner E w' = getMiner E w" "getProposalTotalStake w' = getProposalTotalStake w" "inPool w' = inPool w" "getDetail E w' = getDetail E w"
  by (rule observers_cong; use reduceBalance_Inr [OF assms] in simp)+

lemma observe_balance [simp]:
  "getMiner E (w_AddBalance w a n) = getMiner E w" "getMiner E (w_SubBalance w a n) = getMiner E w"
  "getDetail E (w_AddBalance w a n) = getDetail E w" "getDetail E (w_SubBalance w a n) = getDetail E w"
  "getProposalTotalStake (w_AddBalance w a n) = getProposalTotalStake w"
  "getProposalTotalStake (w_SubBalance w a n) = getProposalTotalStake w"
  "inPool (w_AddBalance w a n) = inPool w" "inPool (w_SubBalance w a n) = inPool w"
  by (rule observers_cong; simp)+

lemma getMiner_SetData [simp]:
  "k \<noteq> getMinerKey t \<Longrightarrow> getMiner E (w_SetData w a k v) b t = getMiner E w b t"
  "k \<noteq> getMinerKey t \<Longrightarrow> getMiner E (w_RemoveData w a k) b t = getMiner E w b t"
  by (simp_all add: getMiner_def)

lemma getDetail_SetData [simp]:
  "k \<noteq> j \<Longrightarrow> getDetail E (w_SetData w a k v) b j = getDetail E w b j"
  "k \<noteq> j \<Longrightarrow> getDetail E (w_RemoveData w a k) b j = getDetail E w b j"
  "a \<noteq> b \<Longrightarrow> getDetail E (w_SetData w a k v) b j = getDetail E w b j"
  "a \<noteq> b \<Longrightarrow> getDetail E (w_RemoveData w a k) b j = getDetail E w b j"
  by (simp_all add: getDetail_def)

lemma total_SetData [simp]:
  "k \<noteq> KeyPoolProposalTotalStake \<Longrightarrow> getProposalTotalStake (w_SetData w a k v) = getProposalTotalStake w"
  "k \<noteq> KeyPoolProposalTotalStake \<Longrightarrow> getProposalTotalStake (w_RemoveData w a k) = getProposalTotalStake w"
  by (simp_all add: getProposalTotalStake_def)

lemma total_set [simp]: "getProposalTotalStake (setProposalTotalStake w v) = v"
  by (simp add: getProposalTotalStake_def setProposalTotalStake_def)

lemma inPool_SetData [simp]:
  "k \<noteq> poolKey MinerTypeProposal b \<Longrightarrow> inPool (w_SetData w a k v) b = inPool w b"
  "k \<noteq> poolKey MinerTypeProposal b \<Longrightarrow> inPool (w_RemoveData w a k) b = inPool w b"
  by (simp_all add: inPool_def)

lemma inPool_pool:
  "fixed32 a \<Longrightarrow> fixed32 b \<Longrightarrow>
   inPool (w_SetData w MinerPoolAddr (poolKey t a) (Some v)) b = (if t = MinerTypeProposal \<and> a = b then True else inPool w b)"
  "fixed32 a \<Longrightarrow> fixed32 b \<Longrightarrow>
   inPool (w_RemoveData w MinerPoolAddr (poolKey t a)) b = (if t = MinerTypeProposal \<and> a = b then False else inPool w b)"
  by (auto simp: inPool_def poolKey_inj)

lemma set_total_frame [simp]:
  "getMiner E (setProposalTotalStake w v) = getMiner E w"
  "fixed32 b \<Longrightarrow> inPool (setProposalTotalStake w v) b = inPool w b"
  "wBalance (setProposalTotalStake w v) = wBalance w"
  by (simp_all add: setProposalTotalStake_def fun_eq_iff)

lemma set_total_detail [simp]:
  "fixed32 src \<Longrightarrow> getDetail E (setProposalTotalStake w v) b (getDetailKey src t s) = getDetail E w b (getDetailKey src t s)"
  by (simp add: setProposalTotalStake_def)

section \<open>Typed writes under the codec laws\<close>

lemma codecLawD:
  assumes "codecLaw typed enc dec" and "typed x"
  obtains b where "enc x = Some b" "b \<noteq> []" "dec b = Some x"
  using assms by (auto simp: codecLaw_def)

lemma codecsOkD:
  "codecsOk E \<Longrightarrow> codecLaw (\<lambda>_. True) (marshalMiner E) (unmarshalMiner E)"
  "codecsOk E \<Longrightarrow> codecLaw (\<lambda>_. True) (marshalDetail E) (unmarshalDetail E)"
  "codecsOk E \<Longrightarrow> codecLaw (\<lambda>v. fixed32 (vTarget v)) (marshalVote E) (unmarshalVote E)"
  "codecsOk E \<Longrightarrow> codecLaw (\<lambda>_. True) (marshalGuard E) (unmarshalGuard E)"
  by (simp_all add: codecsOk_def)

lemma setMiner_ok:
  assumes "codecsOk E"
  obtains bs where "setMiner E w m = Inr (w_SetData w (BytesToAddress (ID m)) (getMinerKey (MType m)) (Some bs))"
    "\<And>w a t. getMiner E (w_SetData w a (getMinerKey t) (Some bs)) a t = Inr (Some m)"
proof -
  obtain b where "marshalMiner E m = Some b" "b \<noteq> []" "unmarshalMiner E b = Some m"
    by (rule codecLawD [OF codecsOkD(1) [OF assms] TrueI])
  with that [of b] show thesis by (simp add: setMiner_def getMiner_def)
qed

lemma setMiner_Inr:
  assumes "codecsOk E" and "setMiner E w m = Inr w'"
  shows "getMiner E w' b t = (if b = BytesToAddress (ID m) \<and> t = MType m then Inr (Some m) else getMiner E w b t)"
    and "fixed32 b \<Longrightarrow> inPool w' b = inPool w b"
    and "getProposalTotalStake w' = getProposalTotalStake w" and "wBalance w' = wBalance w"
    and "fixed32 src \<Longrightarrow> getDetail E w' b (getDetailKey src u s) = getDetail E w b (getDetailKey src u s)"
proof -
  obtain bs where
    r: "setMiner E w m = Inr (w_SetData w (BytesToAddress (ID m)) (getMinerKey (MType m)) (Some bs))"
    and g: "\<And>w a t. getMiner E (w_SetData w a (getMinerKey t) (Some bs)) a t = Inr (Some m)"
    using setMiner_ok [OF assms(1), of w m] by blast
  from r assms(2) have w': "w' = w_SetData w (BytesToAddress (ID m)) (getMinerKey (MType m)) (Some bs)" by simp
  show "getMiner E w' b t = (if b = BytesToAddress (ID m) \<and> t = MType m then Inr (Some m) else getMiner E w b t)"
    using g by (auto simp: w') (simp_all add: getMiner_def)
  show "fixed32 b \<Longrightarrow> inPool w' b = inPool w b" "getProposalTotalStake w' = getProposalTotalStake w"
    "wBalance w' = wBalance w" by (simp_all add: w')
  show "fixed32 src \<Longrightarrow> getDetail E w' b (getDetailKey src u s) = getDetail E w b (getDetailKey src u s)"
    by (simp add: w')
qed

lemma setDetail_Inr:
  assumes "codecsOk E" and "setDetail E w a (getDetailKey src t s) d = Inr w'" and "fixed32 src"
  shows "getMiner E w' b u = getMiner E w b u"
    and "fixed32 b \<Longrightarrow> inPool w' b = inPool w b"
    and "getProposalTotalStake w' = getProposalTotalStake w" and "wBalance w' = wBalance w"
    and "fixed32 y \<Longrightarrow> getDetail E w' b (getDetailKey y u r) =
      (if b = a \<and> y = src \<and> u = t \<and> r = s then Inr (Some d) else getDetail E w b (getDetailKey y u r))"
proof -
  obtain bs where "marshalDetail E d = Some bs" "bs \<noteq> []" "unmarshalDetail E bs = Some d"
    by (rule codecLawD [OF codecsOkD(2) [OF assms(1)] TrueI])
  note c = this
  from c assms(2) have w': "w' = w_SetData w a (getDetailKey src t s) (Some bs)" by (simp add: setDetail_def)
  show "getMiner E w' b u = getMiner E w b u" "getProposalTotalStake w' = getProposalTotalStake w"
    "wBalance w' = wBalance w" using assms(3) by (simp_all add: w')
  show "fixed32 b \<Longrightarrow> inPool w' b = inPool w b" using assms(3) by (simp add: w')
  assume "fixed32 y"
  with c assms(3) show "getDetail E w' b (getDetailKey y u r) =
      (if b = a \<and> y = src \<and> u = t \<and> r = s then Inr (Some d) else getDetail E w b (getDetailKey y u r))"
    by (auto simp: w' detailKey_inj getDetail_def parseDetail_def)
qed

lemma vote_target_fixed:
  "codecsOk E \<Longrightarrow> getVoteInfo E w a = Inr (Some v) \<Longrightarrow> fixed32 (vTarget v)"
  by (auto simp: codecsOk_def codecLaw_def getVoteInfo_def split: option.splits)

end
