(* ===== verification/Miner_Pool.thy ===== *)
theory Miner_Pool
  imports Miner_Frame
begin

text \<open>
  The pool invariant: the proposers registered in the pool are exactly the active proposal miners,
  and the stored total proposal stake is the sum of their stakes. Every miner operation preserves
  it, so the stored total never falls below a registered stake.
\<close>

section \<open>The invariant\<close>

definition contrib :: "Miner \<Rightarrow> nat" where
  "contrib m = (if IsActive m then unat (Stake m) else 0)"

definition stakeOf :: "menv \<Rightarrow> world \<Rightarrow> address \<Rightarrow> nat" where
  "stakeOf E w a = (case getMiner E w a MinerTypeProposal of Inr (Some m) \<Rightarrow> contrib m | _ \<Rightarrow> 0)"

definition proposers :: "menv \<Rightarrow> world \<Rightarrow> address set" where
  "proposers E w = {a. fixed32 a \<and> (\<exists>m. getMiner E w a MinerTypeProposal = Inr (Some m) \<and> IsActive m)}"

definition minersNamed :: "menv \<Rightarrow> world \<Rightarrow> bool" where
  "minersNamed E w \<longleftrightarrow>
    (\<forall>a t m. fixed32 a \<longrightarrow> getMiner E w a t = Inr (Some m) \<longrightarrow> BytesToAddress (ID m) = a \<and> MType m = t)"

definition poolInv :: "menv \<Rightarrow> world \<Rightarrow> bool" where
  "poolInv E w \<longleftrightarrow> finite (proposers E w) \<and> minersNamed E w \<and>
    (\<forall>a. fixed32 a \<longrightarrow> inPool w a = (a \<in> proposers E w)) \<and>
    unat (getProposalTotalStake w) = (\<Sum>a\<in>proposers E w. stakeOf E w a)"

lemma stakeOf_outside: "fixed32 a \<Longrightarrow> a \<notin> proposers E w \<Longrightarrow> stakeOf E w a = 0"
  by (auto simp: stakeOf_def proposers_def contrib_def split: sum.splits option.splits)

lemma poolInv_total_insert:
  assumes "poolInv E w" and "fixed32 a"
  shows "unat (getProposalTotalStake w) = (\<Sum>b\<in>proposers E w - {a}. stakeOf E w b) + stakeOf E w a"
proof (cases "a \<in> proposers E w")
  case True
  with assms show ?thesis by (simp add: poolInv_def sum.remove [of _ a])
next
  case False
  with assms stakeOf_outside show ?thesis by (simp add: poolInv_def)
qed

lemma poolInv_stake_le:
  "poolInv E w \<Longrightarrow> fixed32 a \<Longrightarrow> stakeOf E w a \<le> unat (getProposalTotalStake w)"
  by (simp add: poolInv_total_insert)

lemma stakeOf_Some: "getMiner E w a MinerTypeProposal = Inr (Some m) \<Longrightarrow> stakeOf E w a = contrib m"
  by (simp add: stakeOf_def)

lemma stakeOf_None: "getMiner E w a MinerTypeProposal = Inr None \<Longrightarrow> stakeOf E w a = 0"
  by (simp add: stakeOf_def)

section \<open>One miner changes\<close>

text \<open>
  A step that replaces the record of one miner keeps the invariant when the pool membership
  follows the new status and the total follows the difference of the contributions.
\<close>

definition minerUpd :: "menv \<Rightarrow> world \<Rightarrow> world \<Rightarrow> address \<Rightarrow> MinerType \<Rightarrow> Miner \<Rightarrow> bool" where
  "minerUpd E w w' a t m \<longleftrightarrow>
    (\<forall>b u. fixed32 b \<longrightarrow> getMiner E w' b u = (if b = a \<and> u = t then Inr (Some m) else getMiner E w b u))"

definition poolUpd :: "menv \<Rightarrow> world \<Rightarrow> world \<Rightarrow> address \<Rightarrow> MinerType \<Rightarrow> Miner \<Rightarrow> bool" where
  "poolUpd E w w' a t m \<longleftrightarrow>
    (\<forall>b. fixed32 b \<longrightarrow> inPool w' b = (if b = a \<and> t = MinerTypeProposal then IsActive m else inPool w b)) \<and>
    (if t = MinerTypeProposal
     then unat (getProposalTotalStake w') + stakeOf E w a = unat (getProposalTotalStake w) + contrib m
     else getProposalTotalStake w' = getProposalTotalStake w)"

lemma minerUpdD:
  "minerUpd E w w' a t m \<Longrightarrow> fixed32 b \<Longrightarrow>
   getMiner E w' b u = (if b = a \<and> u = t then Inr (Some m) else getMiner E w b u)"
  by (simp add: minerUpd_def)

lemma proposers_upd:
  assumes "minerUpd E w w' a t m" and "fixed32 a"
  shows "proposers E w' =
    (if t \<noteq> MinerTypeProposal then proposers E w
     else if IsActive m then insert a (proposers E w - {a}) else proposers E w - {a})"
  using assms(2) by (auto simp: proposers_def minerUpdD [OF assms(1)] split: if_splits)

lemma stakeOf_upd:
  assumes "minerUpd E w w' a t m" and "fixed32 b"
  shows "stakeOf E w' b = (if b = a \<and> t = MinerTypeProposal then contrib m else stakeOf E w b)"
  using assms(2) by (auto simp: stakeOf_def minerUpdD [OF assms(1)])

lemma minersNamed_upd:
  "minersNamed E w \<Longrightarrow> minerUpd E w w' a t m \<Longrightarrow> BytesToAddress (ID m) = a \<Longrightarrow> MType m = t \<Longrightarrow> minersNamed E w'"
  by (auto simp: minersNamed_def minerUpdD split: if_splits)

lemma poolInv_step:
  assumes inv: "poolInv E w" and a: "fixed32 a" and upd: "minerUpd E w w' a t m"
    and "BytesToAddress (ID m) = a" "MType m = t" and pool: "poolUpd E w w' a t m"
  shows "poolInv E w'"
proof -
  let ?P = "proposers E w" and ?P' = "proposers E w'"
  have P': "?P' = (if t \<noteq> MinerTypeProposal then ?P else if IsActive m then insert a (?P - {a}) else ?P - {a})"
    using upd a by (rule proposers_upd)
  have fin: "finite ?P" using inv by (simp add: poolInv_def)
  have f32: "fixed32 b" if "b \<in> ?P" for b using that by (simp add: proposers_def)
  have rest: "(\<Sum>b\<in>?P - {a}. stakeOf E w' b) = (\<Sum>b\<in>?P - {a}. stakeOf E w b)"
    by (rule sum.cong) (use stakeOf_upd [OF upd] f32 in auto)
  have same: "(\<Sum>b\<in>?P. stakeOf E w' b) = (\<Sum>b\<in>?P. stakeOf E w b)" if "t \<noteq> MinerTypeProposal"
    by (rule sum.cong) (use stakeOf_upd [OF upd] f32 that in auto)
  have "unat (getProposalTotalStake w') = (\<Sum>b\<in>?P'. stakeOf E w' b)"
  proof (cases "t = MinerTypeProposal")
    case False
    with same pool inv show ?thesis by (simp add: P' poolUpd_def poolInv_def)
  next
    case True
    have "(\<Sum>b\<in>?P'. stakeOf E w' b) = (\<Sum>b\<in>?P - {a}. stakeOf E w b) + contrib m"
      using True fin rest stakeOf_upd [OF upd a] by (simp add: P' contrib_def add.commute sum.insert_remove)
    moreover have "unat (getProposalTotalStake w') + stakeOf E w a = unat (getProposalTotalStake w) + contrib m"
      using pool True by (simp add: poolUpd_def)
    ultimately show ?thesis using poolInv_total_insert [OF inv a] by linarith
  qed
  moreover have "inPool w' b = (b \<in> ?P')" if "fixed32 b" for b
    using inv pool that by (auto simp: P' poolInv_def poolUpd_def)
  moreover have "finite ?P'" using fin by (simp add: P')
  moreover have "minersNamed E w'" using inv upd assms(4,5) by (auto simp: poolInv_def intro: minersNamed_upd)
  ultimately show ?thesis by (simp add: poolInv_def)
qed

text \<open>Writes to other slots: nothing the invariants speak of changes.\<close>

definition quiet :: "menv \<Rightarrow> world \<Rightarrow> world \<Rightarrow> bool" where
  "quiet E w w' \<longleftrightarrow>
    (\<forall>b u. fixed32 b \<longrightarrow> getMiner E w' b u = getMiner E w b u) \<and> (\<forall>b. fixed32 b \<longrightarrow> inPool w' b = inPool w b) \<and>
    getProposalTotalStake w' = getProposalTotalStake w"

lemma quiet_refl [simp]: "quiet E w w" by (simp add: quiet_def)

lemma quiet_trans [trans]: "quiet E w v \<Longrightarrow> quiet E v u \<Longrightarrow> quiet E w u" by (simp add: quiet_def)

lemma quiet_inv:
  assumes "quiet E w w'" and "poolInv E w"
  shows "poolInv E w'"
proof -
  have P: "proposers E w' = proposers E w" using assms(1) by (auto simp: quiet_def proposers_def)
  moreover have "(\<Sum>a\<in>proposers E w. stakeOf E w' a) = (\<Sum>a\<in>proposers E w. stakeOf E w a)"
    by (rule sum.cong) (use assms(1) in \<open>auto simp: quiet_def stakeOf_def proposers_def\<close>)
  moreover have "minersNamed E w'" using assms by (auto simp: quiet_def poolInv_def minersNamed_def)
  ultimately show ?thesis using assms by (auto simp: quiet_def poolInv_def)
qed

lemma quiet_balance [simp]: "quiet E w (w_AddBalance w a n)" "quiet E w (w_SubBalance w a n)"
  by (simp_all add: quiet_def)

lemma quiet_detail:
  "codecsOk E \<Longrightarrow> fixed32 src \<Longrightarrow> setDetail E w a (getDetailKey src t s) d = Inr w' \<Longrightarrow> quiet E w w'"
  using setDetail_Inr(1-3) by (simp add: quiet_def)

lemma quiet_removeDetail: "fixed32 src \<Longrightarrow> quiet E w (removeDetail w a (getDetailKey src t s))"
  by (simp add: quiet_def removeDetail_def)

lemma quiet_vote [simp]:
  "setVoteInfo E w a vf = Inr w' \<Longrightarrow> quiet E w w'" "voteMinerPool E w vf a b h = Inr w' \<Longrightarrow> quiet E w w'"
  "initVoteInfo E w a = Inr (v, w') \<Longrightarrow> quiet E w w'" "quiet E w (delVoteInfo w a)"
  by (auto simp: setVoteInfo_def voteMinerPool_def initVoteInfo_def delVoteInfo_def quiet_def split: option.splits)

lemma quiet_ticket [simp]:
  "fixed32 a \<Longrightarrow> addTicket w a = (n, w') \<Longrightarrow> quiet E w w'" "fixed32 a \<Longrightarrow> subTicket w a = (n, w') \<Longrightarrow> quiet E w w'"
  by (auto simp: addTicket_def subTicket_def quiet_def Let_def)

lemma quiet_guard [simp]:
  "fixed32 a \<Longrightarrow> quiet E w (addFullStakeGuardPool w a)"
  "fixed32 a \<Longrightarrow> quiet E w (removeFullStakeGuardNodeFromPool w a)"
  "fixed32 a \<Longrightarrow> setFundGuardNode E w a fn = Inr w' \<Longrightarrow> quiet E w w'"
  by (auto simp: addFullStakeGuardPool_def removeFullStakeGuardNodeFromPool_def setFundGuardNode_def quiet_def
      split: option.splits)

lemma quiet_guard_status:
  "fixed32 a \<Longrightarrow> updateFundGuardPoolStatus E w a ty h = Inr w' \<Longrightarrow> quiet E w w'"
  by (auto simp: updateFundGuardPoolStatus_def split: sum.splits option.splits)

lemma quiet_guard_mode: "fixed32 a \<Longrightarrow> updateFundGuardMode E w fn a md h = Inr w' \<Longrightarrow> quiet E w w'"
  by (simp add: updateFundGuardMode_def)

section \<open>Pool primitives\<close>

lemma removeFromPool_Some:
  assumes "removeFromPool w t a stake = Some w'" and "fixed32 a"
  shows "getMiner E w' b u = getMiner E w b u"
    and "fixed32 b \<Longrightarrow> inPool w' b = (if b = a \<and> t = MinerTypeProposal then False else inPool w b)"
    and "if t = MinerTypeProposal then unat (getProposalTotalStake w') + unat stake = unat (getProposalTotalStake w)
      else getProposalTotalStake w' = getProposalTotalStake w"
  using assms by (auto simp: removeFromPool_def Let_def IsProposalRole_def inPool_pool word_less_iff_unat
      unat_sub_no_borrow word_le_iff_unat not_less split: if_splits)

lemma addProposalTotalStake_Some:
  assumes "addProposalTotalStake w v = Some w'"
  shows "getMiner E w' b u = getMiner E w b u" and "fixed32 b \<Longrightarrow> inPool w' b = inPool w b"
    and "unat (getProposalTotalStake w') = unat (getProposalTotalStake w) + unat v"
  using assms unat_add_no_wrap [of "getProposalTotalStake w" v]
  by (auto simp: addProposalTotalStake_def Let_def add.commute split: if_splits)

lemma subProposalTotalStake_Some:
  assumes "subProposalTotalStake w v = Some w'"
  shows "getMiner E w' b u = getMiner E w b u" and "fixed32 b \<Longrightarrow> inPool w' b = inPool w b"
    and "unat (getProposalTotalStake w') + unat v = unat (getProposalTotalStake w)"
  using assms by (auto simp: subProposalTotalStake_def Let_def word_less_iff_unat unat_sub_no_borrow
      word_le_iff_unat not_less split: if_splits)

lemma addToPool_Some:
  assumes "addToPool w t a stake = Some w'" and "fixed32 a"
  shows "getMiner E w' b u = getMiner E w b u"
    and "fixed32 b \<Longrightarrow> inPool w' b = (if b = a \<and> t = MinerTypeProposal then True else inPool w b)"
    and "if t = MinerTypeProposal then unat (getProposalTotalStake w') = unat (getProposalTotalStake w) + unat stake
      else getProposalTotalStake w' = getProposalTotalStake w"
  using assms addProposalTotalStake_Some
  by (auto simp: addToPool_def IsProposalRole_def inPool_pool split: if_splits option.splits)

end
