(* ===== verification/Miner_Pool_Ops.thy ===== *)
theory Miner_Pool_Ops
  imports Miner_Pool
begin

text \<open>
  Every miner operation of \<^verbatim>\<open>src/core/miner_operation.go\<close> preserves the pool invariant, and none
  of them can reach the underflow panics of the pool code from a state that satisfies it.
\<close>

section \<open>Replacing one miner\<close>

lemma poolUpd_pool: "poolInv E w \<Longrightarrow> fixed32 a \<Longrightarrow> getMiner E w a MinerTypeProposal = Inr mo \<Longrightarrow>
    inPool w a = (case mo of None \<Rightarrow> False | Some m \<Rightarrow> IsActive m)"
  by (auto simp: poolInv_def proposers_def split: option.splits)

lemma setMiner_step:
  assumes "codecsOk E" and "poolInv E w" and "fixed32 a"
    and pre: "\<And>b u. fixed32 b \<Longrightarrow> getMiner E w1 b u = getMiner E w b u"
    and "poolUpd E w w1 a t m" and set: "setMiner E w1 m = Inr w2"
    and id: "BytesToAddress (ID m) = a" "MType m = t"
  shows "poolInv E w2"
proof (rule poolInv_step [OF assms(2,3) _ id])
  note s = setMiner_Inr [OF assms(1) set, unfolded id]
  show "minerUpd E w w2 a t m" using pre by (simp add: minerUpd_def s(1))
  show "poolUpd E w w2 a t m" using assms(5) by (simp add: poolUpd_def s(2,3))
qed

lemma poolUpd_same:
  assumes "poolInv E w" and "fixed32 a" and "getMiner E w a t = Inr mo"
    and "case mo of None \<Rightarrow> \<not> IsActive m | Some m0 \<Rightarrow> IsActive m = IsActive m0 \<and> (IsActive m \<longrightarrow> Stake m = Stake m0)"
  shows "poolUpd E w w a t m"
  using assms poolUpd_pool [OF assms(1,2)]
  by (auto simp: poolUpd_def stakeOf_def contrib_def split: option.splits)

lemma remove_step:
  assumes "poolInv E w" and "fixed32 a" and "getMiner E w a t = Inr (Some m0)" and "IsActive m0"
    and "removeFromPool w t a (Stake m0) = Some w1" and "\<not> IsActive m"
  shows "poolUpd E w w1 a t m"
  using assms(3,4,6) removeFromPool_Some(2,3) [OF assms(5,2)]
  by (auto simp: poolUpd_def stakeOf_def contrib_def split: if_splits)

lemma remove_no_panic:
  assumes "poolInv E w" and "fixed32 a" and "getMiner E w a t = Inr (Some m0)" and "IsActive m0"
  shows "removeFromPool w t a (Stake m0) \<noteq> None"
proof (cases "t = MinerTypeProposal")
  case True
  with assms(3) have "stakeOf E w a = contrib m0" by (simp add: stakeOf_def)
  then have "unat (Stake m0) \<le> unat (getProposalTotalStake w)"
    using poolInv_stake_le [OF assms(1,2)] assms(4) by (simp add: contrib_def)
  then show ?thesis by (simp add: removeFromPool_def Let_def word_less_iff_unat)
qed (simp add: removeFromPool_def IsProposalRole_def)

lemma poolInv_named:
  "poolInv E w \<Longrightarrow> fixed32 a \<Longrightarrow> getMiner E w a t = Inr (Some m) \<Longrightarrow> BytesToAddress (ID m) = a \<and> MType m = t"
  by (auto simp: poolInv_def minersNamed_def)

lemma status_simps [simp]:
  "ID (UpdateStatus s h m) = ID m" "MType (UpdateStatus s h m) = MType m" "Stake (UpdateStatus s h m) = Stake m"
  "ID (UpdateIdentity i h m) = ID m" "MType (UpdateIdentity i h m) = MType m" "Stake (UpdateIdentity i h m) = Stake m"
  "IsActive (UpdateStatus s h m) = (s = MinerStatusActive)" "IsActive (UpdateIdentity i h m) = IsActive m"
  "IsActive (m\<lparr>Stake := v\<rparr>) = IsActive m" "IsFrozen (m\<lparr>Stake := v\<rparr>) = IsFrozen m"
  "MinerStatusPrepare \<noteq> MinerStatusActive" "MinerStatusFrozen \<noteq> MinerStatusActive"
  by (simp_all add: miner_status_defs miner_consts)

lemma setPks_simps [simp]:
  "ID (setPks m p) = ID m" "MType (setPks m p) = MType m" "Stake (setPks m p) = Stake m"
  "IsActive (setPks m p) = IsActive m" "Status (setPks m p) = Status m" "Identity (setPks m p) = Identity m"
  by (simp_all add: setPks_def Let_def IsActive_def)

text \<open>A miner whose pool entry follows it, written back.\<close>

lemma poolUpd_quiet_pre: "quiet E w v \<Longrightarrow> fixed32 b \<Longrightarrow> getMiner E v b u = getMiner E w b u"
  by (simp add: quiet_def)

section \<open>Adding stake\<close>

lemma stakeAdd_success:
  assumes "stakeAdd_Transition E op w = Some (None, w')"
  obtains mo w1 m0 m2 w2 w3 where
    "getMiner E w (addTarget op) (saType op) = Inr mo"
    "reduceBalance w (addSource op) (saValue op) = Inr w1"
    "stakedMiner op mo = Inr m0"
    "iopCheckUpperBound (geneBaseIdentityOp (saType op) mo)
       (if addTarget op = addSource op then setPks m0 (saPks op) else m0) (saHeight op)"
    "activate op (if addTarget op = addSource op then setPks m0 (saPks op) else m0) w1 = Some (m2, w2)"
    "setMiner E w2 m2 = Inr w3" "addStakeDetail E op w3 = Some (None, w')"
    "checkStakeAdd E (geneBaseIdentityOp (saType op) mo) op w = None"
  using assms
  by (auto simp: stakeAdd_Transition_def processStakeAdd_def baseProcessStakeAdd_def Let_def orFail_def
      split: sum.splits option.splits if_splits prod.splits)

lemma addStakeDetail_success:
  assumes "addStakeDetail E op w = Some (None, w')"
  obtains od where "getDetail E w (addTarget op) (getDetailKey (addSource op) (saType op) Staked) = Inr od"
    "case od of Some d \<Rightarrow> \<not> sdValue d + saValue op < sdValue d | None \<Rightarrow> True"
    "setDetail E w (addTarget op) (getDetailKey (addSource op) (saType op) Staked)
       ((raiseDetail od (saValue op))\<lparr>sdHeight := saHeight op\<rparr>) = Inr w'"
  using assms by (auto simp: addStakeDetail_def Let_def orFail_def split: sum.splits option.splits if_splits)

lemma stakedMiner_props:
  assumes "stakedMiner op mo = Inr m"
  shows "case mo of
      None \<Rightarrow> m = initMiner op
    | Some m0 \<Rightarrow> \<not> IsFrozen m0 \<and> m = m0\<lparr>Stake := Stake m0 + saValue op\<rparr> \<and> unat (Stake m) = unat (Stake m0) + unat (saValue op)"
  using assms unat_add_no_wrap by (auto simp: stakedMiner_def split: option.splits if_splits)

lemma activate_props:
  assumes "activate op m w = Some (m2, w2)" and "fixed32 (addTarget op)"
  shows "m2 = m \<or> m2 = UpdateStatus MinerStatusActive (saHeight op) m" and "getMiner E w2 b u = getMiner E w b u"
  using assms addProposalTotalStake_Some(1) addToPool_Some(1)
  by (auto simp: activate_def split: if_splits)

lemma activate_poolUpd:
  assumes inv: "poolInv E w" and a: "fixed32 (addTarget op)" and g: "getMiner E w (addTarget op) (saType op) = Inr mo"
    and st: "stakedMiner op mo = Inr m0"
    and m: "Stake m = Stake m0" "IsActive m = IsActive m0"
    and act: "activate op m w = Some (m2, w2)"
  shows "poolUpd E w w2 (addTarget op) (saType op) m2"
proof -
  let ?a = "addTarget op" and ?t = "saType op"
  have act0: "IsActive m \<longleftrightarrow> (case mo of None \<Rightarrow> False | Some m1 \<Rightarrow> IsActive m1)"
    using stakedMiner_props [OF st] m(2) by (auto simp: initMiner_def IsActive_def miner_consts split: option.splits)
  consider (active) "IsActive m" | (fresh) "\<not> IsActive m" "checkCanActivate m" | (idle) "\<not> IsActive m" "\<not> checkCanActivate m"
    by blast
  then show ?thesis
  proof cases
    case active
    then obtain m1 where mo: "mo = Some m1" "IsActive m1" using act0 by (auto split: option.splits)
    have stake: "unat (Stake m) = unat (Stake m1) + unat (saValue op)"
      using stakedMiner_props [OF st] m(1) by (auto simp: mo)
    show ?thesis
    proof (cases "?t = MinerTypeProposal")
      case True
      with active act have "m2 = m" and add: "addProposalTotalStake w (saValue op) = Some w2"
        by (auto simp: activate_def IsProposalRole_def)
      then show ?thesis using addProposalTotalStake_Some(2,3) [OF add] poolUpd_pool [OF inv a] g True active mo stake
        by (auto simp: poolUpd_def stakeOf_def contrib_def)
    next
      case False
      with active act have "w2 = w" by (auto simp: activate_def IsProposalRole_def)
      with False show ?thesis by (simp add: poolUpd_def)
    qed
  next
    case fresh
    with act have m2: "m2 = UpdateStatus MinerStatusActive (saHeight op) m" and add: "addToPool w ?t ?a (Stake m) = Some w2"
      by (auto simp: activate_def)
    have old: "?t = MinerTypeProposal \<Longrightarrow> stakeOf E w ?a = 0"
      using g act0 fresh(1) by (auto simp: stakeOf_def contrib_def split: option.splits)
    show ?thesis using addToPool_Some(2,3) [OF add a] old
      by (auto simp: poolUpd_def m2 contrib_def split: if_splits)
  next
    case idle
    with act have "m2 = m" "w2 = w" by (auto simp: activate_def)
    then show ?thesis using poolUpd_same [OF inv a g, of m] idle act0 by (auto split: option.splits)
  qed
qed

lemma quiet_addStakeDetail:
  assumes "codecsOk E" and "fixed32 (addSource op)" and "addStakeDetail E op w = Some (None, w')"
  shows "quiet E w w'"
  using assms(3) by (rule addStakeDetail_success) (rule quiet_detail [OF assms(1,2)])

lemma stakeAdd_pool:
  assumes E: "codecsOk E" and inv: "poolInv E w" and src: "fixed32 (addSource op)" and a: "fixed32 (addTarget op)"
    and run: "stakeAdd_Transition E op w = Some (None, w')"
  shows "poolInv E w'"
  using run
proof (rule stakeAdd_success)
  fix mo w1 m0 m2 w2 w3
  let ?m1 = "if addTarget op = addSource op then setPks m0 (saPks op) else m0"
  assume g: "getMiner E w (addTarget op) (saType op) = Inr mo" and pay: "reduceBalance w (addSource op) (saValue op) = Inr w1"
    and st: "stakedMiner op mo = Inr m0" and act: "activate op ?m1 w1 = Some (m2, w2)"
    and set: "setMiner E w2 m2 = Inr w3" and det: "addStakeDetail E op w3 = Some (None, w')"
  have q: "quiet E w w1" by (simp add: quiet_def observe_reduceBalance [OF pay])
  then have inv1: "poolInv E w1" using inv by (rule quiet_inv)
  have g1: "getMiner E w1 (addTarget op) (saType op) = Inr mo" using g a q by (simp add: quiet_def)
  have named: "BytesToAddress (ID m0) = addTarget op \<and> MType m0 = saType op"
    using stakedMiner_props [OF st] poolInv_named [OF inv a] g a by (auto simp: initMiner_def split: option.splits)
  then have id: "BytesToAddress (ID m2) = addTarget op" "MType m2 = saType op"
    using activate_props(1) [OF act a] by auto
  have "poolUpd E w1 w2 (addTarget op) (saType op) m2"
    by (rule activate_poolUpd [OF inv1 a g1 st _ _ act]) simp_all
  then have "poolInv E w3"
    using setMiner_step [OF E inv1 a activate_props(2) [OF act a] _ set id] by simp
  with quiet_addStakeDetail [OF E src det] show ?thesis by (rule quiet_inv)
qed

section \<open>Aborting and freezing\<close>

text \<open>An active miner is taken out of the pool and written back with another status.\<close>

lemma leave_step:
  assumes "codecsOk E" and inv: "poolInv E w" and a: "fixed32 a" and g: "getMiner E w a t = Inr (Some m)"
    and rem: "(if IsActive m then removeFromPool w t a (Stake m) else Some w) = Some w1"
    and "\<not> IsActive m'" and "ID m' = ID m" "MType m' = MType m" and set: "setMiner E w1 m' = Inr w2"
  shows "poolInv E w2"
proof (rule setMiner_step [OF assms(1) inv a _ _ set])
  show "poolUpd E w w1 a t m'"
  proof (cases "IsActive m")
    case True
    with rem remove_step [OF inv a g] assms(6) show ?thesis by simp
  next
    case False
    with rem poolUpd_same [OF inv a g, of m'] assms(6) show ?thesis by simp
  qed
  show "getMiner E w1 b u = getMiner E w b u" for b u
    using rem removeFromPool_Some(1) [OF _ a] by (auto split: if_splits)
  show "BytesToAddress (ID m') = a" "MType m' = t" using poolInv_named [OF inv a g] assms(7,8) by simp_all
qed

lemma processMinerAbort_success:
  "processMinerAbort E iop op mo w = Some (None, w') \<Longrightarrow> baseProcessMinerAbort E op mo w = Some (None, w')"
  by (cases iop) simp_all

lemma minerAbort_pool:
  assumes "codecsOk E" and "poolInv E w" and "fixed32 (maAddr op)" and "minerAbort_Transition E op w = Some (None, w')"
  shows "poolInv E w'"
proof -
  from assms(4) obtain m w1 where g: "getMiner E w (maAddr op) (maType op) = Inr (Some m)"
    and rem: "(if IsActive m then removeFromPool w (maType op) (maAddr op) (Stake m) else Some w) = Some w1"
    and set: "setMiner E w1 (UpdateStatus MinerStatusPrepare (maHeight op) m) = Inr w'"
    by (auto simp: minerAbort_Transition_def baseProcessMinerAbort_def orPanic_def orFail_def
        dest!: processMinerAbort_success split: sum.splits option.splits prod.splits if_splits)
  show ?thesis by (rule leave_step [OF assms(1-3) g rem _ _ _ set]) simp_all
qed

lemma minerFreeze_pool:
  assumes "codecsOk E" and "poolInv E w" and "fixed32 a" and "minerFreeze_Transition E a h w = Some (None, w')"
  shows "poolInv E w'"
proof -
  from assms(4) obtain m w1 where g: "getMiner E w a MinerTypeVerify = Inr (Some m)"
    and rem: "(if IsActive m then removeFromPool w MinerTypeVerify a (Stake m) else Some w) = Some w1"
    and set: "setMiner E w1 (UpdateStatus MinerStatusFrozen h m) = Inr w'"
    by (auto simp: minerFreeze_Transition_def orPanic_def orFail_def split: sum.splits option.splits if_splits)
  show ?thesis by (rule leave_step [OF assms(1-3) g rem _ _ _ set]) simp_all
qed

section \<open>Reducing and refunding\<close>

lemma stakeReduce_success:
  assumes "stakeReduce_Transition E op w = Some (None, w')"
  obtains m m2 w1 w2 where "getMiner E w (cancelTarget op) (srType op) = Inr (Some m)" "\<not> Stake m < srValue op"
    "checkCanReduce E op (m\<lparr>Stake := Stake m - srValue op\<rparr>) = None"
    "deactivate op (Stake m) (m\<lparr>Stake := Stake m - srValue op\<rparr>) w = Some (m2, w1)"
    "setMiner E w1 m2 = Inr w2" "reduceDetail E op (Stake m) w2 = Some (None, w')"
  using assms by (auto simp: stakeReduce_Transition_def processStakeReduce_def Let_def orFail_def
      split: sum.splits option.splits if_splits prod.splits)

lemma freezeDetail_success:
  assumes "freezeDetail E op w = Some (None, w')"
  obtains od where "getDetail E w (cancelTarget op) (getDetailKey (cancelSource op) (srType op) StakeFrozen) = Inr od"
    "setDetail E w (cancelTarget op) (getDetailKey (cancelSource op) (srType op) StakeFrozen)
       ((raiseDetail od (srValue op))\<lparr>sdHeight := srHeight op\<rparr>) = Inr w'"
  using assms by (auto simp: freezeDetail_def Let_def orFail_def split: sum.splits)

text \<open>The staked detail after the reduction: removed when it reaches zero.\<close>

definition lowerDetail :: "menv \<Rightarrow> stakeReduceOp \<Rightarrow> stakeDetail \<Rightarrow> world \<Rightarrow> error + world" where
  "lowerDetail E op d w =
    (let key = getDetailKey (cancelSource op) (srType op) Staked
     in if sdValue d = srValue op then Inr (removeDetail w (cancelTarget op) key)
        else setDetail E w (cancelTarget op) key (d\<lparr>sdValue := sdValue d - srValue op, sdHeight := srHeight op\<rparr>))"

lemma reduceDetail_success:
  assumes "reduceDetail E op origin w = Some (None, w')"
  obtains d w1 where "getDetail E w (cancelTarget op) (getDetailKey (cancelSource op) (srType op) Staked) = Inr (Some d)"
    "\<not> srHeight op < DisMissHeight d" "\<not> sdValue d < srValue op" "lowerDetail E op d w = Inr w1" "freezeDetail E op w1 = Some (None, w')"
  using assms by (auto simp: reduceDetail_def Let_def orFail_def lowerDetail_def split: sum.splits option.splits if_splits)

lemma quiet_freezeDetail:
  assumes "codecsOk E" and "fixed32 (cancelSource op)" and "freezeDetail E op w = Some (None, w')"
  shows "quiet E w w'"
  using assms(3) by (rule freezeDetail_success) (rule quiet_detail [OF assms(1,2)])

lemma quiet_lowerDetail:
  assumes "codecsOk E" and "fixed32 (cancelSource op)" and "lowerDetail E op d w = Inr w'"
  shows "quiet E w w'"
  using assms(3) quiet_removeDetail [OF assms(2)] quiet_detail [OF assms(1,2)]
  by (auto simp: lowerDetail_def Let_def split: if_splits)

lemma quiet_reduceDetail:
  assumes "codecsOk E" and "fixed32 (cancelSource op)" and "reduceDetail E op origin w = Some (None, w')"
  shows "quiet E w w'"
  using assms(3)
  by (rule reduceDetail_success) (blast intro: quiet_trans quiet_lowerDetail [OF assms(1,2)] quiet_freezeDetail [OF assms(1,2)])

lemma deactivate_props:
  assumes "deactivate op origin m w = Some (m2, w1)" and "fixed32 (cancelTarget op)"
  shows "m2 = m \<or> m2 = UpdateStatus MinerStatusPrepare (srHeight op) m" and "getMiner E w1 b u = getMiner E w b u"
  using assms subProposalTotalStake_Some(1) removeFromPool_Some(1)
  by (auto simp: deactivate_def split: if_splits)

lemma deactivate_poolUpd:
  assumes inv: "poolInv E w" and a: "fixed32 (cancelTarget op)"
    and g: "getMiner E w (cancelTarget op) (srType op) = Inr (Some m)" and le: "\<not> Stake m < srValue op"
    and act: "deactivate op (Stake m) (m\<lparr>Stake := Stake m - srValue op\<rparr>) w = Some (m2, w1)"
  shows "poolUpd E w w1 (cancelTarget op) (srType op) m2"
proof -
  let ?m1 = "m\<lparr>Stake := Stake m - srValue op\<rparr>"
  have stake: "unat (Stake ?m1) + unat (srValue op) = unat (Stake m)"
    using le by (simp add: unat_sub_no_borrow not_less word_le_iff_unat)
  consider (low) "IsActive m" "srType op = MinerTypeProposal" "\<not> checkLowerBound ?m1"
    | (high) "IsActive m" "srType op = MinerTypeProposal" "checkLowerBound ?m1"
    | (verify) "srType op \<noteq> MinerTypeProposal" | (idle) "\<not> IsActive m" by blast
  then show ?thesis
  proof cases
    case low
    then have "\<not> IsActive m2" "removeFromPool w (srType op) (cancelTarget op) (Stake m) = Some w1"
      using act by (auto simp: deactivate_def IsProposalRole_def)
    then show ?thesis using remove_step [OF inv a g low(1)] by simp
  next
    case high
    then have m2: "m2 = ?m1" and sub: "subProposalTotalStake w (srValue op) = Some w1"
      using act by (auto simp: deactivate_def IsProposalRole_def)
    show ?thesis using subProposalTotalStake_Some(2,3) [OF sub] stake high g poolUpd_pool [OF inv a, of "Some m"]
      by (auto simp: poolUpd_def m2 stakeOf_def contrib_def)
  next
    case verify
    then have "w1 = w" using act by (auto simp: deactivate_def IsProposalRole_def)
    with verify show ?thesis by (simp add: poolUpd_def)
  next
    case idle
    then have "m2 = ?m1" "w1 = w" using act by (auto simp: deactivate_def)
    then show ?thesis using poolUpd_same [OF inv a g, of ?m1] idle by simp
  qed
qed

lemma stakeReduce_pool:
  assumes E: "codecsOk E" and inv: "poolInv E w" and src: "fixed32 (cancelSource op)" and a: "fixed32 (cancelTarget op)"
    and run: "stakeReduce_Transition E op w = Some (None, w')"
  shows "poolInv E w'"
  using run
proof (rule stakeReduce_success)
  fix m m2 w1 w2
  assume g: "getMiner E w (cancelTarget op) (srType op) = Inr (Some m)" and le: "\<not> Stake m < srValue op"
    and act: "deactivate op (Stake m) (m\<lparr>Stake := Stake m - srValue op\<rparr>) w = Some (m2, w1)"
    and set: "setMiner E w1 m2 = Inr w2" and det: "reduceDetail E op (Stake m) w2 = Some (None, w')"
  have id: "BytesToAddress (ID m2) = cancelTarget op" "MType m2 = srType op"
    using deactivate_props(1) [OF act a] poolInv_named [OF inv a g] by auto
  have "poolInv E w2"
    using setMiner_step [OF E inv a deactivate_props(2) [OF act a] deactivate_poolUpd [OF inv a g le act] set id] by simp
  with quiet_reduceDetail [OF E src det] show ?thesis by (rule quiet_inv)
qed

lemma stakeRefund_success:
  assumes "stakeRefund_Transition E op w = Some (None, w')"
  obtains d where "getDetail E w (refundTarget op) (getDetailKey (refundSource op) (rfType op) StakeFrozen) = Inr (Some d)"
    "\<not> rfHeight op \<le> sdHeight d + refundDeadline E op d"
    "w' = w_AddBalance (removeDetail w (refundTarget op) (getDetailKey (refundSource op) (rfType op) StakeFrozen))
            (refundSource op) (uint (sdValue d))"
  using assms by (auto simp: stakeRefund_Transition_def Let_def split: sum.splits option.splits if_splits)

lemma stakeRefund_pool:
  assumes "poolInv E w" and "fixed32 (refundSource op)" and "stakeRefund_Transition E op w = Some (None, w')"
  shows "poolInv E w'"
  using assms(3)
proof (rule stakeRefund_success)
  fix d
  assume "w' = w_AddBalance (removeDetail w (refundTarget op) (getDetailKey (refundSource op) (rfType op) StakeFrozen))
            (refundSource op) (uint (sdValue d))"
  then have "quiet E w w'" using quiet_trans [OF quiet_removeDetail [OF assms(2)] quiet_balance(1)] by simp
  then show ?thesis using assms(1) by (rule quiet_inv)
qed

section \<open>Votes and guard nodes\<close>

lemma identity_step:
  assumes E: "codecsOk E" and inv: "poolInv E w" and a: "fixed32 a" and g: "getMiner E w a t = Inr (Some m)"
    and set: "setMiner E w (UpdateIdentity i h m) = Inr w'"
  shows "poolInv E w'"
proof (rule setMiner_step [OF E inv a _ _ set])
  show "poolUpd E w w a t (UpdateIdentity i h m)" using poolUpd_same [OF inv a g] by simp
qed (use poolInv_named [OF inv a g] in simp_all)

lemma afterTicketReduce_success:
  assumes "afterTicketReduce E iop op mo n w = Some (None, w')"
  shows "w' = w \<or> (\<exists>m. mo = Some m \<and> iop = MinerPoolProposalMiner \<and>
    ((\<not> IsActive m \<and> setMiner E w (UpdateIdentity InValidMinerPool (rtHeight op) m) = Inr w') \<or>
     (IsActive m \<and> (\<exists>w1. removeFromPool w MinerTypeProposal (rtTarget op) (Stake m) = Some w1 \<and>
        setMiner E w1 (UpdateStatus MinerStatusPrepare (rtHeight op) (UpdateIdentity InValidMinerPool (rtHeight op) m)) = Inr w'))))"
  using assms by (cases iop)
    (auto simp: Let_def orPanic_def orFail_def split: option.splits sum.splits if_splits)

lemma reduceTickets_pool:
  assumes E: "codecsOk E" and inv: "poolInv E w" and a: "fixed32 (rtTarget op)"
    and run: "reduceTickets_Transition E op w = Some (None, w')"
  shows "poolInv E w'"
proof -
  from run obtain mo n w1 where g: "getMiner E w (rtTarget op) MinerTypeProposal = Inr mo"
    and sub: "subTicket w (rtTarget op) = (n, w1)"
    and after: "afterTicketReduce E (geneBaseIdentityOp MinerTypeProposal mo) op mo n w1 = Some (None, w')"
    by (auto simp: reduceTickets_Transition_def processReduceTicket_def split: sum.splits if_splits prod.splits)
  have q: "quiet E w w1" using a sub by simp
  then have inv1: "poolInv E w1" using inv by (rule quiet_inv)
  have g1: "getMiner E w1 (rtTarget op) MinerTypeProposal = Inr mo" using g a q by (simp add: quiet_def)
  from afterTicketReduce_success [OF after] consider "w' = w1"
    | m where "mo = Some m" "\<not> IsActive m" "setMiner E w1 (UpdateIdentity InValidMinerPool (rtHeight op) m) = Inr w'"
    | m w2 where "mo = Some m" "IsActive m" "removeFromPool w1 MinerTypeProposal (rtTarget op) (Stake m) = Some w2"
        "setMiner E w2 (UpdateStatus MinerStatusPrepare (rtHeight op) (UpdateIdentity InValidMinerPool (rtHeight op) m)) = Inr w'"
    by blast
  then show ?thesis
  proof cases
    case 1 then show ?thesis using inv1 by simp
  next
    case 2 then show ?thesis using identity_step [OF E inv1 a] g1 by blast
  next
    case 3 show ?thesis
      by (rule leave_step [OF E inv1 a _ _ _ _ _ 3(4), of _ m]) (use 3 g1 in simp_all)
  qed
qed

text \<open>Taking a ticket away touches no other miner: the record of the new target read before is still current.\<close>

lemma reduceTickets_other:
  assumes E: "codecsOk E" and inv: "poolInv E w" and a: "fixed32 (rtTarget op)"
    and run: "reduceTickets_Transition E op w = Some (None, w')" and b: "fixed32 b" "b \<noteq> rtTarget op"
  shows "getMiner E w' b u = getMiner E w b u"
proof -
  from run obtain mo n w1 where g: "getMiner E w (rtTarget op) MinerTypeProposal = Inr mo"
    and sub: "subTicket w (rtTarget op) = (n, w1)"
    and after: "afterTicketReduce E (geneBaseIdentityOp MinerTypeProposal mo) op mo n w1 = Some (None, w')"
    by (auto simp: reduceTickets_Transition_def processReduceTicket_def split: sum.splits if_splits prod.splits)
  have q: "quiet E w w1" using a sub by simp
  have id: "mo = Some m \<Longrightarrow> BytesToAddress (ID m) = rtTarget op" for m using poolInv_named [OF inv a] g by simp
  from afterTicketReduce_success [OF after] show ?thesis
    using q b id setMiner_Inr(1) [OF E] removeFromPool_Some(1) [OF _ a] by (auto simp: quiet_def)
qed

lemma afterTicketsFull_pool:
  assumes E: "codecsOk E" and inv: "poolInv E w" and a: "fixed32 (vmTarget op)"
    and g: "getMiner E w (vmTarget op) MinerTypeProposal = Inr mo"
    and run: "afterTicketsFull E iop op mo w = Some (None, w')"
  shows "poolInv E w'"
proof (cases mo)
  case (Some m)
  with run show ?thesis using identity_step [OF E inv a] g inv
    by (cases iop) (auto simp: orFail_def split: sum.splits)
next
  case None
  let ?m = "\<lparr>ID = vmTarget op, PublicKey = [], VrfPublicKey = [], ApplyHeight = vmHeight op, Stake = 0,
      StatusUpdateHeight = 0, MType = MinerTypeProposal, Status = MinerStatusPrepare,
      Identity = MinerNormal, IdentityUpdateHeight = 0\<rparr>"
  have "w' = w \<or> setMiner E w (UpdateIdentity MinerPool (vmHeight op) ?m) = Inr w'"
    using run None by (cases iop) (auto simp: orFail_def split: sum.splits)
  moreover have "poolInv E w'" if "setMiner E w (UpdateIdentity MinerPool (vmHeight op) ?m) = Inr w'"
  proof (rule setMiner_step [OF E inv a _ _ that])
    show "poolUpd E w w (vmTarget op) MinerTypeProposal (UpdateIdentity MinerPool (vmHeight op) ?m)"
      by (rule poolUpd_same [OF inv a g]) (simp add: None, simp add: IsActive_def miner_consts)
  qed (use a in simp_all)
  ultimately show ?thesis using inv by auto
qed

lemma baseVote_success:
  assumes "baseVote E op vf w k = Some (None, w')"
  obtains v w1 w2 w3 f w4 where "voteBefore E op vf w = Inr (v, w1)"
    "voteMinerPool E w1 v (vmSource op) (vmTarget op) (vmHeight op) = Inr w2"
    "w3 = w2 \<or> vTarget v \<noteq> vmTarget op \<and>
       reduceTickets_Transition E \<lparr>rtTarget = vTarget v, rtHeight = vmHeight op\<rparr> w2 = Some (None, w3)"
    "w4 = w3 \<or> (\<exists>n. addTicket w3 (vmTarget op) = (n, w4))" "k f w4 = Some (None, w')"
proof -
  from assms obtain v w1 w2 where v: "voteBefore E op vf w = Inr (v, w1)"
    and vote: "voteMinerPool E w1 v (vmSource op) (vmTarget op) (vmHeight op) = Inr w2"
    and rest: "if vTarget v = vmTarget op \<and> vTarget v \<noteq> emptyAddress
       then k (isFullTickets (getTickets w2 (vmTarget op)) (vmHeight op)) w2 = Some (None, w')
       else \<exists>w3. (if vTarget v \<noteq> emptyAddress then reduceTickets_Transition E \<lparr>rtTarget = vTarget v, rtHeight = vmHeight op\<rparr> w2
                 else succeeds w2) = Some (None, w3) \<and>
               (case addTicket w3 (vmTarget op) of (n, w4) \<Rightarrow> k (isFullTickets n (vmHeight op)) w4) = Some (None, w')"
    by (auto simp: baseVote_def orFail_def Let_def split: sum.splits if_splits)
  show thesis
  proof (cases "vTarget v = vmTarget op \<and> vTarget v \<noteq> emptyAddress")
    case True
    with rest that [OF v vote disjI1 [OF refl] disjI1 [OF refl]] show thesis by auto
  next
    case False
    with rest obtain w3 where
      red: "(if vTarget v \<noteq> emptyAddress then reduceTickets_Transition E \<lparr>rtTarget = vTarget v, rtHeight = vmHeight op\<rparr> w2
                 else succeeds w2) = Some (None, w3)"
      and k: "k (isFullTickets (fst (addTicket w3 (vmTarget op))) (vmHeight op)) (snd (addTicket w3 (vmTarget op))) = Some (None, w')"
      by (auto simp: case_prod_unfold)
    show thesis using red False
      by (intro that [OF v vote _ _ k, of w3]) (auto split: if_splits intro: prod.collapse [symmetric])
  qed
qed

lemma voteBefore_props:
  assumes "voteBefore E op vf w = Inr (v, w1)" and "codecsOk E" and "getVoteInfo E w (vmSource op) = Inr vf"
  shows "quiet E w w1" and "fixed32 (vTarget v)"
  using assms vote_target_fixed [OF assms(2)]
  by (auto simp: voteBefore_def initVoteInfo_def newVoteInfo_def quiet_def split: option.splits)

lemma baseVote_pool:
  assumes E: "codecsOk E" and inv: "poolInv E w" and ab: "fixed32 (vmSource op)" "fixed32 (vmTarget op)"
    and vf: "getVoteInfo E w (vmSource op) = Inr vf"
    and v: "voteBefore E op vf w = Inr (v, w1)"
    and vote: "voteMinerPool E w1 v (vmSource op) (vmTarget op) (vmHeight op) = Inr w2"
    and red: "w3 = w2 \<or> vTarget v \<noteq> vmTarget op \<and>
       reduceTickets_Transition E \<lparr>rtTarget = vTarget v, rtHeight = vmHeight op\<rparr> w2 = Some (None, w3)"
    and add: "w4 = w3 \<or> (\<exists>n. addTicket w3 (vmTarget op) = (n, w4))"
  shows "quiet E w w2" and "poolInv E w2" and "poolInv E w4"
    and "getMiner E w4 (vmTarget op) u = getMiner E w (vmTarget op) u"
proof -
  let ?r = "\<lparr>rtTarget = vTarget v, rtHeight = vmHeight op\<rparr>"
  note vb = voteBefore_props [OF v E vf]
  show q: "quiet E w w2" using vb(1) quiet_vote(2) [OF vote] by (rule quiet_trans)
  then show inv2: "poolInv E w2" using inv by (rule quiet_inv)
  have inv3: "poolInv E w3 \<and> getMiner E w3 (vmTarget op) u = getMiner E w2 (vmTarget op) u"
    using red inv2 reduceTickets_pool [OF E inv2, of ?r w3] reduceTickets_other [OF E inv2 _ _ ab(2), of ?r w3 u] vb(2)
    by auto
  have q4: "quiet E w3 w4" using add ab(2) by auto
  then show "poolInv E w4" using inv3 by (blast intro: quiet_inv)
  show "getMiner E w4 (vmTarget op) u = getMiner E w (vmTarget op) u" using q q4 inv3 ab(2) by (simp add: quiet_def)
qed

lemma voteMinerPool_success:
  assumes "voteMinerPool_Transition E op w = Some (None, w')"
  obtains mo vf where "getMiner E w (vmTarget op) MinerTypeProposal = Inr mo" "getVoteInfo E w (vmSource op) = Inr vf"
    "checkVote E op vf w = None"
    "baseVote E op vf w (\<lambda>isFull w1. if isFull then afterTicketsFull E (geneBaseIdentityOp MinerTypeProposal mo) op mo w1
        else succeeds w1) = Some (None, w')"
proof -
  obtain mo where g: "getMiner E w (vmTarget op) MinerTypeProposal = Inr mo"
    and "processVote E (geneBaseIdentityOp MinerTypeProposal mo) op mo w = Some (None, w')"
    using assms by (auto simp: voteMinerPool_Transition_def split: sum.splits)
  then have "baseProcessVote E (geneBaseIdentityOp MinerTypeProposal mo) op mo w = Some (None, w')"
    by (cases "geneBaseIdentityOp MinerTypeProposal mo") simp_all
  then show thesis using that [OF g] by (auto simp: baseProcessVote_def split: sum.splits option.splits prod.splits)
qed

lemma voteMinerPool_pool:
  assumes E: "codecsOk E" and inv: "poolInv E w" and ab: "fixed32 (vmSource op)" "fixed32 (vmTarget op)"
    and run: "voteMinerPool_Transition E op w = Some (None, w')"
  shows "poolInv E w'"
proof -
  from run obtain mo vf where g: "getMiner E w (vmTarget op) MinerTypeProposal = Inr mo"
    and vf: "getVoteInfo E w (vmSource op) = Inr vf"
    and b: "baseVote E op vf w (\<lambda>isFull w1. if isFull then afterTicketsFull E (geneBaseIdentityOp MinerTypeProposal mo) op mo w1
        else succeeds w1) = Some (None, w')" by (rule voteMinerPool_success)
  from b show ?thesis
  proof (rule baseVote_success)
    fix v w1 w2 w3 f w4
    assume "voteBefore E op vf w = Inr (v, w1)" "voteMinerPool E w1 v (vmSource op) (vmTarget op) (vmHeight op) = Inr w2"
      "w3 = w2 \<or> vTarget v \<noteq> vmTarget op \<and>
         reduceTickets_Transition E \<lparr>rtTarget = vTarget v, rtHeight = vmHeight op\<rparr> w2 = Some (None, w3)"
      "w4 = w3 \<or> (\<exists>n. addTicket w3 (vmTarget op) = (n, w4))"
      and k: "(if f then afterTicketsFull E (geneBaseIdentityOp MinerTypeProposal mo) op mo w4 else succeeds w4) = Some (None, w')"
    note st = baseVote_pool [OF E inv ab vf this(1-4)]
    show ?thesis using k afterTicketsFull_pool [OF E st(3) ab(2), of mo] st(3,4) g by (auto split: if_splits)
  qed
qed

lemma quiet_afterBecomeFullGuardNode:
  assumes E: "codecsOk E" and a: "fixed32 a" "fixed32 src"
    and run: "afterBecomeFullGuardNode E iop (getDetailKey src t s) d a h w = Some (None, w')"
  shows "quiet E w w'"
  using run quiet_guard(1) [OF a(1)] quiet_guard_status [OF a(1)] quiet_detail [OF E a(2)]
  by (cases iop) (auto simp: orFail_def Let_def split: sum.splits if_splits, (blast intro: quiet_trans)+)

lemma applyGuard_success:
  assumes "applyGuard_Transition E op w = Some (None, w')"
  obtains m d w1 w2 where "getMiner E w (agTarget op) MinerTypeProposal = Inr (Some m)"
    "getDetail E w (agTarget op) (getDetailKey (agTarget op) MinerTypeProposal Staked) = Inr (Some d)"
    "checkApplyGuard op (Some d) = None"
    "setMiner E w (UpdateIdentity MinerGuard (agHeight op) m) = Inr w1"
    "afterBecomeFullGuardNode E (geneBaseIdentityOp MinerTypeProposal (Some m))
       (getDetailKey (agTarget op) MinerTypeProposal Staked) d (agTarget op) (agHeight op) w1 = Some (None, w2)"
    "refreshVote E op w2 = Some (None, w')"
proof -
  obtain m where g: "getMiner E w (agTarget op) MinerTypeProposal = Inr (Some m)"
    and "processApplyGuard E (geneBaseIdentityOp MinerTypeProposal (Some m)) op (Some m) w = Some (None, w')"
    using assms by (auto simp: applyGuard_Transition_def split: sum.splits option.splits)
  then have "baseProcessApplyGuard E (geneBaseIdentityOp MinerTypeProposal (Some m)) op (Some m) w = Some (None, w')"
    by (cases "geneBaseIdentityOp MinerTypeProposal (Some m)") simp_all
  then obtain od w1 w2 where od: "getDetail E w (agTarget op) (getDetailKey (agTarget op) MinerTypeProposal Staked) = Inr od"
    and c: "checkApplyGuard op od = None" and s: "setMiner E w (UpdateIdentity MinerGuard (agHeight op) m) = Inr w1"
    and r: "afterBecomeFullGuardNode E (geneBaseIdentityOp MinerTypeProposal (Some m))
       (getDetailKey (agTarget op) MinerTypeProposal Staked) (the od) (agTarget op) (agHeight op) w1 = Some (None, w2)"
    "refreshVote E op w2 = Some (None, w')"
    by (auto simp: baseProcessApplyGuard_def Let_def orFail_def split: sum.splits option.splits prod.splits)
  from c obtain d where "od = Some d" by (auto simp: checkApplyGuard_def split: option.splits)
  with that [OF g _ _ s _ r(2)] od c r(1) show thesis by simp
qed

lemma applyGuard_pool:
  assumes E: "codecsOk E" and inv: "poolInv E w" and a: "fixed32 (agTarget op)"
    and run: "applyGuard_Transition E op w = Some (None, w')"
  shows "poolInv E w'"
  using run
proof (rule applyGuard_success)
  fix m d w1 w2
  assume g: "getMiner E w (agTarget op) MinerTypeProposal = Inr (Some m)"
    and set: "setMiner E w (UpdateIdentity MinerGuard (agHeight op) m) = Inr w1"
    and after: "afterBecomeFullGuardNode E (geneBaseIdentityOp MinerTypeProposal (Some m))
       (getDetailKey (agTarget op) MinerTypeProposal Staked) d (agTarget op) (agHeight op) w1 = Some (None, w2)"
    and vote: "refreshVote E op w2 = Some (None, w')"
  have "poolInv E w1" by (rule identity_step [OF E inv a g set])
  then have "poolInv E w2" by (rule quiet_inv [OF quiet_afterBecomeFullGuardNode [OF E a a after]])
  moreover have "quiet E w2 w'"
    using vote quiet_vote(1) by (auto simp: refreshVote_def orFail_def split: sum.splits option.splits)
  ultimately show ?thesis by (blast intro: quiet_inv)
qed

lemma changeFundGuardMode_pool:
  assumes "poolInv E w" and a: "fixed32 (cfSource op)" and "changeFundGuardMode_Transition E op w = Some (None, w')"
  shows "poolInv E w'"
proof -
  have "quiet E w w'" using assms(3) quiet_guard_mode [OF a]
    by (auto simp: changeFundGuardMode_Transition_def processChangeFundGuardMode_def split: sum.splits option.splits if_splits)
  then show ?thesis using assms(1) by (rule quiet_inv)
qed

lemma guardNodeExpired_pool:
  assumes E: "codecsOk E" and inv: "poolInv E w" and a: "fixed32 a" and run: "guardNodeExpired E a h fund w = Some (None, w')"
  shows "poolInv E w'"
proof -
  from run obtain m w1 where g: "getMiner E w a MinerTypeProposal = Inr (Some m)"
    and set: "setMiner E w (UpdateIdentity MinerNormal h m) = Inr w1"
    and rest: "let w2 = (if \<not> fund then removeFullStakeGuardNodeFromPool w1 a else w1)
       in w' = w2 \<or> (\<exists>vf. getVoteInfo E w2 a = Inr (Some vf) \<and> (w' = delVoteInfo w2 a \<or>
         reduceTickets_Transition E \<lparr>rtTarget = vTarget vf, rtHeight = h\<rparr> (delVoteInfo w2 a) = Some (None, w')))"
    by (auto simp: guardNodeExpired_def orFail_def Let_def split: sum.splits option.splits if_splits)
  define w2 where "w2 = (if \<not> fund then removeFullStakeGuardNodeFromPool w1 a else w1)"
  have "poolInv E w1" by (rule identity_step [OF E inv a g set])
  then have inv2: "poolInv E w2" using quiet_inv [OF quiet_guard(2) [OF a]] by (simp add: w2_def)
  then have inv3: "poolInv E (delVoteInfo w2 a)" using quiet_inv [OF quiet_vote(4)] by blast
  from rest show ?thesis unfolding Let_def w2_def [symmetric]
    using inv2 inv3 vote_target_fixed [OF E] reduceTickets_pool [OF E inv3, of "\<lparr>rtTarget = vTarget v, rtHeight = h\<rparr>" w' for v]
    by auto
qed

section \<open>Penalties\<close>

lemma quiet_addPunishment:
  assumes "codecsOk E" and "addPunishment E a v h w = Some (None, w')"
  shows "quiet E w w'"
  using assms quiet_detail [OF assms(1), of PunishmentDetailAddr]
  by (auto simp: addPunishment_def Let_def orFail_def split: sum.splits)

lemma quiet_subPunished:
  assumes "codecsOk E" and "fixed32 a" and "subPunished E a v h w = Some (None, w')"
  shows "quiet E w w'"
  using assms(3) quiet_detail [OF assms(1,2)] quiet_removeDetail [OF assms(2)]
  by (auto simp: subPunished_def subFrozen_def Let_def orFail_def split: sum.splits option.splits if_splits)
    (blast intro: quiet_trans)+

lemma punishOne_success:
  assumes "punishOne E v h a w = Some (None, w')"
  obtains m w1 w2 w3 where "getMiner E w a MinerTypeVerify = Inr (Some m)"
    "(if IsActive m then removeFromPool w MinerTypeVerify a (Stake m) else Some w) = Some w1" "\<not> Stake m < v"
    "setMiner E w1 (UpdateStatus MinerStatusFrozen h (m\<lparr>Stake := Stake m - v\<rparr>)) = Inr w2"
    "addPunishment E a v h w2 = Some (None, w3)" "subPunished E a v h w3 = Some (None, w')"
  using assms by (auto simp: punishOne_def orPanic_def orFail_def split: sum.splits option.splits if_splits)

lemma punishOne_pool:
  assumes E: "codecsOk E" and inv: "poolInv E w" and a: "fixed32 a" and "punishOne E v h a w = Some (None, w')"
  shows "poolInv E w'"
  using assms(4)
proof (rule punishOne_success)
  fix m w1 w2 w3
  assume g: "getMiner E w a MinerTypeVerify = Inr (Some m)"
    and rem: "(if IsActive m then removeFromPool w MinerTypeVerify a (Stake m) else Some w) = Some w1"
    and set: "setMiner E w1 (UpdateStatus MinerStatusFrozen h (m\<lparr>Stake := Stake m - v\<rparr>)) = Inr w2"
    and q: "addPunishment E a v h w2 = Some (None, w3)" "subPunished E a v h w3 = Some (None, w')"
  have "poolInv E w2" by (rule leave_step [OF E inv a g rem _ _ _ set]) simp_all
  with quiet_trans [OF quiet_addPunishment [OF E q(1)] quiet_subPunished [OF E a q(2)]] show ?thesis by (rule quiet_inv)
qed

lemma punishAll_pool:
  "codecsOk E \<Longrightarrow> poolInv E w \<Longrightarrow> list_all fixed32 as \<Longrightarrow> punishAll E v h as w = Some (None, w') \<Longrightarrow> poolInv E w'"
  by (induction as arbitrary: w) (auto dest: punishOne_pool)

lemma quiet_rewards: "quiet E w (fold (\<lambda>a v. w_AddBalance v a n) as w)"
  by (induction as arbitrary: w) (simp, metis (no_types, lifting) fold_simps(2) quiet_balance(1) quiet_trans)

lemma minerPenalty_pool:
  assumes "codecsOk E" and "poolInv E w" and "list_all fixed32 (mpTargets op)"
    and "minerPenalty_Transition E op w = Some (None, w')"
  shows "poolInv E w'"
  using assms(4) punishAll_pool [OF assms(1-3)] quiet_inv [OF quiet_rewards]
  by (auto simp: minerPenalty_Transition_def Let_def split: if_splits)

end
