(* ===== verification/Miner_Ledger.thy ===== *)
theory Miner_Ledger
  imports Miner_Pool_Ops
begin

text \<open>
  The contract of the stake operations: a ledger of balances, staked and frozen values and miner
  stakes, on which adding, reducing and refunding stake are plain transfers. Every successful
  transition of the miner code implements its step on the ledger.
\<close>

section \<open>The ledger\<close>

record ledger =
  lBal :: "address \<Rightarrow> int"
  lStaked :: "address \<Rightarrow> address \<Rightarrow> MinerType \<Rightarrow> nat"
  lFrozen :: "address \<Rightarrow> address \<Rightarrow> MinerType \<Rightarrow> nat"
  lStake :: "address \<Rightarrow> MinerType \<Rightarrow> nat"

definition minerStake :: "menv \<Rightarrow> world \<Rightarrow> address \<Rightarrow> MinerType \<Rightarrow> nat" where
  "minerStake E w a t = (case getMiner E w a t of Inr (Some m) \<Rightarrow> unat (Stake m) | _ \<Rightarrow> 0)"

definition ledgerOf :: "menv \<Rightarrow> world \<Rightarrow> ledger" where
  "ledgerOf E w =
    \<lparr>lBal = wBalance w,
     lStaked = (\<lambda>a s t. if fixed32 a \<and> fixed32 s then detailVal E w a s t Staked else 0),
     lFrozen = (\<lambda>a s t. if fixed32 a \<and> fixed32 s then detailVal E w a s t StakeFrozen else 0),
     lStake = (\<lambda>a t. if fixed32 a then minerStake E w a t else 0)\<rparr>"

definition upd3 :: "('a \<Rightarrow> 'b \<Rightarrow> 'c \<Rightarrow> 'd) \<Rightarrow> 'a \<Rightarrow> 'b \<Rightarrow> 'c \<Rightarrow> 'd \<Rightarrow> 'a \<Rightarrow> 'b \<Rightarrow> 'c \<Rightarrow> 'd" where
  "upd3 f a b c v = f(a := (f a)(b := (f a b)(c := v)))"

lemma upd3_apply: "upd3 f a b c v x y z = (if x = a \<and> y = b \<and> z = c then v else f x y z)"
  by (simp add: upd3_def)

definition upd2 :: "('a \<Rightarrow> 'b \<Rightarrow> 'd) \<Rightarrow> 'a \<Rightarrow> 'b \<Rightarrow> 'd \<Rightarrow> 'a \<Rightarrow> 'b \<Rightarrow> 'd" where
  "upd2 f a b v = f(a := (f a)(b := v))"

lemma upd2_apply: "upd2 f a b v x y = (if x = a \<and> y = b then v else f x y)"
  by (simp add: upd2_def)

text \<open>The steps: stake moves from the balance to the stake, from there to the frozen value, and back.\<close>

definition lAdd :: "address \<Rightarrow> address \<Rightarrow> MinerType \<Rightarrow> nat \<Rightarrow> ledger \<Rightarrow> ledger" where
  "lAdd src a t v l =
    l\<lparr>lBal := (lBal l)(src := lBal l src - int v), lStaked := upd3 (lStaked l) a src t (lStaked l a src t + v),
      lStake := upd2 (lStake l) a t (lStake l a t + v)\<rparr>"

definition lReduce :: "address \<Rightarrow> address \<Rightarrow> MinerType \<Rightarrow> nat \<Rightarrow> ledger \<Rightarrow> ledger" where
  "lReduce src a t v l =
    l\<lparr>lStaked := upd3 (lStaked l) a src t (lStaked l a src t - v),
      lFrozen := upd3 (lFrozen l) a src t (lFrozen l a src t + v),
      lStake := upd2 (lStake l) a t (lStake l a t - v)\<rparr>"

definition lRefund :: "address \<Rightarrow> address \<Rightarrow> MinerType \<Rightarrow> ledger \<Rightarrow> ledger" where
  "lRefund src a t l =
    l\<lparr>lBal := (lBal l)(src := lBal l src + int (lFrozen l a src t)), lFrozen := upd3 (lFrozen l) a src t 0\<rparr>"

definition lPunish :: "nat \<Rightarrow> address \<Rightarrow> ledger \<Rightarrow> ledger" where
  "lPunish v a l =
    (let st = lStaked l a a MinerTypeVerify
     in l\<lparr>lStaked := upd3 (lStaked l) a a MinerTypeVerify (st - v),
          lFrozen := upd3 (lFrozen l) a a MinerTypeVerify (lFrozen l a a MinerTypeVerify - (v - st)),
          lStake := upd2 (lStake l) a MinerTypeVerify (lStake l a MinerTypeVerify - v)\<rparr>)"

definition lReward :: "int \<Rightarrow> address \<Rightarrow> ledger \<Rightarrow> ledger" where
  "lReward n a l = l\<lparr>lBal := (lBal l)(a := lBal l a + n)\<rparr>"

fun ledgerStep :: "mOperation \<Rightarrow> ledger \<Rightarrow> ledger" where
  "ledgerStep (StakeAdd op) l = lAdd (addSource op) (addTarget op) (saType op) (unat (saValue op)) l"
| "ledgerStep (StakeReduce op) l = lReduce (cancelSource op) (cancelTarget op) (srType op) (unat (srValue op)) l"
| "ledgerStep (StakeRefund op) l = lRefund (refundSource op) (refundTarget op) (rfType op) l"
| "ledgerStep (MinerPenalty op) l =
    (let l1 = fold (lPunish (unat (mpValue op))) (mpTargets op) l
     in if mpRewards op = [] then l1
        else fold (lReward (uint (mpValue op * of_nat (length (mpTargets op)) div of_nat (length (mpRewards op)))))
               (mpRewards op) l1)"
| "ledgerStep _ l = l"

section \<open>Frames\<close>

definition sameDetails :: "menv \<Rightarrow> world \<Rightarrow> world \<Rightarrow> bool" where
  "sameDetails E w w' \<longleftrightarrow> wBalance w' = wBalance w \<and>
    (\<forall>b s u r. fixed32 s \<longrightarrow> getDetail E w' b (getDetailKey s u r) = getDetail E w b (getDetailKey s u r))"

lemma sameDetails_refl [simp]: "sameDetails E w w" by (simp add: sameDetails_def)

lemma sameDetails_trans: "sameDetails E w v \<Longrightarrow> sameDetails E v u \<Longrightarrow> sameDetails E w u"
  by (simp add: sameDetails_def)

lemma sameDetails_val: "sameDetails E w w' \<Longrightarrow> fixed32 s \<Longrightarrow> detailVal E w' b s u r = detailVal E w b s u r"
  by (simp add: sameDetails_def detailVal_def)

lemma sameDetails_SetData:
  "(\<And>s u r. fixed32 s \<Longrightarrow> k \<noteq> getDetailKey s u r) \<Longrightarrow> sameDetails E w (w_SetData w a k v)"
  by (simp add: sameDetails_def)

lemma sameDetails_RemoveData:
  "(\<And>s u r. fixed32 s \<Longrightarrow> k \<noteq> getDetailKey s u r) \<Longrightarrow> sameDetails E w (w_RemoveData w a k)"
  by (simp add: sameDetails_def)

lemmas sameDetails_data = sameDetails_SetData sameDetails_RemoveData

lemma sameDetails_total [simp]: "sameDetails E w (setProposalTotalStake w v)"
  by (simp add: sameDetails_def)

lemma sameDetails_removeFromPool:
  assumes "fixed32 a" and "removeFromPool w t a s = Some w'"
  shows "sameDetails E w w'"
  using assms by (auto simp: removeFromPool_def Let_def sameDetails_def split: if_splits)

lemma sameDetails_addTotal: "addProposalTotalStake w v = Some w' \<Longrightarrow> sameDetails E w w'"
  by (auto simp: addProposalTotalStake_def Let_def split: if_splits)

lemma sameDetails_subTotal: "subProposalTotalStake w v = Some w' \<Longrightarrow> sameDetails E w w'"
  by (auto simp: subProposalTotalStake_def Let_def split: if_splits)

lemma sameDetails_addToPool:
  assumes "fixed32 a" and "addToPool w t a s = Some w'"
  shows "sameDetails E w w'"
  using assms sameDetails_addTotal
  by (auto simp: addToPool_def sameDetails_def split: if_splits option.splits)

lemma sameDetails_setMiner: "codecsOk E \<Longrightarrow> setMiner E w m = Inr w' \<Longrightarrow> sameDetails E w w'"
  using setMiner_Inr(4,5) by (simp add: sameDetails_def)

lemma sameDetails_vote [simp]:
  "setVoteInfo E w a vf = Inr w' \<Longrightarrow> sameDetails E w w'" "voteMinerPool E w vf a b h = Inr w' \<Longrightarrow> sameDetails E w w'"
  "initVoteInfo E w a = Inr (v, w') \<Longrightarrow> sameDetails E w w'" "sameDetails E w (delVoteInfo w a)"
  by (auto simp: setVoteInfo_def voteMinerPool_def initVoteInfo_def delVoteInfo_def split: option.splits
      intro!: sameDetails_data)

lemma sameDetails_ticket [simp]:
  "fixed32 a \<Longrightarrow> addTicket w a = (n, w') \<Longrightarrow> sameDetails E w w'"
  "fixed32 a \<Longrightarrow> subTicket w a = (n, w') \<Longrightarrow> sameDetails E w w'"
  by (auto simp: addTicket_def subTicket_def Let_def intro!: sameDetails_data)

lemma sameDetails_guard [simp]:
  "fixed32 a \<Longrightarrow> sameDetails E w (addFullStakeGuardPool w a)"
  "fixed32 a \<Longrightarrow> setFundGuardNode E w a fn = Inr w' \<Longrightarrow> sameDetails E w w'"
  by (auto simp: addFullStakeGuardPool_def setFundGuardNode_def split: option.splits intro!: sameDetails_data)

lemma sameDetails_guard_status:
  "fixed32 a \<Longrightarrow> updateFundGuardPoolStatus E w a ty h = Inr w' \<Longrightarrow> sameDetails E w w'"
  by (auto simp: updateFundGuardPoolStatus_def split: sum.splits option.splits)

text \<open>The stakes of all miners, which only a write of a miner record changes.\<close>

definition sameStakes :: "menv \<Rightarrow> world \<Rightarrow> world \<Rightarrow> bool" where
  "sameStakes E w w' \<longleftrightarrow> (\<forall>b u. fixed32 b \<longrightarrow> minerStake E w' b u = minerStake E w b u)"

lemma quiet_sameStakes: "quiet E w w' \<Longrightarrow> sameStakes E w w'"
  by (simp add: quiet_def sameStakes_def minerStake_def)

lemma sameStakes_trans: "sameStakes E w v \<Longrightarrow> sameStakes E v u \<Longrightarrow> sameStakes E w u"
  by (simp add: sameStakes_def)

lemma sameStakes_refl [simp]: "sameStakes E w w" by (simp add: sameStakes_def)

lemma sameLedger:
  assumes "sameDetails E w w'" and "sameStakes E w w'"
  shows "ledgerOf E w' = ledgerOf E w"
  using assms sameDetails_val [OF assms(1)]
  by (auto simp: ledgerOf_def sameDetails_def sameStakes_def fun_eq_iff)

lemma minerStake_setMiner:
  assumes "codecsOk E" and "setMiner E w1 m = Inr w'" and "\<And>b u. fixed32 b \<Longrightarrow> getMiner E w1 b u = getMiner E w b u"
    and "fixed32 b"
  shows "minerStake E w' b u = (if b = BytesToAddress (ID m) \<and> u = MType m then unat (Stake m) else minerStake E w b u)"
  using assms by (simp add: minerStake_def setMiner_Inr(1))

lemma sameStakes_setMiner:
  assumes "codecsOk E" and "poolInv E w" and "fixed32 a" and "getMiner E w a t = Inr mo"
    and "setMiner E w1 m = Inr w'" and "\<And>b u. fixed32 b \<Longrightarrow> getMiner E w1 b u = getMiner E w b u"
    and "BytesToAddress (ID m) = a" "MType m = t" and "unat (Stake m) = (case mo of None \<Rightarrow> 0 | Some m0 \<Rightarrow> unat (Stake m0))"
  shows "sameStakes E w w'"
  using assms minerStake_setMiner [OF assms(1,5,6)]
  by (auto simp: sameStakes_def minerStake_def split: option.splits)

lemma ledger_eqI:
  assumes "wBalance w' = lBal l"
    and "\<And>b s u. fixed32 b \<Longrightarrow> fixed32 s \<Longrightarrow> detailVal E w' b s u Staked = lStaked l b s u"
    and "\<And>b s u. fixed32 b \<Longrightarrow> fixed32 s \<Longrightarrow> detailVal E w' b s u StakeFrozen = lFrozen l b s u"
    and "\<And>b u. fixed32 b \<Longrightarrow> minerStake E w' b u = lStake l b u"
    and "\<And>b s u. \<not> (fixed32 b \<and> fixed32 s) \<Longrightarrow> lStaked l b s u = 0 \<and> lFrozen l b s u = 0"
    and "\<And>b u. \<not> fixed32 b \<Longrightarrow> lStake l b u = 0"
  shows "ledgerOf E w' = l"
  by (rule ledger.equality) (use assms in \<open>auto simp: ledgerOf_def fun_eq_iff\<close>)

lemma setDetail_val:
  assumes "codecsOk E" and "setDetail E w a (getDetailKey src t r) d = Inr w'" and "fixed32 src" and "fixed32 s"
  shows "detailVal E w' b s u q = (if b = a \<and> s = src \<and> u = t \<and> q = r then unat (sdValue d) else detailVal E w b s u q)"
  using setDetail_Inr(5) [OF assms(1-4)] by (simp add: detailVal_def)

lemma removeDetail_val:
  assumes "fixed32 src" and "fixed32 s"
  shows "detailVal E (removeDetail w a (getDetailKey src t r)) b s u q =
    (if b = a \<and> s = src \<and> u = t \<and> q = r then 0 else detailVal E w b s u q)"
  using assms by (auto simp: detailVal_def removeDetail_def getDetail_def detailKey_inj)

lemma removeDetail_balance [simp]: "wBalance (removeDetail w a k) = wBalance w"
  by (simp add: removeDetail_def)

lemma detailVal_eq: "getDetail E w a (getDetailKey s t r) = Inr od \<Longrightarrow>
    detailVal E w a s t r = (case od of None \<Rightarrow> 0 | Some d \<Rightarrow> unat (sdValue d))"
  by (simp add: detailVal_def split: option.splits)

lemma minerStake_eq: "getMiner E w a t = Inr mo \<Longrightarrow>
    minerStake E w a t = (case mo of None \<Rightarrow> 0 | Some m \<Rightarrow> unat (Stake m))"
  by (simp add: minerStake_def split: option.splits)

lemma ledgerOf_sel [simp]:
  "lBal (ledgerOf E w) = wBalance w"
  "fixed32 a \<Longrightarrow> fixed32 s \<Longrightarrow> lStaked (ledgerOf E w) a s t = detailVal E w a s t Staked"
  "fixed32 a \<Longrightarrow> fixed32 s \<Longrightarrow> lFrozen (ledgerOf E w) a s t = detailVal E w a s t StakeFrozen"
  "fixed32 a \<Longrightarrow> lStake (ledgerOf E w) a t = minerStake E w a t"
  "\<not> (fixed32 a \<and> fixed32 s) \<Longrightarrow> lStaked (ledgerOf E w) a s t = 0"
  "\<not> (fixed32 a \<and> fixed32 s) \<Longrightarrow> lFrozen (ledgerOf E w) a s t = 0"
  "\<not> fixed32 a \<Longrightarrow> lStake (ledgerOf E w) a t = 0"
  by (auto simp: ledgerOf_def)

lemma status_ne [simp]: "Staked \<noteq> StakeFrozen" "StakeFrozen \<noteq> Staked" "StakePunishment \<noteq> Staked" "StakePunishment \<noteq> StakeFrozen"
  by (simp_all add: miner_consts)

lemma raiseDetail_value: "sdValue (raiseDetail od v) = (case od of None \<Rightarrow> v | Some d \<Rightarrow> sdValue d + v)"
  by (simp add: raiseDetail_def split: option.splits)

section \<open>Adding stake\<close>

lemma sameDetails_activate:
  "activate op m w = Some (m2, w2) \<Longrightarrow> fixed32 (addTarget op) \<Longrightarrow> sameDetails E w w2"
  using sameDetails_addTotal sameDetails_addToPool by (auto simp: activate_def split: if_splits)

lemma stakeAdd_ledger:
  assumes E: "codecsOk E" and inv: "poolInv E w" and src: "fixed32 (addSource op)" and a: "fixed32 (addTarget op)"
    and run: "stakeAdd_Transition E op w = Some (None, w')"
  shows "ledgerOf E w' = ledgerStep (StakeAdd op) (ledgerOf E w)"
  using run
proof (rule stakeAdd_success)
  fix mo w1 m0 m2 w2 w3
  let ?m1 = "if addTarget op = addSource op then setPks m0 (saPks op) else m0"
  assume g: "getMiner E w (addTarget op) (saType op) = Inr mo" and pay: "reduceBalance w (addSource op) (saValue op) = Inr w1"
    and st: "stakedMiner op mo = Inr m0" and act: "activate op ?m1 w1 = Some (m2, w2)"
    and set: "setMiner E w2 m2 = Inr w3" and det: "addStakeDetail E op w3 = Some (None, w')"
  from det obtain od where od: "getDetail E w3 (addTarget op) (getDetailKey (addSource op) (saType op) Staked) = Inr od"
    and nw: "case od of Some d \<Rightarrow> \<not> sdValue d + saValue op < sdValue d | None \<Rightarrow> True"
    and sd: "setDetail E w3 (addTarget op) (getDetailKey (addSource op) (saType op) Staked)
       ((raiseDetail od (saValue op))\<lparr>sdHeight := saHeight op\<rparr>) = Inr w'" by (rule addStakeDetail_success)
  note w1 = observe_reduceBalance [OF pay] conjunct1 [OF conjunct2 [OF reduceBalance_Inr [OF pay]]]
  have s3: "sameDetails E w1 w3"
    using sameDetails_activate [OF act a] sameDetails_setMiner [OF E set] by (rule sameDetails_trans)
  have val3: "detailVal E w3 b s u r = detailVal E w b s u r" if "fixed32 s" for b s u r
    using sameDetails_val [OF s3 that] by (simp add: w1 detailVal_def)
  have new: "unat (sdValue (raiseDetail od (saValue op))) =
      detailVal E w (addTarget op) (addSource op) (saType op) Staked + unat (saValue op)"
    using detailVal_eq [OF od] val3 [OF src] nw by (auto simp: raiseDetail_value unat_add_no_wrap split: option.splits)
  have named: "BytesToAddress (ID m0) = addTarget op \<and> MType m0 = saType op"
    using stakedMiner_props [OF st] poolInv_named [OF inv a] g a by (auto simp: initMiner_def split: option.splits)
  have m2: "BytesToAddress (ID m2) = addTarget op" "MType m2 = saType op" "Stake m2 = Stake m0"
    using activate_props(1) [OF act a] named by auto
  have stake: "unat (Stake m0) = minerStake E w (addTarget op) (saType op) + unat (saValue op)"
    using stakedMiner_props [OF st] minerStake_eq [OF g] by (auto simp: initMiner_def split: option.splits)
  have ms: "minerStake E w' b u = (if b = addTarget op \<and> u = saType op then unat (Stake m0) else minerStake E w b u)"
    if "fixed32 b" for b u
  proof -
    have "minerStake E w' b u = minerStake E w3 b u" by (simp add: minerStake_def setDetail_Inr(1) [OF E sd src])
    also have "\<dots> = (if b = addTarget op \<and> u = saType op then unat (Stake m0) else minerStake E w b u)"
      using minerStake_setMiner [OF E set _ that, of w u] activate_props(2) [OF act a] m2 by (simp add: w1)
    finally show ?thesis .
  qed
  show ?thesis
    by (rule ledger_eqI)
      (use src a new stake s3 setDetail_Inr(4) [OF E sd src] setDetail_val [OF E sd src] val3 ms in
        \<open>auto simp: lAdd_def upd3_apply upd2_apply sameDetails_def w1\<close>)
qed

section \<open>Reducing and refunding\<close>

lemma sameDetails_deactivate:
  "deactivate op origin m w = Some (m2, w1) \<Longrightarrow> fixed32 (cancelTarget op) \<Longrightarrow> sameDetails E w w1"
  using sameDetails_subTotal sameDetails_removeFromPool by (auto simp: deactivate_def split: if_splits)

lemma lowerDetail_effect:
  assumes E: "codecsOk E" and src: "fixed32 (cancelSource op)" and low: "lowerDetail E op d w = Inr w'"
    and g: "getDetail E w (cancelTarget op) (getDetailKey (cancelSource op) (srType op) Staked) = Inr (Some d)"
    and le: "\<not> sdValue d < srValue op"
  shows "wBalance w' = wBalance w" and "fixed32 s \<Longrightarrow> detailVal E w' b s u r =
     (if b = cancelTarget op \<and> s = cancelSource op \<and> u = srType op \<and> r = Staked
      then detailVal E w b s u r - unat (srValue op) else detailVal E w b s u r)"
proof -
  have v: "unat (sdValue d - srValue op) = unat (sdValue d) - unat (srValue op)"
    using le by (simp add: unat_sub_no_borrow not_less)
  show "wBalance w' = wBalance w" using low setDetail_Inr(4) [OF E _ src]
    by (auto simp: lowerDetail_def Let_def split: if_splits)
  show "detailVal E w' b s u r =
     (if b = cancelTarget op \<and> s = cancelSource op \<and> u = srType op \<and> r = Staked
      then detailVal E w b s u r - unat (srValue op) else detailVal E w b s u r)" if "fixed32 s"
    using low removeDetail_val [OF src that] setDetail_val [OF E _ src that] detailVal_eq [OF g] v
    by (auto simp: lowerDetail_def Let_def split: if_splits)
qed

definition frozenFits :: "menv \<Rightarrow> stakeReduceOp \<Rightarrow> world \<Rightarrow> bool" where
  "frozenFits E op w \<longleftrightarrow>
    detailVal E w (cancelTarget op) (cancelSource op) (srType op) StakeFrozen + unat (srValue op) < 2 ^ 64"

lemma freezeDetail_effect:
  assumes E: "codecsOk E" and src: "fixed32 (cancelSource op)" and run: "freezeDetail E op w = Some (None, w')"
  shows "wBalance w' = wBalance w" and "fixed32 s \<Longrightarrow> r = StakeFrozen \<longrightarrow> frozenFits E op w \<Longrightarrow> detailVal E w' b s u r =
     (if b = cancelTarget op \<and> s = cancelSource op \<and> u = srType op \<and> r = StakeFrozen
      then detailVal E w b s u r + unat (srValue op) else detailVal E w b s u r)"
proof -
  from run obtain od where
    g: "getDetail E w (cancelTarget op) (getDetailKey (cancelSource op) (srType op) StakeFrozen) = Inr od"
    and sd: "setDetail E w (cancelTarget op) (getDetailKey (cancelSource op) (srType op) StakeFrozen)
       ((raiseDetail od (srValue op))\<lparr>sdHeight := srHeight op\<rparr>) = Inr w'" by (rule freezeDetail_success)
  have v: "unat (sdValue (raiseDetail od (srValue op))) =
      detailVal E w (cancelTarget op) (cancelSource op) (srType op) StakeFrozen + unat (srValue op)" if "frozenFits E op w"
    using detailVal_eq [OF g] that by (auto simp: frozenFits_def raiseDetail_value unat_word_ariths split: option.splits)
  show "wBalance w' = wBalance w" by (rule setDetail_Inr(4) [OF E sd src])
  show "detailVal E w' b s u r =
     (if b = cancelTarget op \<and> s = cancelSource op \<and> u = srType op \<and> r = StakeFrozen
      then detailVal E w b s u r + unat (srValue op) else detailVal E w b s u r)"
    if "fixed32 s" "r = StakeFrozen \<longrightarrow> frozenFits E op w"
    using setDetail_val [OF E sd src that(1), of b u r] v that(2) by auto
qed

lemma stakeReduce_effect:
  assumes E: "codecsOk E" and inv: "poolInv E w" and src: "fixed32 (cancelSource op)" and a: "fixed32 (cancelTarget op)"
    and run: "stakeReduce_Transition E op w = Some (None, w')"
  defines "l \<equiv> ledgerStep (StakeReduce op) (ledgerOf E w)"
  shows "wBalance w' = wBalance w"
    and "fixed32 b \<Longrightarrow> fixed32 s \<Longrightarrow> detailVal E w' b s u Staked = lStaked l b s u"
    and "fixed32 b \<Longrightarrow> fixed32 s \<Longrightarrow> frozenFits E op w \<Longrightarrow> detailVal E w' b s u StakeFrozen = lFrozen l b s u"
    and "fixed32 b \<Longrightarrow> minerStake E w' b u = lStake l b u"
    and "unat (srValue op) \<le> detailVal E w (cancelTarget op) (cancelSource op) (srType op) Staked"
    and "unat (srValue op) \<le> minerStake E w (cancelTarget op) (srType op)"
proof -
  from run obtain m m2 w1 w2 where g: "getMiner E w (cancelTarget op) (srType op) = Inr (Some m)"
    and le: "\<not> Stake m < srValue op"
    and act: "deactivate op (Stake m) (m\<lparr>Stake := Stake m - srValue op\<rparr>) w = Some (m2, w1)"
    and set: "setMiner E w1 m2 = Inr w2" and det: "reduceDetail E op (Stake m) w2 = Some (None, w')"
    by (rule stakeReduce_success)
  from det obtain d w3 where d: "getDetail E w2 (cancelTarget op) (getDetailKey (cancelSource op) (srType op) Staked) = Inr (Some d)"
    and dl: "\<not> sdValue d < srValue op" and low: "lowerDetail E op d w2 = Inr w3" and fr: "freezeDetail E op w3 = Some (None, w')"
    by (rule reduceDetail_success)
  have s2: "sameDetails E w w2" using sameDetails_deactivate [OF act a] sameDetails_setMiner [OF E set] by (rule sameDetails_trans)
  note v2 = sameDetails_val [OF s2] and v3 = lowerDetail_effect [OF E src low d dl] and v4 = freezeDetail_effect [OF E src fr]
  have m2: "BytesToAddress (ID m2) = cancelTarget op" "MType m2 = srType op" "Stake m2 = Stake m - srValue op"
    using deactivate_props(1) [OF act a] poolInv_named [OF inv a g] by auto
  have stake: "unat (Stake m - srValue op) = minerStake E w (cancelTarget op) (srType op) - unat (srValue op)"
    using minerStake_eq [OF g] le by (simp add: unat_sub_no_borrow not_less)
  have fits: "frozenFits E op w3" if "frozenFits E op w" using that v3(2) [OF src] v2 [OF src] by (simp add: frozenFits_def)
  show "wBalance w' = wBalance w" using s2 v3(1) v4(1) by (simp add: sameDetails_def)
  show "fixed32 b \<Longrightarrow> fixed32 s \<Longrightarrow> detailVal E w' b s u Staked = lStaked l b s u"
    using v2 v3(2) v4(2) src a by (simp add: l_def lReduce_def upd3_apply)
  show "fixed32 b \<Longrightarrow> fixed32 s \<Longrightarrow> frozenFits E op w \<Longrightarrow> detailVal E w' b s u StakeFrozen = lFrozen l b s u"
    using v2 v3(2) v4(2) src a fits by (simp add: l_def lReduce_def upd3_apply)
  show "fixed32 b \<Longrightarrow> minerStake E w' b u = lStake l b u"
    using quiet_sameStakes [OF quiet_reduceDetail [OF E src det]]
      minerStake_setMiner [OF E set deactivate_props(2) [OF act a], of b u] m2 stake a
    by (simp add: sameStakes_def l_def lReduce_def upd2_apply)
  show "unat (srValue op) \<le> detailVal E w (cancelTarget op) (cancelSource op) (srType op) Staked"
    using detailVal_eq [OF d] v2 [OF src] dl by (simp add: word_less_iff_unat)
  show "unat (srValue op) \<le> minerStake E w (cancelTarget op) (srType op)"
    using minerStake_eq [OF g] le by (simp add: word_less_iff_unat)
qed

lemma stakeReduce_ledger:
  assumes "codecsOk E" and "poolInv E w" and src: "fixed32 (cancelSource op)" and a: "fixed32 (cancelTarget op)"
    and "stakeReduce_Transition E op w = Some (None, w')" and fits: "frozenFits E op w"
  shows "ledgerOf E w' = ledgerStep (StakeReduce op) (ledgerOf E w)"
  by (rule ledger_eqI)
    (use stakeReduce_effect [OF assms(1-5)] fits src a in \<open>auto simp: lReduce_def upd3_apply upd2_apply\<close>)

lemma stakeRefund_ledger:
  assumes src: "fixed32 (refundSource op)" and a: "fixed32 (refundTarget op)"
    and run: "stakeRefund_Transition E op w = Some (None, w')"
  shows "ledgerOf E w' = ledgerStep (StakeRefund op) (ledgerOf E w)"
  using run
proof (rule stakeRefund_success)
  fix d
  let ?k = "getDetailKey (refundSource op) (rfType op) StakeFrozen"
  assume g: "getDetail E w (refundTarget op) ?k = Inr (Some d)"
    and w': "w' = w_AddBalance (removeDetail w (refundTarget op) ?k) (refundSource op) (uint (sdValue d))"
  have "quiet E w w'" using quiet_trans [OF quiet_removeDetail [OF src] quiet_balance(1)] by (simp add: w')
  then have ms: "minerStake E w' b u = minerStake E w b u" if "fixed32 b" for b u
    using quiet_sameStakes that by (auto simp: sameStakes_def)
  have val: "detailVal E w' b s u q = (if b = refundTarget op \<and> s = refundSource op \<and> u = rfType op \<and> q = StakeFrozen
      then 0 else detailVal E w b s u q)" if "fixed32 s" for b s u q
    using removeDetail_val [OF src that] by (simp add: w' detailVal_def)
  show ?thesis
    by (rule ledger_eqI)
      (use src a ms val detailVal_eq [OF g] in \<open>auto simp: lRefund_def upd3_apply w'\<close>)
qed

section \<open>Operations that move no stake\<close>

definition sameVals :: "menv \<Rightarrow> world \<Rightarrow> world \<Rightarrow> bool" where
  "sameVals E w w' \<longleftrightarrow> wBalance w' = wBalance w \<and>
    (\<forall>b s u r. fixed32 s \<longrightarrow> detailVal E w' b s u r = detailVal E w b s u r)"

lemma sameVals_details: "sameDetails E w w' \<Longrightarrow> sameVals E w w'"
  using sameDetails_val by (auto simp: sameVals_def sameDetails_def)

lemma sameVals_trans: "sameVals E w v \<Longrightarrow> sameVals E v u \<Longrightarrow> sameVals E w u"
  by (simp add: sameVals_def)

lemma sameVals_ledger:
  assumes "sameVals E w w'" and "sameStakes E w w'"
  shows "ledgerOf E w' = ledgerOf E w"
  using assms by (auto simp: ledgerOf_def sameVals_def sameStakes_def fun_eq_iff)

lemma leave_ledger:
  assumes E: "codecsOk E" and inv: "poolInv E w" and a: "fixed32 a" and g: "getMiner E w a t = Inr (Some m)"
    and rem: "(if IsActive m then removeFromPool w t a (Stake m) else Some w) = Some w1"
    and m': "ID m' = ID m" "MType m' = MType m" "Stake m' = Stake m" and set: "setMiner E w1 m' = Inr w2"
  shows "sameDetails E w w2" and "sameStakes E w w2"
proof -
  have pre: "getMiner E w1 b u = getMiner E w b u" for b u
    using rem removeFromPool_Some(1) [OF _ a] by (auto split: if_splits)
  have "sameDetails E w w1" using rem sameDetails_removeFromPool [OF a] by (auto split: if_splits)
  then show "sameDetails E w w2" using sameDetails_setMiner [OF E set] by (rule sameDetails_trans)
  show "sameStakes E w w2"
    by (rule sameStakes_setMiner [OF E inv a g set pre]) (use poolInv_named [OF inv a g] m' in simp_all)
qed

lemma minerAbort_ledger:
  assumes "codecsOk E" and "poolInv E w" and "fixed32 (maAddr op)" and "minerAbort_Transition E op w = Some (None, w')"
  shows "ledgerOf E w' = ledgerOf E w"
proof -
  from assms(4) obtain m w1 where g: "getMiner E w (maAddr op) (maType op) = Inr (Some m)"
    and rem: "(if IsActive m then removeFromPool w (maType op) (maAddr op) (Stake m) else Some w) = Some w1"
    and set: "setMiner E w1 (UpdateStatus MinerStatusPrepare (maHeight op) m) = Inr w'"
    by (auto simp: minerAbort_Transition_def baseProcessMinerAbort_def orPanic_def orFail_def
        dest!: processMinerAbort_success split: sum.splits option.splits prod.splits if_splits)
  from leave_ledger [OF assms(1-3) g rem _ _ _ set] show ?thesis by (intro sameLedger) simp_all
qed

lemma minerFreeze_ledger:
  assumes "codecsOk E" and "poolInv E w" and "fixed32 a" and "minerFreeze_Transition E a h w = Some (None, w')"
  shows "ledgerOf E w' = ledgerOf E w"
proof -
  from assms(4) obtain m w1 where g: "getMiner E w a MinerTypeVerify = Inr (Some m)"
    and rem: "(if IsActive m then removeFromPool w MinerTypeVerify a (Stake m) else Some w) = Some w1"
    and set: "setMiner E w1 (UpdateStatus MinerStatusFrozen h m) = Inr w'"
    by (auto simp: minerFreeze_Transition_def orPanic_def orFail_def split: sum.splits option.splits if_splits)
  from leave_ledger [OF assms(1-3) g rem _ _ _ set] show ?thesis by (intro sameLedger) simp_all
qed

lemma identity_ledger:
  assumes E: "codecsOk E" and inv: "poolInv E w" and a: "fixed32 a" and g: "getMiner E w a t = Inr (Some m)"
    and set: "setMiner E w (UpdateIdentity i h m) = Inr w'"
  shows "sameDetails E w w'" and "sameStakes E w w'"
  using sameDetails_setMiner [OF E set] sameStakes_setMiner [OF E inv a g set] poolInv_named [OF inv a g] by simp_all

lemma reduceTickets_ledger:
  assumes E: "codecsOk E" and inv: "poolInv E w" and a: "fixed32 (rtTarget op)"
    and run: "reduceTickets_Transition E op w = Some (None, w')"
  shows "sameDetails E w w'" and "sameStakes E w w'"
proof -
  from run obtain mo n w1 where g: "getMiner E w (rtTarget op) MinerTypeProposal = Inr mo"
    and sub: "subTicket w (rtTarget op) = (n, w1)"
    and after: "afterTicketReduce E (geneBaseIdentityOp MinerTypeProposal mo) op mo n w1 = Some (None, w')"
    by (auto simp: reduceTickets_Transition_def processReduceTicket_def split: sum.splits if_splits prod.splits)
  have q: "quiet E w w1" and s1: "sameDetails E w w1" using a sub by simp_all
  then have inv1: "poolInv E w1" using inv by (blast intro: quiet_inv)
  have g1: "getMiner E w1 (rtTarget op) MinerTypeProposal = Inr mo" using g a q by (simp add: quiet_def)
  from afterTicketReduce_success [OF after] consider "w' = w1"
    | m where "mo = Some m" "\<not> IsActive m" "setMiner E w1 (UpdateIdentity InValidMinerPool (rtHeight op) m) = Inr w'"
    | m w2 where "mo = Some m" "IsActive m" "removeFromPool w1 MinerTypeProposal (rtTarget op) (Stake m) = Some w2"
        "setMiner E w2 (UpdateStatus MinerStatusPrepare (rtHeight op) (UpdateIdentity InValidMinerPool (rtHeight op) m)) = Inr w'"
    by blast
  then have "sameDetails E w1 w' \<and> sameStakes E w1 w'"
  proof cases
    case 2 then show ?thesis using identity_ledger [OF E inv1 a] g1 by blast
  next
    case 3
    then show ?thesis using leave_ledger [OF E inv1 a _ _ _ _ _ 3(4), of _ m] g1 by simp
  qed simp
  then show "sameDetails E w w'" "sameStakes E w w'"
    using s1 quiet_sameStakes [OF q] by (blast intro: sameDetails_trans sameStakes_trans)+
qed

lemma afterTicketsFull_ledger:
  assumes E: "codecsOk E" and inv: "poolInv E w" and a: "fixed32 (vmTarget op)"
    and g: "getMiner E w (vmTarget op) MinerTypeProposal = Inr mo"
    and run: "afterTicketsFull E iop op mo w = Some (None, w')"
  shows "sameDetails E w w'" and "sameStakes E w w'"
proof -
  have "w' = w \<or> (\<exists>m. setMiner E w (UpdateIdentity MinerPool (vmHeight op) m) = Inr w' \<and>
      unat (Stake m) = (case mo of None \<Rightarrow> 0 | Some m0 \<Rightarrow> unat (Stake m0)) \<and>
      BytesToAddress (ID m) = vmTarget op \<and> MType m = MinerTypeProposal)"
    using run a g poolInv_named [OF inv a]
    by (cases iop; cases mo) (auto simp: orFail_def Let_def split: sum.splits)
  then show "sameDetails E w w'" "sameStakes E w w'"
    using sameDetails_setMiner [OF E] sameStakes_setMiner [OF E inv a g] by auto
qed

lemma voteMinerPool_ledger:
  assumes E: "codecsOk E" and inv: "poolInv E w" and ab: "fixed32 (vmSource op)" "fixed32 (vmTarget op)"
    and run: "voteMinerPool_Transition E op w = Some (None, w')"
  shows "ledgerOf E w' = ledgerOf E w"
proof -
  from run obtain mo vf where g: "getMiner E w (vmTarget op) MinerTypeProposal = Inr mo"
    and vf: "getVoteInfo E w (vmSource op) = Inr vf"
    and b: "baseVote E op vf w (\<lambda>isFull w1. if isFull then afterTicketsFull E (geneBaseIdentityOp MinerTypeProposal mo) op mo w1
        else succeeds w1) = Some (None, w')" by (rule voteMinerPool_success)
  from b show ?thesis
  proof (rule baseVote_success)
    fix v :: voteInfo and w1 w2 w3 f w4
    let ?r = "\<lparr>rtTarget = vTarget v, rtHeight = vmHeight op\<rparr>"
    assume v: "voteBefore E op vf w = Inr (v, w1)" and vote: "voteMinerPool E w1 v (vmSource op) (vmTarget op) (vmHeight op) = Inr w2"
      and red: "w3 = w2 \<or> vTarget v \<noteq> vmTarget op \<and> reduceTickets_Transition E ?r w2 = Some (None, w3)"
      and add: "w4 = w3 \<or> (\<exists>n. addTicket w3 (vmTarget op) = (n, w4))"
      and k: "(if f then afterTicketsFull E (geneBaseIdentityOp MinerTypeProposal mo) op mo w4 else succeeds w4) = Some (None, w')"
    note st = baseVote_pool [OF E inv ab vf v vote red add]
    have "sameDetails E w w1" using v sameDetails_vote(3) by (auto simp: voteBefore_def split: option.splits)
    then have d2: "sameDetails E w w2" using sameDetails_vote(2) [OF vote] by (rule sameDetails_trans)
    have s2: "sameStakes E w w2" using st(1) by (rule quiet_sameStakes)
    have n3: "sameDetails E w2 w3 \<and> sameStakes E w2 w3"
      using red reduceTickets_ledger [OF E st(2), of ?r w3] voteBefore_props(2) [OF v E vf] by auto
    have n4: "sameDetails E w3 w4 \<and> sameStakes E w3 w4" using add ab(2) by (auto intro: quiet_sameStakes)
    have n5: "sameDetails E w4 w' \<and> sameStakes E w4 w'"
      using k afterTicketsFull_ledger [OF E st(3) ab(2), of mo] st(4) g by (auto split: if_splits)
    show ?thesis using d2 s2 n3 n4 n5 by (intro sameLedger) (blast intro: sameDetails_trans sameStakes_trans)+
  qed
qed

lemma sameVals_setDetail:
  assumes "codecsOk E" and "fixed32 s" and "getDetail E w a (getDetailKey s t r) = Inr (Some d0)"
    and "setDetail E w a (getDetailKey s t r) d = Inr w'" and "sdValue d = sdValue d0"
  shows "sameVals E w w'"
  using setDetail_Inr(4) [OF assms(1,4,2)] setDetail_val [OF assms(1,4,2)] detailVal_eq [OF assms(3)] assms(5)
  by (auto simp: sameVals_def)

lemma sameVals_afterBecomeFullGuardNode:
  assumes E: "codecsOk E" and a: "fixed32 a" and g: "getDetail E w a (getDetailKey a t s) = Inr (Some d)"
    and run: "afterBecomeFullGuardNode E iop (getDetailKey a t s) d a h w = Some (None, w')"
  shows "sameVals E w w'"
proof -
  have step: "sameVals E w w'"
    if w1: "sameDetails E w w1" and sd: "setDetail E w1 a (getDetailKey a t s) d1 = Inr w'" "sdValue d1 = sdValue d" for w1 d1
  proof -
    have "getDetail E w1 a (getDetailKey a t s) = Inr (Some d)" using w1 g a by (simp add: sameDetails_def)
    from sameVals_setDetail [OF E a this sd] sameVals_details [OF w1] show ?thesis by (blast intro: sameVals_trans)
  qed
  show ?thesis
  proof (cases iop)
    case NormalProposalMiner
    with run have "setDetail E (addFullStakeGuardPool w a) a (getDetailKey a t s)
        (d\<lparr>DisMissHeight := h + adjustWeightPeriod div 2\<rparr>) = Inr w'" by (auto simp: orFail_def Let_def split: sum.splits)
    from step [OF sameDetails_guard(1) [OF a] this] show ?thesis by simp
  next
    case GuardProposalMiner
    show ?thesis
    proof (cases "DisMissHeight d = 0")
      case True
      with run GuardProposalMiner obtain w1 where w1: "updateFundGuardPoolStatus E w a fullStakeGuardNodeType h = Inr w1"
        and sd: "setDetail E (addFullStakeGuardPool w1 a) a (getDetailKey a t s)
          (d\<lparr>DisMissHeight := h + adjustWeightPeriod div 2\<rparr>) = Inr w'" by (auto simp: orFail_def Let_def split: sum.splits)
      from step [OF sameDetails_trans [OF sameDetails_guard_status [OF a w1] sameDetails_guard(1) [OF a]] sd]
      show ?thesis by simp
    next
      case False
      with run GuardProposalMiner have "setDetail E w a (getDetailKey a t s)
          (d\<lparr>DisMissHeight := DisMissHeight d + adjustWeightPeriod div 2\<rparr>) = Inr w'"
        by (auto simp: orFail_def Let_def split: sum.splits)
      from step [OF sameDetails_refl this] show ?thesis by simp
    qed
  qed (use run in \<open>simp_all add: sameVals_def\<close>)
qed

lemma applyGuard_ledger:
  assumes E: "codecsOk E" and inv: "poolInv E w" and a: "fixed32 (agTarget op)"
    and run: "applyGuard_Transition E op w = Some (None, w')"
  shows "ledgerOf E w' = ledgerOf E w"
  using run
proof (rule applyGuard_success)
  fix m d w1 w2
  let ?k = "getDetailKey (agTarget op) MinerTypeProposal Staked"
  assume g: "getMiner E w (agTarget op) MinerTypeProposal = Inr (Some m)" and d: "getDetail E w (agTarget op) ?k = Inr (Some d)"
    and set: "setMiner E w (UpdateIdentity MinerGuard (agHeight op) m) = Inr w1"
    and after: "afterBecomeFullGuardNode E (geneBaseIdentityOp MinerTypeProposal (Some m)) ?k d (agTarget op) (agHeight op) w1 = Some (None, w2)"
    and vote: "refreshVote E op w2 = Some (None, w')"
  note id = identity_ledger [OF E inv a g set]
  have d1: "getDetail E w1 (agTarget op) ?k = Inr (Some d)" using id(1) d a by (simp add: sameDetails_def)
  have "sameVals E w w2" using sameVals_details [OF id(1)] sameVals_afterBecomeFullGuardNode [OF E a d1 after] by (rule sameVals_trans)
  moreover have "sameDetails E w2 w'" and q: "quiet E w2 w'"
    using vote quiet_vote(1) sameDetails_vote(1) by (auto simp: refreshVote_def orFail_def split: sum.splits option.splits)
  ultimately have "sameVals E w w'" by (blast intro: sameVals_trans sameVals_details)
  moreover have "sameStakes E w w'"
    using id(2) quiet_sameStakes [OF quiet_afterBecomeFullGuardNode [OF E a a after]] quiet_sameStakes [OF q]
    by (blast intro: sameStakes_trans)
  ultimately show ?thesis by (rule sameVals_ledger)
qed

lemma changeFundGuardMode_ledger:
  assumes a: "fixed32 (cfSource op)" and run: "changeFundGuardMode_Transition E op w = Some (None, w')"
  shows "ledgerOf E w' = ledgerOf E w"
proof -
  have "sameDetails E w w'" "quiet E w w'" using run quiet_guard_mode [OF a] sameDetails_guard(2) [OF a]
    by (auto simp: changeFundGuardMode_Transition_def processChangeFundGuardMode_def updateFundGuardMode_def
        split: sum.splits option.splits if_splits)
  then show ?thesis by (blast intro: sameLedger quiet_sameStakes)
qed

end
