(* ===== verification/Miner_Stake.thy ===== *)
theory Miner_Stake
  imports Miner_Ledger
begin

text \<open>
  The properties of the miner operations as a whole: runs of operations, each reverted when it
  fails, keep the pool invariant, implement the ledger, conserve the value, keep the stake of every
  miner equal to the sum of its stake details, and cannot reach the panics of the stake code.
\<close>

section \<open>Runs of reverting operations\<close>

text \<open>\<open>executeOperation\<close> with the transition as a parameter, and a sequence of operations.\<close>

definition reverting :: "('op \<Rightarrow> world \<Rightarrow> outcome option) \<Rightarrow> 'op \<Rightarrow> world \<Rightarrow> (error option \<times> world) option" where
  "reverting step op w =
    (case step op w of
       None \<Rightarrow> None
     | Some (Some (e, rs), _) \<Rightarrow> Some (Some e, w)
     | Some (None, w1) \<Rightarrow> Some (None, w1))"

fun runAll :: "('op \<Rightarrow> world \<Rightarrow> (error option \<times> world) option) \<Rightarrow> 'op list \<Rightarrow> world \<Rightarrow> world option" where
  "runAll ex [] w = Some w"
| "runAll ex (op # ops) w = (case ex op w of None \<Rightarrow> None | Some (_, w1) \<Rightarrow> runAll ex ops w1)"

lemma executeOperation_reverting: "executeOperation E = reverting (mTransition E)"
  by (simp add: fun_eq_iff executeOperation_def reverting_def)

text \<open>The interface: an invariant that every successful transition of an admissible operation keeps.\<close>

locale guarded_op =
  fixes okOp :: "'op \<Rightarrow> bool" and step :: "'op \<Rightarrow> world \<Rightarrow> outcome option" and inv :: "world \<Rightarrow> bool"
  assumes step_inv: "okOp op \<Longrightarrow> inv w \<Longrightarrow> step op w = Some (None, w') \<Longrightarrow> inv w'"
begin

lemma exec_inv: "okOp op \<Longrightarrow> inv w \<Longrightarrow> reverting step op w = Some (e, w') \<Longrightarrow> inv w'"
  by (auto simp: reverting_def split: option.splits prod.splits dest: step_inv)

lemma exec_error: "reverting step op w = Some (Some e, w') \<Longrightarrow> w' = w"
  by (auto simp: reverting_def split: option.splits prod.splits)

lemma run_inv: "list_all okOp ops \<Longrightarrow> inv w \<Longrightarrow> runAll (reverting step) ops w = Some w' \<Longrightarrow> inv w'"
  by (induction ops arbitrary: w) (auto split: option.splits prod.splits dest: exec_inv)

end

text \<open>The addresses of an operation are 32-byte arrays.\<close>

fun opAddrs :: "mOperation \<Rightarrow> address list" where
  "opAddrs (StakeAdd op) = [addSource op, addTarget op]"
| "opAddrs (MinerAbort op) = [maAddr op]"
| "opAddrs (StakeReduce op) = [cancelSource op, cancelTarget op]"
| "opAddrs (StakeRefund op) = [refundSource op, refundTarget op]"
| "opAddrs (ApplyGuard op) = [agTarget op]"
| "opAddrs (VoteMinerPool op) = [vmSource op, vmTarget op]"
| "opAddrs (ChangeFundGuardMode op) = [cfSource op]"
| "opAddrs (MinerFreeze a h) = [a]"
| "opAddrs (MinerPenalty op) = mpTargets op"

definition opOk :: "mOperation \<Rightarrow> bool" where
  "opOk op \<longleftrightarrow> list_all fixed32 (opAddrs op)"

lemma mTransition_pool:
  assumes "codecsOk E" and "opOk op" and "poolInv E w" and "mTransition E op w = Some (None, w')"
  shows "poolInv E w'"
  using assms(2,4)
  by (cases op) (auto simp: opOk_def intro: stakeAdd_pool [OF assms(1,3)] minerAbort_pool [OF assms(1,3)]
      stakeReduce_pool [OF assms(1,3)] stakeRefund_pool [OF assms(3)] applyGuard_pool [OF assms(1,3)]
      voteMinerPool_pool [OF assms(1,3)] changeFundGuardMode_pool [OF assms(3)] minerFreeze_pool [OF assms(1,3)]
      minerPenalty_pool [OF assms(1,3)])

interpretation pool_ops: guarded_op "\<lambda>op. codecsOk E \<and> opOk op" "mTransition E" "poolInv E" for E
  by unfold_locales (auto intro: mTransition_pool)

section \<open>Penalties on the ledger\<close>

lemma subFrozen_effect:
  assumes E: "codecsOk E" and a: "fixed32 a" and run: "subFrozen E a n h w = Some (None, w')"
  shows "wBalance w' = wBalance w" and "fixed32 s \<Longrightarrow> detailVal E w' b s u r =
     (if b = a \<and> s = a \<and> u = MinerTypeVerify \<and> r = StakeFrozen then detailVal E w b s u r - unat n else detailVal E w b s u r)"
proof -
  from run obtain d where g: "getDetail E w a (getDetailKey a MinerTypeVerify StakeFrozen) = Inr (Some d)"
    and le: "\<not> sdValue d < n"
    and sd: "setDetail E w a (getDetailKey a MinerTypeVerify StakeFrozen) (d\<lparr>sdValue := sdValue d - n, sdHeight := h\<rparr>) = Inr w'"
    by (auto simp: subFrozen_def Let_def orFail_def split: sum.splits option.splits if_splits)
  show "wBalance w' = wBalance w" by (rule setDetail_Inr(4) [OF E sd a])
  show "fixed32 s \<Longrightarrow> detailVal E w' b s u r =
     (if b = a \<and> s = a \<and> u = MinerTypeVerify \<and> r = StakeFrozen then detailVal E w b s u r - unat n else detailVal E w b s u r)"
    using setDetail_val [OF E sd a] detailVal_eq [OF g] le by (simp add: unat_sub_no_borrow not_less)
qed

lemma subPunished_effect:
  assumes E: "codecsOk E" and a: "fixed32 a" and run: "subPunished E a v h w = Some (None, w')"
  defines "st \<equiv> detailVal E w a a MinerTypeVerify Staked"
  shows "wBalance w' = wBalance w" and "fixed32 s \<Longrightarrow> detailVal E w' b s u r =
     (if b = a \<and> s = a \<and> u = MinerTypeVerify \<and> r = Staked then st - unat v
      else if b = a \<and> s = a \<and> u = MinerTypeVerify \<and> r = StakeFrozen then detailVal E w b s u r - (unat v - st)
      else detailVal E w b s u r)"
proof -
  let ?k = "getDetailKey a MinerTypeVerify Staked"
  from run obtain d where g: "getDetail E w a ?k = Inr (Some d)"
    and r: "if sdValue d > v then setDetail E w a ?k (d\<lparr>sdValue := sdValue d - v, sdHeight := h\<rparr>) = Inr w'
       else if v - sdValue d > 0 then subFrozen E a (v - sdValue d) h (removeDetail w a ?k) = Some (None, w')
       else w' = removeDetail w a ?k"
    by (auto simp: subPunished_def Let_def orFail_def split: sum.splits option.splits if_splits)
  have st: "st = unat (sdValue d)" using detailVal_eq [OF g] by (simp add: st_def)
  have big: "unat (sdValue d - v) = st - unat v" if "sdValue d > v"
    using that by (simp add: st unat_sub_no_borrow)
  have small: "unat (v - sdValue d) = unat v - st" if "\<not> sdValue d > v"
    using that by (simp add: st unat_sub_no_borrow not_less)
  have le: "st - unat v = 0" if "\<not> sdValue d > v" using that by (simp add: st word_less_iff_unat)
  have ge: "unat v - st = 0" if "sdValue d > v" using that by (simp add: st word_less_iff_unat)
  have eq: "unat v - st = 0" if "\<not> sdValue d > v" "\<not> v - sdValue d > 0"
    using small [OF that(1)] that(2) by (simp add: word_less_iff_unat)
  show "wBalance w' = wBalance w" using r setDetail_Inr(4) [OF E _ a] subFrozen_effect(1) [OF E a]
    by (fastforce split: if_splits)
  show "detailVal E w' b s u r =
     (if b = a \<and> s = a \<and> u = MinerTypeVerify \<and> r = Staked then st - unat v
      else if b = a \<and> s = a \<and> u = MinerTypeVerify \<and> r = StakeFrozen then detailVal E w b s u r - (unat v - st)
      else detailVal E w b s u r)" if s: "fixed32 s" for s r
  proof (cases "sdValue d > v")
    case True
    with r show ?thesis using setDetail_val [OF E _ a s] big ge by simp
  next
    case False
    with r show ?thesis using subFrozen_effect(2) [OF E a _ s] s small le eq
      by (cases "v - sdValue d > 0") (auto simp: removeDetail_val a)
  qed
qed

lemma addPunishment_effect:
  assumes E: "codecsOk E" and run: "addPunishment E a v h w = Some (None, w')"
  shows "wBalance w' = wBalance w"
    and "fixed32 s \<Longrightarrow> r \<noteq> StakePunishment \<Longrightarrow> detailVal E w' b s u r = detailVal E w b s u r"
proof -
  from run obtain d where
    sd: "setDetail E w a (getDetailKey PunishmentDetailAddr MinerTypeVerify StakePunishment) d = Inr w'"
    by (auto simp: addPunishment_def Let_def orFail_def split: sum.splits)
  show "wBalance w' = wBalance w" by (rule setDetail_Inr(4) [OF E sd]) simp
  show "fixed32 s \<Longrightarrow> r \<noteq> StakePunishment \<Longrightarrow> detailVal E w' b s u r = detailVal E w b s u r"
    using setDetail_val [OF E sd] by simp
qed

lemma punishOne_ledger:
  assumes E: "codecsOk E" and inv: "poolInv E w" and a: "fixed32 a" and run: "punishOne E v h a w = Some (None, w')"
  shows "ledgerOf E w' = lPunish (unat v) a (ledgerOf E w)" and "unat v \<le> minerStake E w a MinerTypeVerify"
proof -
  from run obtain m w1 w2 w3 where g: "getMiner E w a MinerTypeVerify = Inr (Some m)"
    and rem: "(if IsActive m then removeFromPool w MinerTypeVerify a (Stake m) else Some w) = Some w1"
    and le: "\<not> Stake m < v"
    and set: "setMiner E w1 (UpdateStatus MinerStatusFrozen h (m\<lparr>Stake := Stake m - v\<rparr>)) = Inr w2"
    and p: "addPunishment E a v h w2 = Some (None, w3)" and sub: "subPunished E a v h w3 = Some (None, w')"
    by (rule punishOne_success)
  have pre: "getMiner E w1 b u = getMiner E w b u" for b u
    using rem removeFromPool_Some(1) [OF _ a] by (auto split: if_splits)
  have "sameDetails E w w1" using rem sameDetails_removeFromPool [OF a] by (auto split: if_splits)
  then have s2: "sameDetails E w w2" using sameDetails_setMiner [OF E set] by (rule sameDetails_trans)
  note v2 = sameDetails_val [OF s2] and v3 = addPunishment_effect [OF E p] and v4 = subPunished_effect [OF E a sub]
  have q: "quiet E w2 w'"
    using quiet_addPunishment [OF E p] quiet_subPunished [OF E a sub] by (rule quiet_trans)
  have stake: "unat (Stake m - v) = minerStake E w a MinerTypeVerify - unat v"
    using minerStake_eq [OF g] le by (simp add: unat_sub_no_borrow not_less)
  have ms: "minerStake E w' b u = (if b = a \<and> u = MinerTypeVerify then unat (Stake m - v) else minerStake E w b u)"
    if "fixed32 b" for b u
    using quiet_sameStakes [OF q] minerStake_setMiner [OF E set pre that, of u] that poolInv_named [OF inv a g]
    by (simp add: sameStakes_def)
  show "ledgerOf E w' = lPunish (unat v) a (ledgerOf E w)"
    by (rule ledger_eqI)
      (use a s2 v2 v3 v4 ms stake status_ne(3,4) [symmetric] in \<open>auto simp: lPunish_def Let_def upd3_apply upd2_apply sameDetails_def\<close>)
  show "unat v \<le> minerStake E w a MinerTypeVerify"
    using minerStake_eq [OF g] le by (simp add: word_less_iff_unat)
qed

lemma punishAll_ledger:
  assumes E: "codecsOk E" and "poolInv E w" and "list_all fixed32 as" and "punishAll E v h as w = Some (None, w')"
  shows "ledgerOf E w' = fold (lPunish (unat v)) as (ledgerOf E w)"
  using assms(2-)
proof (induction as arbitrary: w)
  case (Cons a as)
  from Cons.prems obtain w1 where w1: "punishOne E v h a w = Some (None, w1)" and rest: "punishAll E v h as w1 = Some (None, w')"
    by auto
  have "poolInv E w1" by (rule punishOne_pool [OF E Cons.prems(1) _ w1]) (use Cons.prems in simp)
  with Cons.IH [OF _ _ rest] punishOne_ledger(1) [OF E Cons.prems(1) _ w1] Cons.prems(2) show ?case by simp
qed simp

lemma ledgerOf_AddBalance: "ledgerOf E (w_AddBalance w a n) = lReward n a (ledgerOf E w)"
  by (auto simp: ledgerOf_def lReward_def minerStake_def detailVal_def fun_eq_iff)

lemma ledgerOf_rewards: "ledgerOf E (fold (\<lambda>a v. w_AddBalance v a n) as w) = fold (lReward n) as (ledgerOf E w)"
  by (induction as arbitrary: w) (simp_all add: ledgerOf_AddBalance)

lemma minerPenalty_ledger:
  assumes "codecsOk E" and "poolInv E w" and "list_all fixed32 (mpTargets op)"
    and "minerPenalty_Transition E op w = Some (None, w')"
  shows "ledgerOf E w' = ledgerStep (MinerPenalty op) (ledgerOf E w)"
proof -
  from assms(4) obtain w1 where p: "punishAll E (mpValue op) (mpHeight op) (mpTargets op) w = Some (None, w1)"
    and r: "w' = (if mpRewards op = [] then w1 else fold (\<lambda>a v. w_AddBalance v a
      (uint (mpValue op * of_nat (length (mpTargets op)) div of_nat (length (mpRewards op))))) (mpRewards op) w1)"
    by (auto simp: minerPenalty_Transition_def Let_def split: if_splits)
  show ?thesis using punishAll_ledger [OF assms(1-3) p] by (simp add: r ledgerOf_rewards)
qed

section \<open>The ledger is implemented\<close>

text \<open>The unchecked addition to the frozen detail has room.\<close>

definition frozenRoom :: "menv \<Rightarrow> mOperation \<Rightarrow> world \<Rightarrow> bool" where
  "frozenRoom E op w \<longleftrightarrow>
    (case op of
       StakeReduce r \<Rightarrow> frozenFits E r w
     | _ \<Rightarrow> True)"

lemma mTransition_ledger:
  assumes E: "codecsOk E" and inv: "poolInv E w" and "opOk op" and "frozenRoom E op w"
    and "mTransition E op w = Some (None, w')"
  shows "ledgerOf E w' = ledgerStep op (ledgerOf E w)"
proof (cases op)
  case (StakeAdd r)
  then show ?thesis using assms(3,5) stakeAdd_ledger [OF E inv] by (simp add: opOk_def)
next
  case (StakeReduce r)
  then show ?thesis using assms(3-5) stakeReduce_ledger [OF E inv] by (simp add: opOk_def frozenRoom_def)
next
  case (StakeRefund r)
  then show ?thesis using assms(3,5) stakeRefund_ledger by (simp add: opOk_def)
next
  case (MinerPenalty r)
  then show ?thesis using assms(3,5) minerPenalty_ledger [OF E inv] by (simp add: opOk_def del: ledgerStep.simps)
qed (use assms(3,5) minerAbort_ledger [OF E inv] applyGuard_ledger [OF E inv] voteMinerPool_ledger [OF E inv]
      changeFundGuardMode_ledger minerFreeze_ledger [OF E inv] in \<open>auto simp: opOk_def\<close>)

section \<open>Conservation\<close>

definition lockedVal :: "address set \<Rightarrow> ledger \<Rightarrow> nat" where
  "lockedVal A l = (\<Sum>(a, s, t)\<in>A \<times> A \<times> UNIV. lStaked l a s t) + (\<Sum>(a, s, t)\<in>A \<times> A \<times> UNIV. lFrozen l a s t)"

definition valueOf :: "address set \<Rightarrow> ledger \<Rightarrow> int" where
  "valueOf A l = (\<Sum>a\<in>A. lBal l a) + int (lockedVal A l)"

lemma sum_upd3:
  assumes "finite A" and "a \<in> A" "s \<in> A"
  shows "(\<Sum>(x, y, z)\<in>A \<times> A \<times> (UNIV :: MinerType set). upd3 f a s t v x y z) + f a s t =
    (\<Sum>(x, y, z)\<in>A \<times> A \<times> UNIV. f x y z) + (v :: nat)"
proof -
  let ?S = "A \<times> A \<times> (UNIV :: MinerType set)"
  have fin: "finite ?S" and mem: "(a, s, t) \<in> ?S" using assms by simp_all
  have "(\<Sum>p\<in>?S - {(a, s, t)}. case p of (x, y, z) \<Rightarrow> upd3 f a s t v x y z) =
      (\<Sum>p\<in>?S - {(a, s, t)}. case p of (x, y, z) \<Rightarrow> f x y z)"
    by (rule sum.cong) (auto simp: upd3_apply split: if_splits)
  then show ?thesis by (simp add: sum.remove [OF fin mem] upd3_apply)
qed

lemma lAdd_value:
  assumes "finite A" and "src \<in> A" "a \<in> A"
  shows "valueOf A (lAdd src a t v l) = valueOf A l"
proof -
  have "lockedVal A (lAdd src a t v l) = lockedVal A l + v"
    using sum_upd3 [OF assms(1,3,2), of "lStaked l" t "lStaked l a src t + v"] by (simp add: lockedVal_def lAdd_def)
  then show ?thesis using coins_update [OF assms(1,2), of "lBal l" "- int v"] by (simp add: valueOf_def lAdd_def)
qed

lemma lReduce_value:
  assumes "finite A" and "src \<in> A" "a \<in> A" and "v \<le> lStaked l a src t"
  shows "valueOf A (lReduce src a t v l) = valueOf A l"
proof -
  have "lockedVal A (lReduce src a t v l) = lockedVal A l"
    using assms(4) sum_upd3 [OF assms(1,3,2), of "lStaked l" t "lStaked l a src t - v"]
      sum_upd3 [OF assms(1,3,2), of "lFrozen l" t "lFrozen l a src t + v"]
    by (simp add: lockedVal_def lReduce_def)
  then show ?thesis by (simp add: valueOf_def) (simp add: lReduce_def)
qed

lemma lRefund_value:
  assumes "finite A" and "src \<in> A" "a \<in> A"
  shows "valueOf A (lRefund src a t l) = valueOf A l"
proof -
  have "lockedVal A (lRefund src a t l) + lFrozen l a src t = lockedVal A l"
    using sum_upd3 [OF assms(1,3,2), of "lFrozen l" t 0] by (simp add: lockedVal_def lRefund_def)
  then show ?thesis using coins_update [OF assms(1,2), of "lBal l" "int (lFrozen l a src t)"]
    by (simp add: valueOf_def lRefund_def)
qed

lemma locked_le:
  assumes "finite A" and "src \<in> A" "a \<in> A"
  shows "lStaked l a src t + lFrozen l a src t \<le> lockedVal A l"
proof -
  have fin: "finite (A \<times> A \<times> (UNIV :: MinerType set))" and mem: "(a, src, t) \<in> A \<times> A \<times> UNIV" using assms by simp_all
  show ?thesis using sum.remove [OF fin mem, of "\<lambda>(x, y, z). lStaked l x y z"] sum.remove [OF fin mem, of "\<lambda>(x, y, z). lFrozen l x y z"]
    by (simp add: lockedVal_def)
qed

text \<open>
  The state of the value of a set of accounts: no balance is negative, and the whole value stays
  below the range of the 64-bit stake fields.
\<close>

definition valueInv :: "menv \<Rightarrow> address set \<Rightarrow> int \<Rightarrow> world \<Rightarrow> bool" where
  "valueInv E A V w \<longleftrightarrow> poolInv E w \<and> (\<forall>a\<in>A. 0 \<le> wBalance w a) \<and> valueOf A (ledgerOf E w) = V"

definition valueOp :: "address set \<Rightarrow> mOperation \<Rightarrow> bool" where
  "valueOp A op \<longleftrightarrow> opOk op \<and> set (opAddrs op) \<subseteq> A \<and> (\<forall>p. op \<noteq> MinerPenalty p)"

lemma valueInv_locked:
  assumes "finite A" and "valueInv E A V w" and "V < 2 ^ 64"
  shows "lockedVal A (ledgerOf E w) < 2 ^ 64"
proof -
  have "0 \<le> (\<Sum>a\<in>A. lBal (ledgerOf E w) a)" using assms(2) by (auto simp: valueInv_def intro: sum_nonneg)
  then have "int (lockedVal A (ledgerOf E w)) < 2 ^ 64" using assms(2,3) by (simp add: valueInv_def valueOf_def)
  then show ?thesis by simp
qed

lemma stakeAdd_paid:
  assumes "stakeAdd_Transition E op w = Some (None, w')"
  shows "int (unat (saValue op)) \<le> wBalance w (addSource op) \<or> saValue op = 0"
  using assms by (rule stakeAdd_success) (auto dest: reduceBalance_Inr)

lemma valueInv_step:
  assumes E: "codecsOk E" and A: "finite A" and V: "V < 2 ^ 64" and op: "valueOp A op" and inv: "valueInv E A V w"
    and run: "mTransition E op w = Some (None, w')"
  shows "valueInv E A V w'"
proof -
  have pool: "poolInv E w" and ok: "opOk op" and sub: "set (opAddrs op) \<subseteq> A" using inv op by (simp_all add: valueInv_def valueOp_def)
  have room: "frozenRoom E op w \<and> (\<forall>r. op = StakeReduce r \<longrightarrow> unat (srValue r) \<le> detailVal E w (cancelTarget r) (cancelSource r) (srType r) Staked)"
  proof (cases op)
    case (StakeReduce r)
    let ?st = "detailVal E w (cancelTarget r) (cancelSource r) (srType r)"
    have f: "fixed32 (cancelSource r)" "fixed32 (cancelTarget r)" using ok by (simp_all add: StakeReduce opOk_def)
    have le: "unat (srValue r) \<le> ?st Staked"
      using stakeReduce_effect(5) [OF E pool] f run by (simp add: StakeReduce)
    have "?st Staked + ?st StakeFrozen \<le> lockedVal A (ledgerOf E w)"
      using locked_le [OF A, of "cancelSource r" "cancelTarget r" "ledgerOf E w" "srType r"] sub f by (simp add: StakeReduce)
    then have "?st StakeFrozen + unat (srValue r) < 2 ^ 64" using valueInv_locked [OF A inv V] le by linarith
    then show ?thesis using le by (simp add: StakeReduce frozenRoom_def frozenFits_def)
  qed (simp_all add: frozenRoom_def)
  have step: "ledgerOf E w' = ledgerStep op (ledgerOf E w)"
    using mTransition_ledger [OF E pool ok] room run by blast
  have "valueOf A (ledgerOf E w') = V"
    using inv op sub room ok unfolding step
    by (cases op) (auto simp: valueInv_def valueOp_def opOk_def lAdd_value [OF A] lReduce_value [OF A] lRefund_value [OF A])
  moreover have "\<forall>a\<in>A. 0 \<le> wBalance w' a"
  proof -
    have "wBalance w' = lBal (ledgerStep op (ledgerOf E w))" using step ledgerOf_sel(1) by metis
    then show ?thesis using inv op run
      by (cases op) (auto simp: valueInv_def valueOp_def lAdd_def lReduce_def lRefund_def dest: stakeAdd_paid)
  qed
  moreover have "poolInv E w'" by (rule mTransition_pool [OF E ok pool run])
  ultimately show ?thesis by (simp add: valueInv_def)
qed

interpretation value_ops: guarded_op "\<lambda>op. codecsOk E \<and> finite A \<and> V < 2 ^ 64 \<and> valueOp A op" "mTransition E" "valueInv E A V"
  for E A V
  by unfold_locales (auto intro: valueInv_step)

section \<open>Stakes are the sums of their details\<close>

text \<open>
  The stake of a miner is the sum of the staked details of its account, and a verifier has no
  other staker than itself.
\<close>

definition ledgerOk :: "ledger \<Rightarrow> bool" where
  "ledgerOk l \<longleftrightarrow>
    (\<forall>a t. finite {s. lStaked l a s t \<noteq> 0} \<and> lStake l a t = (\<Sum>s | lStaked l a s t \<noteq> 0. lStaked l a s t)) \<and>
    (\<forall>a s. s \<noteq> a \<longrightarrow> lStaked l a s MinerTypeVerify = 0)"

lemma supp_upd:
  fixes f :: "'a \<Rightarrow> nat"
  assumes "finite {s. f s \<noteq> 0}"
  shows "finite {s. (f(x := v)) s \<noteq> 0}" and "(\<Sum>s | (f(x := v)) s \<noteq> 0. (f(x := v)) s) + f x = (\<Sum>s | f s \<noteq> 0. f s) + v"
proof -
  let ?S = "insert x {s. f s \<noteq> 0}"
  have fin: "finite ?S" using assms by simp
  show "finite {s. (f(x := v)) s \<noteq> 0}" by (rule finite_subset [OF _ fin]) auto
  have "(\<Sum>s | (f(x := v)) s \<noteq> 0. (f(x := v)) s) = (\<Sum>s\<in>?S. (f(x := v)) s)"
    by (rule sum.mono_neutral_left) (use fin in auto)
  moreover have "(\<Sum>s | f s \<noteq> 0. f s) = (\<Sum>s\<in>?S. f s)"
    by (rule sum.mono_neutral_left) (use fin in auto)
  moreover have "(\<Sum>s\<in>?S - {x}. (f(x := v)) s) = (\<Sum>s\<in>?S - {x}. f s)" by (rule sum.cong) auto
  ultimately show "(\<Sum>s | (f(x := v)) s \<noteq> 0. (f(x := v)) s) + f x = (\<Sum>s | f s \<noteq> 0. f s) + v"
    using sum.remove [OF fin, of x "f(x := v)"] sum.remove [OF fin, of x f] by simp
qed

lemma supp_member: "ledgerOk l \<Longrightarrow> lStaked l a s t \<le> lStake l a t"
  by (cases "lStaked l a s t = 0") (auto simp: ledgerOk_def intro: member_le_sum)

text \<open>One staked value and the stake it belongs to change by the same amount.\<close>

lemma ledgerOk_upd:
  assumes ok: "ledgerOk l" and self: "t = MinerTypeVerify \<Longrightarrow> s = a"
    and l': "lStaked l' = upd3 (lStaked l) a s t v" "lStake l' = upd2 (lStake l) a t n"
    and bal: "n + lStaked l a s t = lStake l a t + v"
  shows "ledgerOk l'"
proof -
  have row: "(\<lambda>x. lStaked l' a x t) = (\<lambda>x. lStaked l a x t)(s := v)" by (auto simp: l' upd3_apply)
  have fin: "finite {x. lStaked l a x t \<noteq> 0}" and sum: "lStake l a t = (\<Sum>x | lStaked l a x t \<noteq> 0. lStaked l a x t)"
    using ok by (simp_all add: ledgerOk_def)
  have new: "finite {x. lStaked l' a x t \<noteq> 0} \<and> n = (\<Sum>x | lStaked l' a x t \<noteq> 0. lStaked l' a x t)"
    using supp_upd [OF fin, of s v] bal sum unfolding row [symmetric, THEN fun_cong] by simp
  have other: "lStaked l' b x u = lStaked l b x u" if "\<not> (b = a \<and> u = t)" for b x u using that by (auto simp: l' upd3_apply)
  have "finite {x. lStaked l' b x u \<noteq> 0} \<and> lStake l' b u = (\<Sum>x | lStaked l' b x u \<noteq> 0. lStaked l' b x u)" for b u
    using new ok other [of b u] by (cases "b = a \<and> u = t") (auto simp: l'(2) upd2_apply ledgerOk_def)
  moreover have "lStaked l' b x MinerTypeVerify = 0" if "x \<noteq> b" for b x
    using ok self that by (auto simp: ledgerOk_def l'(1) upd3_apply)
  ultimately show ?thesis by (simp add: ledgerOk_def)
qed

lemma ledgerOk_verify: "ledgerOk l \<Longrightarrow> lStake l a MinerTypeVerify = lStaked l a a MinerTypeVerify"
proof -
  assume ok: "ledgerOk l"
  have "(\<Sum>s | lStaked l a s MinerTypeVerify \<noteq> 0. lStaked l a s MinerTypeVerify) = (\<Sum>s\<in>{a}. lStaked l a s MinerTypeVerify)"
    by (rule sum.mono_neutral_left) (use ok in \<open>auto simp: ledgerOk_def intro: ccontr\<close>)
  then show ?thesis using ok by (simp add: ledgerOk_def)
qed

lemma lPunish_ok:
  assumes "ledgerOk l" and "v \<le> lStake l a MinerTypeVerify"
  shows "ledgerOk (lPunish v a l)"
  by (rule ledgerOk_upd [OF assms(1), of MinerTypeVerify a a])
    (use assms(2) ledgerOk_verify [OF assms(1)] in \<open>simp_all add: lPunish_def Let_def\<close>)

lemma lReward_ok: "ledgerOk (lReward n a l) = ledgerOk l"
  by (simp add: ledgerOk_def lReward_def)

lemma lRewards_ok: "ledgerOk (fold (lReward n) as l) = ledgerOk l"
  by (induction as arbitrary: l) (simp_all add: lReward_ok)

lemma punishAll_ok:
  assumes E: "codecsOk E" and "poolInv E w" and "list_all fixed32 as" and "punishAll E v h as w = Some (None, w')"
    and "ledgerOk (ledgerOf E w)"
  shows "ledgerOk (ledgerOf E w')"
  using assms(2-)
proof (induction as arbitrary: w)
  case (Cons a as)
  from Cons.prems obtain w1 where w1: "punishOne E v h a w = Some (None, w1)" and rest: "punishAll E v h as w1 = Some (None, w')"
    and a: "fixed32 a" by auto
  have "poolInv E w1" by (rule punishOne_pool [OF E Cons.prems(1) a w1])
  moreover have "ledgerOk (ledgerOf E w1)"
    using punishOne_ledger [OF E Cons.prems(1) a w1] lPunish_ok [OF Cons.prems(4)] a by simp
  ultimately show ?case using Cons.IH [OF _ _ rest] Cons.prems(2) by simp
qed simp

lemma minerPenalty_ok:
  assumes "codecsOk E" and "poolInv E w" and "list_all fixed32 (mpTargets op)"
    and "minerPenalty_Transition E op w = Some (None, w')" and "ledgerOk (ledgerOf E w)"
  shows "ledgerOk (ledgerOf E w')"
proof -
  from assms(4) obtain w1 n where p: "punishAll E (mpValue op) (mpHeight op) (mpTargets op) w = Some (None, w1)"
    and r: "w' = w1 \<or> w' = fold (\<lambda>a v. w_AddBalance v a n) (mpRewards op) w1"
    by (auto simp: minerPenalty_Transition_def Let_def split: if_splits)
  show ?thesis using punishAll_ok [OF assms(1-3) p assms(5)] r by (auto simp: ledgerOf_rewards lRewards_ok)
qed

lemma stakeAdd_verify_self:
  "stakeAdd_Transition E op w = Some (None, w') \<Longrightarrow> saType op = MinerTypeVerify \<Longrightarrow> addSource op = addTarget op"
  by (erule stakeAdd_success) (auto simp: geneBaseIdentityOp_def split: if_splits)

lemma lStaked_ext: "(\<And>b s u. fixed32 b \<Longrightarrow> fixed32 s \<Longrightarrow> detailVal E w' b s u Staked = f b s u) \<Longrightarrow>
    (\<And>b s u. \<not> (fixed32 b \<and> fixed32 s) \<Longrightarrow> f b s u = 0) \<Longrightarrow> lStaked (ledgerOf E w') = f"
  by (auto simp: ledgerOf_def fun_eq_iff)

lemma lStake_ext: "(\<And>b u. fixed32 b \<Longrightarrow> minerStake E w' b u = f b u) \<Longrightarrow>
    (\<And>b u. \<not> fixed32 b \<Longrightarrow> f b u = 0) \<Longrightarrow> lStake (ledgerOf E w') = f"
  by (auto simp: ledgerOf_def fun_eq_iff)

lemma stakeReduce_ok:
  assumes E: "codecsOk E" and inv: "poolInv E w" and src: "fixed32 (cancelSource op)" and a: "fixed32 (cancelTarget op)"
    and run: "stakeReduce_Transition E op w = Some (None, w')" and ok: "ledgerOk (ledgerOf E w)"
  shows "ledgerOk (ledgerOf E w')"
proof -
  let ?l = "ledgerOf E w" and ?v = "unat (srValue op)" and ?a = "cancelTarget op" and ?s = "cancelSource op" and ?t = "srType op"
  note eff = stakeReduce_effect [OF E inv src a run]
  have v: "?v \<le> lStaked ?l ?a ?s ?t" "?v \<le> lStake ?l ?a ?t" using eff(5,6) src a by simp_all
  show ?thesis
  proof (cases "?t = MinerTypeVerify \<and> ?s \<noteq> ?a")
    case True
    then have "?v = 0" using v(1) ok by (simp add: ledgerOk_def)
    then have "lStaked (ledgerOf E w') = lStaked ?l" "lStake (ledgerOf E w') = lStake ?l"
      by (intro lStaked_ext lStake_ext; use eff src a in \<open>auto simp: lReduce_def upd3_apply upd2_apply\<close>)+
    with ok show ?thesis by (simp add: ledgerOk_def)
  next
    case False
    show ?thesis
    proof (rule ledgerOk_upd [OF ok, of ?t ?s ?a])
      show "lStaked (ledgerOf E w') = upd3 (lStaked ?l) ?a ?s ?t (lStaked ?l ?a ?s ?t - ?v)"
        by (rule lStaked_ext; use eff src a in \<open>auto simp: lReduce_def upd3_apply\<close>)
      show "lStake (ledgerOf E w') = upd2 (lStake ?l) ?a ?t (lStake ?l ?a ?t - ?v)"
        by (rule lStake_ext; use eff src a in \<open>auto simp: lReduce_def upd2_apply\<close>)
    qed (use v False in auto)
  qed
qed

lemma mTransition_ledgerOk:
  assumes E: "codecsOk E" and op: "opOk op" and inv: "poolInv E w" and ok: "ledgerOk (ledgerOf E w)"
    and run: "mTransition E op w = Some (None, w')"
  shows "ledgerOk (ledgerOf E w')"
proof (cases op)
  case (StakeAdd r)
  then have step: "ledgerOf E w' = lAdd (addSource r) (addTarget r) (saType r) (unat (saValue r)) (ledgerOf E w)"
    using stakeAdd_ledger [OF E inv] run op by (simp add: opOk_def)
  show ?thesis
    by (rule ledgerOk_upd [OF ok, of "saType r" "addSource r" "addTarget r" _
          "lStaked (ledgerOf E w) (addTarget r) (addSource r) (saType r) + unat (saValue r)"
          "lStake (ledgerOf E w) (addTarget r) (saType r) + unat (saValue r)"])
      (use run StakeAdd stakeAdd_verify_self in \<open>auto simp: step lAdd_def\<close>)
next
  case (StakeReduce r)
  then show ?thesis using stakeReduce_ok [OF E inv _ _ _ ok] run op by (auto simp: opOk_def)
next
  case (MinerPenalty r)
  then show ?thesis using minerPenalty_ok [OF E inv _ _ ok] run op by (auto simp: opOk_def)
next
  case (StakeRefund r)
  then have "ledgerOf E w' = lRefund (refundSource r) (refundTarget r) (rfType r) (ledgerOf E w)"
    using stakeRefund_ledger run op by (simp add: opOk_def)
  then show ?thesis using ok by (simp add: ledgerOk_def lRefund_def)
qed (use mTransition_ledger [OF E inv op _ run] ok in \<open>simp_all add: frozenRoom_def\<close>)

definition stakeInv :: "menv \<Rightarrow> world \<Rightarrow> bool" where
  "stakeInv E w \<longleftrightarrow> poolInv E w \<and> ledgerOk (ledgerOf E w)"

interpretation stake_ops: guarded_op "\<lambda>op. codecsOk E \<and> opOk op" "mTransition E" "stakeInv E" for E
  by unfold_locales (auto simp: stakeInv_def intro: mTransition_pool mTransition_ledgerOk)

end
