(* ===== verification/Miner_Safety.thy ===== *)
theory Miner_Safety
  imports Miner_Stake
begin

text \<open>
  The panics of the miner code are unreachable from states that satisfy the stake invariant: pool
  underflows, missing or oversized stake details, and (below the 64-bit range) the overflow of the
  total stake.
\<close>

section \<open>No panics\<close>

declare not_None_eq [simp del]

lemma fails_not_panic [simp]: "fails e rs w \<noteq> None" "succeeds w \<noteq> None"
  by (simp_all add: fails_def succeeds_def)

lemma orFail_panic: "orFail r w k = None \<longleftrightarrow> (\<exists>w1. r = Inr w1 \<and> k w1 = None)"
  by (auto simp: orFail_def split: sum.splits)

lemma orPanic_None: "orPanic r k = None \<longleftrightarrow> r = None \<or> (\<exists>w1. r = Some w1 \<and> k w1 = None)"
  by (auto simp: orPanic_def split: option.splits)

lemmas panic_simps = orFail_panic orPanic_None andThen_panic

lemma minerAbort_no_panic:
  assumes "poolInv E w" and "fixed32 (maAddr op)"
  shows "minerAbort_Transition E op w \<noteq> None"
proof -
  have "baseProcessMinerAbort E op mo w \<noteq> None" if "getMiner E w (maAddr op) (maType op) = Inr mo" for mo
    using remove_no_panic [OF assms] that
    by (auto simp: baseProcessMinerAbort_def panic_simps split: option.splits if_splits)
  then have "processMinerAbort E iop op mo w \<noteq> None" if "getMiner E w (maAddr op) (maType op) = Inr mo" for iop mo
    using that by (cases iop) auto
  then show ?thesis by (auto simp: minerAbort_Transition_def split: sum.splits)
qed

lemma minerFreeze_no_panic: "poolInv E w \<Longrightarrow> fixed32 a \<Longrightarrow> minerFreeze_Transition E a h w \<noteq> None"
  using remove_no_panic [of E w a MinerTypeVerify]
  by (auto simp: minerFreeze_Transition_def panic_simps split: sum.splits option.splits if_splits)

lemma stakeRefund_no_panic: "stakeRefund_Transition E op w \<noteq> None"
  by (auto simp: stakeRefund_Transition_def Let_def split: sum.splits option.splits)

lemma changeFundGuardMode_no_panic: "changeFundGuardMode_Transition E op w \<noteq> None"
  by (auto simp: changeFundGuardMode_Transition_def processChangeFundGuardMode_def split: sum.splits option.splits)

lemma applyGuard_no_panic: "applyGuard_Transition E op w \<noteq> None"
proof -
  have after: "afterBecomeFullGuardNode E iop k d a h v \<noteq> None" for iop k d a h v
    by (cases iop) (auto simp: panic_simps Let_def)
  have vote: "refreshVote E op v \<noteq> None" for v
    by (auto simp: refreshVote_def panic_simps split: sum.splits option.splits)
  have "baseProcessApplyGuard E iop op mo w \<noteq> None" for iop mo
    using after vote by (auto simp: baseProcessApplyGuard_def Let_def panic_simps split: sum.splits option.splits)
  then have "processApplyGuard E iop op mo w \<noteq> None" for iop mo by (cases iop) auto
  then show ?thesis by (auto simp: applyGuard_Transition_def split: sum.splits option.splits)
qed

lemma reduceTickets_no_panic:
  assumes "poolInv E w" and a: "fixed32 (rtTarget op)"
  shows "reduceTickets_Transition E op w \<noteq> None"
proof
  assume none: "reduceTickets_Transition E op w = None"
  obtain n w1 where sub: "subTicket w (rtTarget op) = (n, w1)" by fastforce
  have q: "quiet E w w1" using a sub by simp
  have inv1: "poolInv E w1" using quiet_inv [OF q assms(1)] .
  from none sub obtain mo where g: "getMiner E w (rtTarget op) MinerTypeProposal = Inr mo"
    and after: "afterTicketReduce E (geneBaseIdentityOp MinerTypeProposal mo) op mo n w1 = None"
    by (auto simp: reduceTickets_Transition_def processReduceTicket_def split: sum.splits if_splits)
  have g1: "getMiner E w1 (rtTarget op) MinerTypeProposal = Inr mo" using g a q by (simp add: quiet_def)
  from after show False
    by (cases "geneBaseIdentityOp MinerTypeProposal mo")
      (use remove_no_panic [OF inv1 a] g1 in \<open>auto simp: Let_def panic_simps split: if_splits option.splits\<close>)
qed

lemma voteMinerPool_no_panic:
  assumes E: "codecsOk E" and inv: "poolInv E w" and ab: "fixed32 (vmSource op)" "fixed32 (vmTarget op)"
  shows "voteMinerPool_Transition E op w \<noteq> None"
proof -
  have full: "afterTicketsFull E iop op mo v \<noteq> None" for iop mo v
    by (cases iop) (auto simp: Let_def panic_simps)
  have base: "baseVote E op vf w k \<noteq> None" if vf: "getVoteInfo E w (vmSource op) = Inr vf" and k: "\<And>f v. k f v \<noteq> None" for vf k
  proof
    assume none: "baseVote E op vf w k = None"
    then obtain v w1 w2 where v: "voteBefore E op vf w = Inr (v, w1)"
      and vote: "voteMinerPool E w1 v (vmSource op) (vmTarget op) (vmHeight op) = Inr w2"
      and red: "reduceTickets_Transition E \<lparr>rtTarget = vTarget v, rtHeight = vmHeight op\<rparr> w2 = None"
      using k by (auto simp: baseVote_def Let_def panic_simps split: sum.splits if_splits prod.splits)
    note vb = voteBefore_props [OF v E vf]
    have "poolInv E w2" using quiet_inv [OF quiet_trans [OF vb(1) quiet_vote(2) [OF vote]] inv] .
    with red vb(2) reduceTickets_no_panic show False by fastforce
  qed
  have "baseProcessVote E iop op mo w \<noteq> None" for iop mo
    using base full by (auto simp: baseProcessVote_def split: sum.splits option.splits)
  then have "processVote E iop op mo w \<noteq> None" for iop mo by (cases iop) auto
  then show ?thesis by (auto simp: voteMinerPool_Transition_def split: sum.splits)
qed

lemma staked_le_stake:
  assumes "stakeInv E w" and "fixed32 a" "fixed32 s" and "getMiner E w a t = Inr (Some m)"
  shows "detailVal E w a s t Staked \<le> unat (Stake m)"
  using supp_member [of "ledgerOf E w" a s t] assms minerStake_eq [OF assms(4)] by (simp add: stakeInv_def)

lemma stakeReduce_no_panic:
  assumes E: "codecsOk E" and inv: "stakeInv E w" and src: "fixed32 (cancelSource op)" and a: "fixed32 (cancelTarget op)"
  shows "stakeReduce_Transition E op w \<noteq> None"
proof
  assume none: "stakeReduce_Transition E op w = None"
  have pool: "poolInv E w" using inv by (simp add: stakeInv_def)
  from none obtain m where g: "getMiner E w (cancelTarget op) (srType op) = Inr (Some m)" and le: "\<not> Stake m < srValue op"
    and r: "(case deactivate op (Stake m) (m\<lparr>Stake := Stake m - srValue op\<rparr>) w of None \<Rightarrow> None
       | Some (m2, w1) \<Rightarrow> orFail (setMiner E w1 m2) w1 (reduceDetail E op (Stake m))) = None"
    by (auto simp: stakeReduce_Transition_def processStakeReduce_def Let_def split: sum.splits option.splits if_splits)
  have total: "Stake m \<le> getProposalTotalStake w" if "IsActive m" "srType op = MinerTypeProposal"
    using poolInv_stake_le [OF pool a] stakeOf_Some [of E w] g that by (simp add: contrib_def word_le_iff_unat)
  have "deactivate op (Stake m) (m\<lparr>Stake := Stake m - srValue op\<rparr>) w \<noteq> None"
    using remove_no_panic [OF pool a g] total le
    by (auto simp: deactivate_def IsProposalRole_def subProposalTotalStake_def Let_def)
  then obtain m2 w1 w2 where act: "deactivate op (Stake m) (m\<lparr>Stake := Stake m - srValue op\<rparr>) w = Some (m2, w1)"
    and set: "setMiner E w1 m2 = Inr w2" and det: "reduceDetail E op (Stake m) w2 = None"
    using r by (auto simp: panic_simps)
  have s2: "sameDetails E w w2" using sameDetails_deactivate [OF act a] sameDetails_setMiner [OF E set] by (rule sameDetails_trans)
  have fr: "freezeDetail E op v \<noteq> None" for v
    by (auto simp: freezeDetail_def Let_def panic_simps split: sum.splits)
  from det fr obtain d where "getDetail E w2 (cancelTarget op) (getDetailKey (cancelSource op) (srType op) Staked) = Inr (Some d)"
    and "sdValue d > Stake m"
    by (auto simp: reduceDetail_def Let_def panic_simps split: sum.splits option.splits if_splits)
  then show False using staked_le_stake [OF inv a src g] sameDetails_val [OF s2 src] detailVal_eq
    by (fastforce simp: word_less_iff_unat)
qed

lemma addTotal_no_panic:
  assumes "unat (getProposalTotalStake w) + unat v < 2 ^ 64"
  shows "addProposalTotalStake w v \<noteq> None"
proof -
  have "unat (v + getProposalTotalStake w) = unat v + unat (getProposalTotalStake w)"
    by (rule unat_add_lem [THEN iffD1]) (use assms in simp)
  then show ?thesis by (simp add: addProposalTotalStake_def Let_def word_less_iff_unat)
qed

lemma stakeAdd_no_panic:
  assumes room: "unat (getProposalTotalStake w) + minerStake E w (addTarget op) (saType op) + unat (saValue op) < 2 ^ 64"
  shows "stakeAdd_Transition E op w \<noteq> None"
proof
  assume none: "stakeAdd_Transition E op w = None"
  have det: "addStakeDetail E op v \<noteq> None" for v
    by (auto simp: addStakeDetail_def Let_def panic_simps split: sum.splits option.splits if_splits)
  from none obtain mo w1 m0 where g: "getMiner E w (addTarget op) (saType op) = Inr mo"
    and pay: "reduceBalance w (addSource op) (saValue op) = Inr w1" and st: "stakedMiner op mo = Inr m0"
    and act: "activate op (if addTarget op = addSource op then setPks m0 (saPks op) else m0) w1 = None"
    using det by (auto simp: stakeAdd_Transition_def processStakeAdd_def baseProcessStakeAdd_def Let_def panic_simps
        split: sum.splits option.splits if_splits prod.splits)
  have t: "getProposalTotalStake w1 = getProposalTotalStake w" using observe_reduceBalance [OF pay] by simp
  have "unat (Stake m0) \<le> minerStake E w (addTarget op) (saType op) + unat (saValue op)"
    using stakedMiner_props [OF st] minerStake_eq [OF g] by (auto simp: initMiner_def split: option.splits)
  then have "addProposalTotalStake w1 (saValue op) \<noteq> None" "addProposalTotalStake w1 (Stake m0) \<noteq> None"
    using room t by (auto intro!: addTotal_no_panic)
  with act show False by (auto simp: activate_def addToPool_def split: if_splits option.splits)
qed

lemma punishOne_other:
  assumes E: "codecsOk E" and inv: "poolInv E w" and a: "fixed32 a" and "punishOne E v h a w = Some (None, w')"
    and b: "fixed32 b" "b \<noteq> a"
  shows "getMiner E w' b u = getMiner E w b u"
  using assms(4)
proof (rule punishOne_success)
  fix m w1 w2 w3
  assume g: "getMiner E w a MinerTypeVerify = Inr (Some m)"
    and rem: "(if IsActive m then removeFromPool w MinerTypeVerify a (Stake m) else Some w) = Some w1"
    and set: "setMiner E w1 (UpdateStatus MinerStatusFrozen h (m\<lparr>Stake := Stake m - v\<rparr>)) = Inr w2"
    and q: "addPunishment E a v h w2 = Some (None, w3)" "subPunished E a v h w3 = Some (None, w')"
  have "getMiner E w1 b u = getMiner E w b u" using rem removeFromPool_Some(1) [OF _ a] by (auto split: if_splits)
  moreover have "quiet E w2 w'" using quiet_addPunishment [OF E q(1)] quiet_subPunished [OF E a q(2)] by (rule quiet_trans)
  ultimately show ?thesis using setMiner_Inr(1) [OF E set] poolInv_named [OF inv a g] b by (simp add: quiet_def)
qed

lemma punishOne_no_panic:
  assumes E: "codecsOk E" and inv: "stakeInv E w" and a: "fixed32 a" and v: "0 < v"
    and enough: "\<And>m. getMiner E w a MinerTypeVerify = Inr (Some m) \<Longrightarrow> v \<le> Stake m"
  shows "punishOne E v h a w \<noteq> None"
proof
  assume none: "punishOne E v h a w = None"
  have pool: "poolInv E w" using inv by (simp add: stakeInv_def)
  have add: "addPunishment E a v h u \<noteq> None" for u by (auto simp: addPunishment_def Let_def panic_simps split: sum.splits)
  from none obtain m where g: "getMiner E w a MinerTypeVerify = Inr (Some m)"
    and r: "orPanic (if IsActive m then removeFromPool w MinerTypeVerify a (Stake m) else Some w)
       (\<lambda>w1. if Stake m < v then None else orFail (setMiner E w1 (UpdateStatus MinerStatusFrozen h (m\<lparr>Stake := Stake m - v\<rparr>))) w1
          (\<lambda>w2. andThen (addPunishment E a v h w2) (subPunished E a v h))) = None"
    by (auto simp: punishOne_def split: sum.splits option.splits if_splits)
  have ge: "v \<le> Stake m" by (rule enough [OF g])
  from r obtain w1 w2 w3 where rem: "(if IsActive m then removeFromPool w MinerTypeVerify a (Stake m) else Some w) = Some w1"
    and set: "setMiner E w1 (UpdateStatus MinerStatusFrozen h (m\<lparr>Stake := Stake m - v\<rparr>)) = Inr w2"
    and p: "addPunishment E a v h w2 = Some (None, w3)" and sub: "subPunished E a v h w3 = None"
    using remove_no_panic [OF pool a g] ge add by (auto simp: panic_simps split: if_splits)
  have "sameDetails E w w1" using rem sameDetails_removeFromPool [OF a] by (auto split: if_splits)
  then have s2: "sameDetails E w w2" using sameDetails_setMiner [OF E set] by (rule sameDetails_trans)
  have "detailVal E w3 a a MinerTypeVerify Staked = unat (Stake m)"
    using addPunishment_effect(2) [OF E p a] sameDetails_val [OF s2 a] status_ne(3) [symmetric]
      ledgerOk_verify [of "ledgerOf E w" a] inv a minerStake_eq [OF g] by (simp add: stakeInv_def)
  moreover have "unat v > 0" using v by (simp add: word_less_iff_unat)
  ultimately obtain d where d: "getDetail E w3 a (getDetailKey a MinerTypeVerify Staked) = Inr (Some d)" "sdValue d = Stake m"
    using ge by (auto simp: detailVal_def word_le_iff_unat split: sum.splits option.splits)
  then have "\<not> sdValue d > v \<Longrightarrow> v - sdValue d = 0" using ge by simp
  with sub d show False by (auto simp: subPunished_def Let_def panic_simps split: if_splits)
qed

lemma punishAll_no_panic:
  assumes E: "codecsOk E" and "stakeInv E w" and "list_all fixed32 as" and "distinct as" and v: "0 < v"
    and "\<forall>a\<in>set as. \<forall>m. getMiner E w a MinerTypeVerify = Inr (Some m) \<longrightarrow> v \<le> Stake m"
  shows "punishAll E v h as w \<noteq> None"
  using assms(2-4,6)
proof (induction as arbitrary: w)
  case (Cons a as)
  have pool: "poolInv E w" and a: "fixed32 a" using Cons.prems by (simp_all add: stakeInv_def)
  have one: "punishOne E v h a w \<noteq> None" by (rule punishOne_no_panic [OF E Cons.prems(1) a v]) (use Cons.prems(4) in simp)
  have "punishAll E v h as w1 \<noteq> None" if w1: "punishOne E v h a w = Some (None, w1)" for w1
  proof (rule Cons.IH)
    show "stakeInv E w1"
      using punishOne_pool [OF E pool a w1] punishOne_ledger [OF E pool a w1] lPunish_ok Cons.prems(1) a
      by (simp add: stakeInv_def)
    have "getMiner E w1 b u = getMiner E w b u" if "b \<in> set as" for b u
      by (rule punishOne_other [OF E pool a w1]) (use that Cons.prems(2,3) in \<open>auto simp: list_all_iff\<close>)
    then show "\<forall>b\<in>set as. \<forall>m. getMiner E w1 b MinerTypeVerify = Inr (Some m) \<longrightarrow> v \<le> Stake m"
      using Cons.prems(4) by simp
  qed (use Cons.prems in auto)
  with one show ?case by (auto simp: andThen_panic)
qed simp

text \<open>The arithmetic room an operation needs.\<close>

definition roomFor :: "menv \<Rightarrow> mOperation \<Rightarrow> world \<Rightarrow> bool" where
  "roomFor E op w \<longleftrightarrow>
    (case op of
       StakeAdd r \<Rightarrow> unat (getProposalTotalStake w) + minerStake E w (addTarget r) (saType r) + unat (saValue r) < 2 ^ 64
     | MinerPenalty p \<Rightarrow> 0 < mpValue p \<and> distinct (mpTargets p) \<and>
         (\<forall>a\<in>set (mpTargets p). \<forall>m. getMiner E w a MinerTypeVerify = Inr (Some m) \<longrightarrow> mpValue p \<le> Stake m)
     | _ \<Rightarrow> True)"

lemma mTransition_no_panic:
  assumes E: "codecsOk E" and op: "opOk op" and inv: "stakeInv E w" and room: "roomFor E op w"
  shows "mTransition E op w \<noteq> None"
proof -
  have pool: "poolInv E w" using inv by (simp add: stakeInv_def)
  show ?thesis
  proof (cases op)
    case (MinerPenalty p)
    then have "punishAll E (mpValue p) (mpHeight p) (mpTargets p) w \<noteq> None"
      using punishAll_no_panic [OF E inv] op room by (simp add: opOk_def roomFor_def)
    then show ?thesis by (auto simp: MinerPenalty minerPenalty_Transition_def andThen_panic Let_def split: if_splits)
  qed (use op room stakeAdd_no_panic minerAbort_no_panic [OF pool] stakeReduce_no_panic [OF E inv] stakeRefund_no_panic
      applyGuard_no_panic voteMinerPool_no_panic [OF E pool] changeFundGuardMode_no_panic minerFreeze_no_panic [OF pool]
      in \<open>auto simp: opOk_def roomFor_def\<close>)
qed

declare not_None_eq [simp]

end
