(* ===== verification/Miner_Status.thy ===== *)
theory Miner_Status
  imports Miner_Safety
begin

text \<open>
  The life of one miner record as a state machine: an inductive relation with one rule per way a
  record may change. Every operation changes every record only along its rules; frozen miners,
  qualified miners and identities are then handled by rule induction.
\<close>

section \<open>The state machine\<close>

inductive minerStep :: "menv \<Rightarrow> mOperation \<Rightarrow> address \<Rightarrow> MinerType \<Rightarrow> Miner option \<Rightarrow> Miner option \<Rightarrow> bool"
  for E op a t where
  stake: "op = StakeAdd r \<Longrightarrow> addTarget r = a \<Longrightarrow> saType r = t \<Longrightarrow> stakedMiner r mo = Inr m0 \<Longrightarrow>
    m1 = (if addTarget r = addSource r then setPks m0 (saPks r) else m0) \<Longrightarrow>
    iopCheckUpperBound (geneBaseIdentityOp t mo) m1 (saHeight r) \<Longrightarrow>
    m2 = (if \<not> IsActive m1 \<and> checkCanActivate m1 then UpdateStatus MinerStatusActive (saHeight r) m1 else m1) \<Longrightarrow>
    minerStep E op a t mo (Some m2)"
| unstake: "op = StakeReduce r \<Longrightarrow> cancelTarget r = a \<Longrightarrow> srType r = t \<Longrightarrow> srValue r \<le> Stake m \<Longrightarrow>
    m1 = m\<lparr>Stake := Stake m - srValue r\<rparr> \<Longrightarrow> checkCanReduce E r m1 = None \<Longrightarrow>
    m2 = (if IsActive m1 \<and> IsProposalRole t \<and> \<not> checkLowerBound m1
          then UpdateStatus MinerStatusPrepare (srHeight r) m1 else m1) \<Longrightarrow>
    minerStep E op a t (Some m) (Some m2)"
| abort: "op = MinerAbort r \<Longrightarrow> maAddr r = a \<Longrightarrow> maType r = t \<Longrightarrow> checkStakeAbort r m = None \<Longrightarrow>
    minerStep E op a t (Some m) (Some (UpdateStatus MinerStatusPrepare (maHeight r) m))"
| freeze: "op = MinerFreeze a h \<Longrightarrow> t = MinerTypeVerify \<Longrightarrow> \<not> IsFrozen m \<Longrightarrow>
    minerStep E op a t (Some m) (Some (UpdateStatus MinerStatusFrozen h m))"
| punish: "op = MinerPenalty p \<Longrightarrow> a \<in> set (mpTargets p) \<Longrightarrow> t = MinerTypeVerify \<Longrightarrow> mpValue p \<le> Stake m \<Longrightarrow>
    minerStep E op a t (Some m)
      (Some (UpdateStatus MinerStatusFrozen (mpHeight p) (m\<lparr>Stake := Stake m - mpValue p\<rparr>)))"
| guard: "op = ApplyGuard r \<Longrightarrow> agTarget r = a \<Longrightarrow> t = MinerTypeProposal \<Longrightarrow>
    Identity m = MinerNormal \<or> Identity m = MinerGuard \<Longrightarrow>
    minerStep E op a t (Some m) (Some (UpdateIdentity MinerGuard (agHeight r) m))"
| pool: "op = VoteMinerPool r \<Longrightarrow> vmTarget r = a \<Longrightarrow> t = MinerTypeProposal \<Longrightarrow>
    Identity m = MinerNormal \<or> Identity m = InValidMinerPool \<Longrightarrow>
    minerStep E op a t (Some m) (Some (UpdateIdentity MinerPool (vmHeight r) m))"
| newPool: "op = VoteMinerPool r \<Longrightarrow> vmTarget r = a \<Longrightarrow> t = MinerTypeProposal \<Longrightarrow> Stake m = 0 \<Longrightarrow> IsPrepare m \<Longrightarrow>
    Identity m = MinerPool \<Longrightarrow> minerStep E op a t None (Some m)"
| unpool: "op = VoteMinerPool r \<Longrightarrow> t = MinerTypeProposal \<Longrightarrow> IsMinerPool m \<Longrightarrow>
    m1 = UpdateIdentity InValidMinerPool (vmHeight r) m \<Longrightarrow>
    minerStep E op a t (Some m) (Some (if IsActive m then UpdateStatus MinerStatusPrepare (vmHeight r) m1 else m1))"

inductive_cases minerStepE: "minerStep E op a t mo mo'"

section \<open>Operations follow it\<close>

text \<open>What an operation does to the record at \<open>a\<close>, \<open>t\<close>: it stays, or it moves along the machine.\<close>

definition follows :: "menv \<Rightarrow> mOperation \<Rightarrow> world \<Rightarrow> world \<Rightarrow> bool" where
  "follows E op w w' \<longleftrightarrow>
    (\<forall>a t mo. fixed32 a \<longrightarrow> getMiner E w a t = Inr mo \<longrightarrow>
       (\<exists>mo'. getMiner E w' a t = Inr mo' \<and> (minerStep E op a t)\<^sup>*\<^sup>* mo mo'))"

lemma follows_refl [simp]: "follows E op w w" by (simp add: follows_def)

lemma follows_trans: "follows E op w v \<Longrightarrow> follows E op v u \<Longrightarrow> follows E op w u"
  unfolding follows_def by (meson rtranclp_trans)

lemma quiet_follows: "quiet E w w' \<Longrightarrow> follows E op w w'"
  by (auto simp: follows_def quiet_def)

lemma setMiner_follows:
  assumes E: "codecsOk E" and a: "fixed32 a" and pre: "\<And>b u. fixed32 b \<Longrightarrow> getMiner E w1 b u = getMiner E w b u"
    and set: "setMiner E w1 m = Inr w'" and id: "BytesToAddress (ID m) = a" "MType m = t"
    and g: "getMiner E w a t = Inr mo" and step: "minerStep E op a t mo (Some m)"
  shows "follows E op w w'"
  using setMiner_Inr(1) [OF E set] pre g step id
  by (auto simp: follows_def)

lemma leave_pre:
  assumes "fixed32 a" and "(if c then removeFromPool w t a s else Some w) = Some w1"
  shows "getMiner E w1 b u = getMiner E w b u"
  using assms removeFromPool_Some(1) by (auto split: if_splits)

lemma stakeAdd_follows:
  assumes E: "codecsOk E" and inv: "poolInv E w" and src: "fixed32 (addSource r)" and a: "fixed32 (addTarget r)"
    and run: "stakeAdd_Transition E r w = Some (None, w')"
  shows "follows E (StakeAdd r) w w'"
  using run
proof (rule stakeAdd_success)
  fix mo w1 m0 m2 w2 w3
  let ?m1 = "if addTarget r = addSource r then setPks m0 (saPks r) else m0"
  assume g: "getMiner E w (addTarget r) (saType r) = Inr mo" and pay: "reduceBalance w (addSource r) (saValue r) = Inr w1"
    and st: "stakedMiner r mo = Inr m0" and up: "iopCheckUpperBound (geneBaseIdentityOp (saType r) mo) ?m1 (saHeight r)"
    and act: "activate r ?m1 w1 = Some (m2, w2)"
    and set: "setMiner E w2 m2 = Inr w3" and det: "addStakeDetail E r w3 = Some (None, w')"
  have named: "BytesToAddress (ID m0) = addTarget r \<and> MType m0 = saType r"
    using stakedMiner_props [OF st] poolInv_named [OF inv a] g a by (auto simp: initMiner_def split: option.splits)
  have id: "BytesToAddress (ID m2) = addTarget r" "MType m2 = saType r" using activate_props(1) [OF act a] named by auto
  have pre: "getMiner E w2 b u = getMiner E w b u" for b u
    using activate_props(2) [OF act a] observe_reduceBalance [OF pay] by simp
  have m2: "m2 = (if \<not> IsActive ?m1 \<and> checkCanActivate ?m1 then UpdateStatus MinerStatusActive (saHeight r) ?m1 else ?m1)"
    using act by (auto simp: activate_def split: if_splits)
  have "minerStep E (StakeAdd r) (addTarget r) (saType r) mo (Some m2)"
    by (rule minerStep.stake [OF refl refl refl st refl up m2])
  then have "follows E (StakeAdd r) w w3" by (rule setMiner_follows [OF E a pre set id g])
  then show ?thesis using quiet_follows [OF quiet_addStakeDetail [OF E src det]] by (rule follows_trans)
qed

lemma stakeReduce_follows:
  assumes E: "codecsOk E" and inv: "poolInv E w" and src: "fixed32 (cancelSource r)" and a: "fixed32 (cancelTarget r)"
    and run: "stakeReduce_Transition E r w = Some (None, w')"
  shows "follows E (StakeReduce r) w w'"
  using run
proof (rule stakeReduce_success)
  fix m m2 :: Miner and w1 w2
  let ?m1 = "m\<lparr>Stake := Stake m - srValue r\<rparr>"
  assume g: "getMiner E w (cancelTarget r) (srType r) = Inr (Some m)" and le: "\<not> Stake m < srValue r"
    and can: "checkCanReduce E r ?m1 = None" and act: "deactivate r (Stake m) ?m1 w = Some (m2, w1)"
    and set: "setMiner E w1 m2 = Inr w2" and det: "reduceDetail E r (Stake m) w2 = Some (None, w')"
  have id: "BytesToAddress (ID m2) = cancelTarget r" "MType m2 = srType r"
    using deactivate_props(1) [OF act a] poolInv_named [OF inv a g] by auto
  have m2: "m2 = (if IsActive ?m1 \<and> IsProposalRole (srType r) \<and> \<not> checkLowerBound ?m1
      then UpdateStatus MinerStatusPrepare (srHeight r) ?m1 else ?m1)"
    using act by (auto simp: deactivate_def split: if_splits)
  have "minerStep E (StakeReduce r) (cancelTarget r) (srType r) (Some m) (Some m2)"
    by (rule minerStep.unstake [OF refl refl refl _ refl can m2]) (use le in simp)
  then have "follows E (StakeReduce r) w w2" by (rule setMiner_follows [OF E a deactivate_props(2) [OF act a] set id g])
  then show ?thesis using quiet_follows [OF quiet_reduceDetail [OF E src det]] by (rule follows_trans)
qed

lemma minerAbort_follows:
  assumes E: "codecsOk E" and inv: "poolInv E w" and a: "fixed32 (maAddr r)" and run: "minerAbort_Transition E r w = Some (None, w')"
  shows "follows E (MinerAbort r) w w'"
proof -
  from run obtain m w1 where g: "getMiner E w (maAddr r) (maType r) = Inr (Some m)" and c: "checkStakeAbort r m = None"
    and rem: "(if IsActive m then removeFromPool w (maType r) (maAddr r) (Stake m) else Some w) = Some w1"
    and set: "setMiner E w1 (UpdateStatus MinerStatusPrepare (maHeight r) m) = Inr w'"
    by (auto simp: minerAbort_Transition_def baseProcessMinerAbort_def orPanic_def orFail_def
        dest!: processMinerAbort_success split: sum.splits option.splits prod.splits if_splits)
  show ?thesis
    by (rule setMiner_follows [OF E a leave_pre [OF a rem] set _ _ g minerStep.abort [OF refl refl refl c]])
      (use poolInv_named [OF inv a g] in simp_all)
qed

lemma minerFreeze_follows:
  assumes E: "codecsOk E" and inv: "poolInv E w" and a: "fixed32 a" and run: "minerFreeze_Transition E a h w = Some (None, w')"
  shows "follows E (MinerFreeze a h) w w'"
proof -
  from run obtain m w1 where g: "getMiner E w a MinerTypeVerify = Inr (Some m)" and nf: "\<not> IsFrozen m"
    and rem: "(if IsActive m then removeFromPool w MinerTypeVerify a (Stake m) else Some w) = Some w1"
    and set: "setMiner E w1 (UpdateStatus MinerStatusFrozen h m) = Inr w'"
    by (auto simp: minerFreeze_Transition_def orPanic_def orFail_def split: sum.splits option.splits if_splits)
  show ?thesis
    by (rule setMiner_follows [OF E a leave_pre [OF a rem] set _ _ g minerStep.freeze [OF refl refl nf]])
      (use poolInv_named [OF inv a g] in simp_all)
qed

lemma punishOne_follows:
  assumes E: "codecsOk E" and inv: "poolInv E w" and a: "fixed32 a" "a \<in> set (mpTargets p)"
    and run: "punishOne E (mpValue p) (mpHeight p) a w = Some (None, w')"
  shows "follows E (MinerPenalty p) w w'"
  using run
proof (rule punishOne_success)
  fix m w1 w2 w3
  assume g: "getMiner E w a MinerTypeVerify = Inr (Some m)" and le: "\<not> Stake m < mpValue p"
    and rem: "(if IsActive m then removeFromPool w MinerTypeVerify a (Stake m) else Some w) = Some w1"
    and set: "setMiner E w1 (UpdateStatus MinerStatusFrozen (mpHeight p) (m\<lparr>Stake := Stake m - mpValue p\<rparr>)) = Inr w2"
    and q: "addPunishment E a (mpValue p) (mpHeight p) w2 = Some (None, w3)"
      "subPunished E a (mpValue p) (mpHeight p) w3 = Some (None, w')"
  have "follows E (MinerPenalty p) w w2"
    by (rule setMiner_follows [OF E a(1) leave_pre [OF a(1) rem] set _ _ g minerStep.punish [OF refl a(2) refl]])
      (use poolInv_named [OF inv a(1) g] le in simp_all)
  then show ?thesis
    using quiet_follows [OF quiet_trans [OF quiet_addPunishment [OF E q(1)] quiet_subPunished [OF E a(1) q(2)]]]
    by (rule follows_trans)
qed

lemma punishAll_follows:
  assumes E: "codecsOk E" and "poolInv E w" and "list_all fixed32 as" and "set as \<subseteq> set (mpTargets p)"
    and "punishAll E (mpValue p) (mpHeight p) as w = Some (None, w')"
  shows "follows E (MinerPenalty p) w w'"
  using assms(2-)
proof (induction as arbitrary: w)
  case (Cons a as)
  then obtain w1 where w1: "punishOne E (mpValue p) (mpHeight p) a w = Some (None, w1)"
    and rest: "punishAll E (mpValue p) (mpHeight p) as w1 = Some (None, w')" by auto
  have a: "fixed32 a" "a \<in> set (mpTargets p)" using Cons.prems by simp_all
  have "poolInv E w1" by (rule punishOne_pool [OF E Cons.prems(1) a(1) w1])
  with Cons.IH [OF _ _ _ rest] Cons.prems have "follows E (MinerPenalty p) w1 w'" by simp
  with punishOne_follows [OF E Cons.prems(1) a w1] show ?case by (rule follows_trans)
qed simp

lemma minerPenalty_follows:
  assumes E: "codecsOk E" and inv: "poolInv E w" and a: "list_all fixed32 (mpTargets p)"
    and run: "minerPenalty_Transition E p w = Some (None, w')"
  shows "follows E (MinerPenalty p) w w'"
proof -
  from run obtain w1 n where p: "punishAll E (mpValue p) (mpHeight p) (mpTargets p) w = Some (None, w1)"
    and r: "w' = w1 \<or> w' = fold (\<lambda>a v. w_AddBalance v a n) (mpRewards p) w1"
    by (auto simp: minerPenalty_Transition_def Let_def split: if_splits)
  have "follows E (MinerPenalty p) w w1" by (rule punishAll_follows [OF E inv a order_refl p])
  then show ?thesis using r quiet_follows [OF quiet_rewards] by (blast intro: follows_trans)
qed

lemma applyGuard_follows:
  assumes E: "codecsOk E" and inv: "poolInv E w" and a: "fixed32 (agTarget r)"
    and run: "applyGuard_Transition E r w = Some (None, w')"
  shows "follows E (ApplyGuard r) w w'"
  using run
proof (rule applyGuard_success)
  fix m d w1 w2
  let ?k = "getDetailKey (agTarget r) MinerTypeProposal Staked"
  assume g: "getMiner E w (agTarget r) MinerTypeProposal = Inr (Some m)"
    and set: "setMiner E w (UpdateIdentity MinerGuard (agHeight r) m) = Inr w1"
    and after: "afterBecomeFullGuardNode E (geneBaseIdentityOp MinerTypeProposal (Some m)) ?k d (agTarget r) (agHeight r) w1 = Some (None, w2)"
    and vote: "refreshVote E r w2 = Some (None, w')"
  have "geneBaseIdentityOp MinerTypeProposal (Some m) = NormalProposalMiner \<or>
      geneBaseIdentityOp MinerTypeProposal (Some m) = GuardProposalMiner"
    using run g by (cases "geneBaseIdentityOp MinerTypeProposal (Some m)") (simp_all add: applyGuard_Transition_def)
  then have "Identity m = MinerNormal \<or> Identity m = MinerGuard"
    by (auto simp: geneBaseIdentityOp_def split: if_splits)
  then have "follows E (ApplyGuard r) w w1"
    by - (rule setMiner_follows [OF E a refl set _ _ g minerStep.guard [OF refl refl refl]], use poolInv_named [OF inv a g] in simp_all)
  moreover have "quiet E w2 w'"
    using vote quiet_vote(1) by (auto simp: refreshVote_def orFail_def split: sum.splits option.splits)
  ultimately show ?thesis
    using quiet_follows [OF quiet_afterBecomeFullGuardNode [OF E a a after]] quiet_follows by (blast intro: follows_trans)
qed

lemma reduceTickets_follows:
  assumes E: "codecsOk E" and inv: "poolInv E w" and a: "fixed32 b"
    and run: "reduceTickets_Transition E \<lparr>rtTarget = b, rtHeight = vmHeight r\<rparr> w = Some (None, w')"
  shows "follows E (VoteMinerPool r) w w'"
proof -
  let ?op = "\<lparr>rtTarget = b, rtHeight = vmHeight r\<rparr>"
  from run obtain mo n w1 where g: "getMiner E w b MinerTypeProposal = Inr mo" and sub: "subTicket w b = (n, w1)"
    and after: "afterTicketReduce E (geneBaseIdentityOp MinerTypeProposal mo) ?op mo n w1 = Some (None, w')"
    by (auto simp: reduceTickets_Transition_def processReduceTicket_def split: sum.splits if_splits prod.splits)
  have q: "quiet E w w1" using a sub by simp
  have pre: "getMiner E w1 c u = getMiner E w c u" if "fixed32 c" for c u using q that by (simp add: quiet_def)
  have machine: "follows E (VoteMinerPool r) w w'"
    if m: "mo = Some m" "geneBaseIdentityOp MinerTypeProposal mo = MinerPoolProposalMiner"
      and pre2: "\<And>c u. fixed32 c \<Longrightarrow> getMiner E w2 c u = getMiner E w c u"
      and set: "setMiner E w2 (if IsActive m
        then UpdateStatus MinerStatusPrepare (vmHeight r) (UpdateIdentity InValidMinerPool (vmHeight r) m)
        else UpdateIdentity InValidMinerPool (vmHeight r) m) = Inr w'" for m w2
  proof -
    have "IsMinerPool m" using m by (auto simp: geneBaseIdentityOp_def IsMinerPool_def split: if_splits)
    then show ?thesis
      by - (rule setMiner_follows [OF E a pre2 set _ _ _ minerStep.unpool [OF refl refl _ refl]],
          use poolInv_named [OF inv a] g m(1) in auto)
  qed
  from afterTicketReduce_success [OF after] show ?thesis
    using quiet_follows [OF q] machine [OF _ _ pre] machine [OF _ _ trans [OF removeFromPool_Some(1) [OF _ a] pre]] by auto
qed

lemma afterTicketsFull_follows:
  assumes E: "codecsOk E" and inv: "poolInv E w" and a: "fixed32 (vmTarget r)"
    and g: "getMiner E w (vmTarget r) MinerTypeProposal = Inr mo"
    and iop: "iop = geneBaseIdentityOp MinerTypeProposal mo" "iop \<noteq> GuardProposalMiner"
    and run: "afterTicketsFull E iop r mo w = Some (None, w')"
  shows "follows E (VoteMinerPool r) w w'"
proof -
  let ?new = "\<lparr>ID = vmTarget r, PublicKey = [], VrfPublicKey = [], ApplyHeight = vmHeight r, Stake = 0,
      StatusUpdateHeight = 0, MType = MinerTypeProposal, Status = MinerStatusPrepare,
      Identity = MinerNormal, IdentityUpdateHeight = 0\<rparr>"
  consider "w' = w" | m where "mo = Some m" "Identity m = MinerNormal \<or> Identity m = InValidMinerPool"
      "setMiner E w (UpdateIdentity MinerPool (vmHeight r) m) = Inr w'"
    | "mo = None" "setMiner E w (UpdateIdentity MinerPool (vmHeight r) ?new) = Inr w'"
    using run iop by (cases mo; cases iop) (auto simp: orFail_def Let_def geneBaseIdentityOp_def split: sum.splits if_splits,
        simp add: miner_consts)
  then show ?thesis
  proof cases
    case 2
    show ?thesis
      by (rule setMiner_follows [OF E a refl 2(3) _ _ _ minerStep.pool [OF refl refl refl 2(2)]])
        (use poolInv_named [OF inv a] g 2(1) in simp_all)
  next
    case 3
    show ?thesis
      by (rule setMiner_follows [OF E a refl 3(2) _ _ _ minerStep.newPool [OF refl refl refl]])
        (use a g 3(1) in \<open>simp_all add: IsPrepare_def UpdateIdentity_def\<close>)
  qed simp
qed

lemma voteMinerPool_follows:
  assumes E: "codecsOk E" and inv: "poolInv E w" and ab: "fixed32 (vmSource r)" "fixed32 (vmTarget r)"
    and run: "voteMinerPool_Transition E r w = Some (None, w')"
  shows "follows E (VoteMinerPool r) w w'"
proof -
  from run obtain mo vf where g: "getMiner E w (vmTarget r) MinerTypeProposal = Inr mo"
    and vf: "getVoteInfo E w (vmSource r) = Inr vf"
    and b: "baseVote E r vf w (\<lambda>isFull w1. if isFull then afterTicketsFull E (geneBaseIdentityOp MinerTypeProposal mo) r mo w1
        else succeeds w1) = Some (None, w')" by (rule voteMinerPool_success)
  have iop: "geneBaseIdentityOp MinerTypeProposal mo \<noteq> GuardProposalMiner" using run g by (auto simp: voteMinerPool_Transition_def)
  from b show ?thesis
  proof (rule baseVote_success)
    fix v :: voteInfo and w1 w2 w3 f w4
    assume v: "voteBefore E r vf w = Inr (v, w1)" and vote: "voteMinerPool E w1 v (vmSource r) (vmTarget r) (vmHeight r) = Inr w2"
      and red: "w3 = w2 \<or> vTarget v \<noteq> vmTarget r \<and>
         reduceTickets_Transition E \<lparr>rtTarget = vTarget v, rtHeight = vmHeight r\<rparr> w2 = Some (None, w3)"
      and add: "w4 = w3 \<or> (\<exists>n. addTicket w3 (vmTarget r) = (n, w4))"
      and k: "(if f then afterTicketsFull E (geneBaseIdentityOp MinerTypeProposal mo) r mo w4 else succeeds w4) = Some (None, w')"
    note st = baseVote_pool [OF E inv ab vf v vote red add]
    have "follows E (VoteMinerPool r) w2 w3"
      using red reduceTickets_follows [OF E st(2) voteBefore_props(2) [OF v E vf]] by auto
    moreover have "follows E (VoteMinerPool r) w3 w4" using add ab(2) by (auto intro: quiet_follows)
    moreover have "follows E (VoteMinerPool r) w4 w'"
      using k afterTicketsFull_follows [OF E st(3) ab(2) _ refl iop] st(4) g by (auto split: if_splits)
    ultimately show ?thesis using quiet_follows [OF st(1)] by (blast intro: follows_trans)
  qed
qed

lemma mTransition_follows:
  assumes E: "codecsOk E" and inv: "poolInv E w" and op: "opOk op" and run: "mTransition E op w = Some (None, w')"
  shows "follows E op w w'"
proof (cases op)
  case (StakeRefund r)
  then have "quiet E w w'" using run op
    by (auto simp: opOk_def elim!: stakeRefund_success intro: quiet_trans [OF quiet_removeDetail quiet_balance(1)])
  then show ?thesis by (rule quiet_follows)
next
  case (ChangeFundGuardMode r)
  then have "quiet E w w'" using run op quiet_guard_mode
    by (auto simp: opOk_def changeFundGuardMode_Transition_def processChangeFundGuardMode_def split: sum.splits option.splits if_splits)
  then show ?thesis by (rule quiet_follows)
qed (use op run in \<open>auto simp: opOk_def intro: stakeAdd_follows [OF E inv] stakeReduce_follows [OF E inv] minerAbort_follows [OF E inv]
      minerFreeze_follows [OF E inv] minerPenalty_follows [OF E inv] applyGuard_follows [OF E inv] voteMinerPool_follows [OF E inv]\<close>)

section \<open>Frozen miners\<close>

lemma frozen_step:
  assumes "minerStep E op a t (Some m) mo'" and "IsFrozen m"
  shows "(\<exists>m'. mo' = Some m' \<and> IsFrozen m') \<or>
    (\<exists>r. op = MinerAbort r \<and> maAddr r = a \<and> maType r = t \<and> \<not> maHeight r \<le> StatusUpdateHeight m + oneHourBlocks)"
  using assms
proof (cases rule: minerStep.cases)
  case (abort r)
  then show ?thesis using assms(2) by (auto simp: checkStakeAbort_def split: if_splits)
qed (auto simp: stakedMiner_def miner_status_defs checkCanReduce_def miner_consts split: if_splits)

lemma frozen_steps:
  assumes "(minerStep E op a t)\<^sup>*\<^sup>* mo mo'" and "mo = Some m" and "IsFrozen m"
  shows "(\<exists>m'. mo' = Some m' \<and> IsFrozen m') \<or>
    (\<exists>r. op = MinerAbort r \<and> maAddr r = a \<and> maType r = t \<and> \<not> maHeight r \<le> StatusUpdateHeight m + oneHourBlocks)"
  using assms
proof (induction arbitrary: m rule: converse_rtranclp_induct)
  case (step x y)
  from frozen_step [of E op a t m y] step.hyps(1) step.prems
  consider m1 where "y = Some m1" "IsFrozen m1"
    | r where "op = MinerAbort r" "maAddr r = a" "maType r = t" "\<not> maHeight r \<le> StatusUpdateHeight m + oneHourBlocks" by blast
  then show ?case
  proof cases
    case 1
    show ?thesis
    proof (cases "\<exists>r. op = MinerAbort r")
      case True
      then show ?thesis using step.hyps(1) step.prems frozen_step [of E op a t m y] 1
        by (auto elim!: minerStepE simp: checkStakeAbort_def split: if_splits)
    next
      case False
      with step.IH [OF 1] show ?thesis by auto
    qed
  qed auto
qed auto

section \<open>Qualified miners\<close>

text \<open>An active miner has complete keys and at least the minimum stake.\<close>

definition isQualified :: "Miner option \<Rightarrow> bool" where
  "isQualified mo \<longleftrightarrow> (\<forall>m. mo = Some m \<longrightarrow> IsActive m \<longrightarrow> PksCompleted m \<and> checkLowerBound m)"

text \<open>
  Operations as the parser and the validators of transactions let them through: a role that
  exists, keys either absent or complete.
\<close>

definition opTyped :: "mOperation \<Rightarrow> bool" where
  "opTyped op \<longleftrightarrow>
    (case op of
       StakeAdd r \<Rightarrow> saPks r = (saPks r)\<lparr>Pk := [], VrfPk := []\<rparr> \<or>
         length (Pk (saPks r)) = pkSize \<and> length (VrfPk (saPks r)) = vrfPkSize
     | StakeReduce r \<Rightarrow> IsProposalRole (srType r) \<or> IsVerifyRole (srType r)
     | _ \<Rightarrow> True)"

lemma PksCompleted_simps [simp]:
  "PksCompleted (UpdateStatus s h m) = PksCompleted m" "PksCompleted (UpdateIdentity i h m) = PksCompleted m"
  "PksCompleted (m\<lparr>Stake := v\<rparr>) = PksCompleted m"
  "checkLowerBound (UpdateStatus s h m) = checkLowerBound m" "checkLowerBound (UpdateIdentity i h m) = checkLowerBound m"
  "checkLowerBound (setPks m p) = checkLowerBound m"
  by (simp_all add: PksCompleted_def UpdateStatus_def UpdateIdentity_def checkLowerBound_def setPks_def Let_def)

lemma setPks_completed:
  assumes "opTyped (StakeAdd r)" and "PksCompleted m"
  shows "PksCompleted (setPks m (saPks r))"
proof -
  have "(Pk (saPks r) = [] \<and> VrfPk (saPks r) = []) \<or> length (Pk (saPks r)) = pkSize \<and> length (VrfPk (saPks r)) = vrfPkSize"
    using assms(1) by (cases "saPks r") (auto simp: opTyped_def)
  then show ?thesis using assms(2) by (auto simp: PksCompleted_def setPks_def Let_def)
qed

lemma qualified_step:
  assumes "minerStep E op a t mo mo'" and "opTyped op" and "isQualified mo"
  shows "isQualified mo'"
  using assms
proof (cases rule: minerStep.cases)
  case (stake r m0 m1 m2)
  have low: "checkLowerBound m0 \<and> PksCompleted m0" if "IsActive m0"
  proof -
    from stakedMiner_props [OF stake(5)] that obtain m where m: "mo = Some m" "m0 = m\<lparr>Stake := Stake m + saValue r\<rparr>"
      "unat (Stake m0) = unat (Stake m) + unat (saValue r)"
      by (cases mo) (auto simp: initMiner_def IsActive_def miner_consts)
    then show ?thesis using assms(3) that by (auto simp: isQualified_def checkLowerBound_def word_le_iff_unat)
  qed
  have "PksCompleted m1" if "IsActive m1"
    using that low setPks_completed [of r m0] assms(2) stake(2,6) by (auto split: if_splits)
  moreover have "checkLowerBound m1" if "IsActive m1" using that low stake(6) by (auto split: if_splits)
  ultimately show ?thesis using stake(1,8) by (auto simp: isQualified_def checkCanActivate_def split: if_splits)
next
  case (unstake r m m1 m2)
  then show ?thesis using assms(2,3)
    by (auto simp: isQualified_def checkCanReduce_def opTyped_def split: if_splits)
qed (use assms(3) in \<open>auto simp: isQualified_def miner_status_defs miner_consts PksCompleted_def checkLowerBound_def split: if_splits\<close>)

lemma qualified_steps: "(minerStep E op a t)\<^sup>*\<^sup>* mo mo' \<Longrightarrow> opTyped op \<Longrightarrow> isQualified mo \<Longrightarrow> isQualified mo'"
  by (induction rule: rtranclp_induct) (auto intro: qualified_step)

definition qualifiedInv :: "menv \<Rightarrow> world \<Rightarrow> bool" where
  "qualifiedInv E w \<longleftrightarrow> poolInv E w \<and> (\<forall>a t. fixed32 a \<longrightarrow> (\<exists>mo. getMiner E w a t = Inr mo \<and> isQualified mo))"

lemma mTransition_qualified:
  assumes E: "codecsOk E" and op: "opOk op" "opTyped op" and inv: "qualifiedInv E w" and run: "mTransition E op w = Some (None, w')"
  shows "qualifiedInv E w'"
proof -
  have pool: "poolInv E w" using inv by (simp add: qualifiedInv_def)
  have "follows E op w w'" by (rule mTransition_follows [OF E pool op(1) run])
  then have "\<exists>mo. getMiner E w' a t = Inr mo \<and> isQualified mo" if "fixed32 a" for a t
    using inv that qualified_steps [OF _ op(2)] unfolding follows_def qualifiedInv_def by metis
  then show ?thesis using mTransition_pool [OF E op(1) pool run] by (simp add: qualifiedInv_def)
qed

interpretation qualified_ops: guarded_op "\<lambda>op. codecsOk E \<and> opOk op \<and> opTyped op" "mTransition E" "qualifiedInv E" for E
  by unfold_locales (auto intro: mTransition_qualified)

end
