(* ===== verification/Miner_Example.thy ===== *)
theory Miner_Example
  imports Miner_Status
begin

text \<open>
  A concrete environment for the miner code: a codec that meets the laws required of msgpack, an
  empty state with one rich account, and a first stake on it. The witnesses of the properties about
  miners use them.
\<close>

section \<open>A codec\<close>

definition putBytes :: "bytes \<Rightarrow> bytes" where
  "putBytes b = replicate (length b) 1 @ 0 # b"

definition getBytes :: "bytes \<Rightarrow> (bytes \<times> bytes) option" where
  "getBytes bs =
    (let n = length (takeWhile (\<lambda>x. x = 1) bs); r = drop (Suc n) bs
     in if n \<le> length r then Some (take n r, drop n r) else None)"

lemma takeWhile_replicate: "takeWhile (\<lambda>x. x = 1) (replicate n (1 :: byte) @ 0 # r) = replicate n 1"
  by (induction n) auto

lemma getBytes_put [simp]: "getBytes (putBytes b @ r) = Some (b, r)"
  by (simp add: getBytes_def putBytes_def takeWhile_replicate Let_def)

definition getU64 :: "bytes \<Rightarrow> (u64 \<times> bytes) option" where
  "getU64 bs = (if length bs < 8 then None else Some (beUint64 bs, drop 8 bs))"

lemma beUint64_append [simp]: "beUint64 (Uint64ToByte v @ r) = v"
  using beUint64_Uint64ToByte [of v] by (simp add: beUint64_def)

lemma getU64_put [simp]: "getU64 (Uint64ToByte v @ r) = Some (v, r)"
  by (simp add: getU64_def)

lemma getU64_put_last [simp]: "getU64 (Uint64ToByte v) = Some (v, [])"
  by (simp add: getU64_def)

definition getByte :: "bytes \<Rightarrow> (byte \<times> bytes) option" where
  "getByte bs = (case bs of [] \<Rightarrow> None | b # r \<Rightarrow> Some (b, r))"

lemma getByte_Cons [simp]: "getByte (b # r) = Some (b, r)"
  by (simp add: getByte_def)

definition exMarshalMiner :: "Miner \<Rightarrow> bytes option" where
  "exMarshalMiner m =
    Some (putBytes (ID m) @ putBytes (PublicKey m) @ putBytes (VrfPublicKey m) @ Uint64ToByte (ApplyHeight m) @
      Uint64ToByte (Stake m) @ Uint64ToByte (StatusUpdateHeight m) @ Uint64ToByte (IdentityUpdateHeight m) @
      [MType m, Status m, Identity m])"

definition exUnmarshalMiner :: "bytes \<Rightarrow> Miner option" where
  "exUnmarshalMiner bs =
    Option.bind (getBytes bs) (\<lambda>(i, r1). Option.bind (getBytes r1) (\<lambda>(pk, r2). Option.bind (getBytes r2) (\<lambda>(vrf, r3).
    Option.bind (getU64 r3) (\<lambda>(ah, r4). Option.bind (getU64 r4) (\<lambda>(st, r5). Option.bind (getU64 r5) (\<lambda>(su, r6).
    Option.bind (getU64 r6) (\<lambda>(iu, r7). Option.bind (getByte r7) (\<lambda>(ty, r8). Option.bind (getByte r8) (\<lambda>(ss, r9).
    Option.bind (getByte r9) (\<lambda>(idt, _).
      Some \<lparr>ID = i, PublicKey = pk, VrfPublicKey = vrf, ApplyHeight = ah, Stake = st, StatusUpdateHeight = su,
            MType = ty, Status = ss, Identity = idt, IdentityUpdateHeight = iu\<rparr>))))))))))"

definition exMarshalDetail :: "stakeDetail \<Rightarrow> bytes option" where
  "exMarshalDetail d =
    Some (Uint64ToByte (sdValue d) @ Uint64ToByte (sdHeight d) @ Uint64ToByte (DisMissHeight d) @
      Uint64ToByte (MarkNotFullHeight d) @ [])"

definition exUnmarshalDetail :: "bytes \<Rightarrow> stakeDetail option" where
  "exUnmarshalDetail bs =
    Option.bind (getU64 bs) (\<lambda>(v, r1). Option.bind (getU64 r1) (\<lambda>(h, r2). Option.bind (getU64 r2) (\<lambda>(dm, r3).
    Option.bind (getU64 r3) (\<lambda>(nf, _). Some \<lparr>sdValue = v, sdHeight = h, DisMissHeight = dm, MarkNotFullHeight = nf\<rparr>))))"

definition exMarshalVote :: "voteInfo \<Rightarrow> bytes option" where
  "exMarshalVote v = Some (putBytes (vTarget v) @ Uint64ToByte (vHeight v) @ [])"

definition exUnmarshalVote :: "bytes \<Rightarrow> voteInfo option" where
  "exUnmarshalVote bs =
    Option.bind (getBytes bs) (\<lambda>(t, r1). Option.bind (getU64 r1) (\<lambda>(h, _).
      if fixed32 t then Some \<lparr>vTarget = t, vHeight = h\<rparr> else None))"

definition exMarshalGuard :: "fundGuardNode \<Rightarrow> bytes option" where
  "exMarshalGuard f = Some (Uint64ToByte (fgHeight f) @ [fgType f, fgModeType f])"

definition exUnmarshalGuard :: "bytes \<Rightarrow> fundGuardNode option" where
  "exUnmarshalGuard bs =
    Option.bind (getU64 bs) (\<lambda>(h, r1). Option.bind (getByte r1) (\<lambda>(t, r2). Option.bind (getByte r2) (\<lambda>(md, _).
      Some \<lparr>fgType = t, fgHeight = h, fgModeType = md\<rparr>)))"

definition exEnv :: menv where
  "exEnv =
    \<lparr>marshalMiner = exMarshalMiner, unmarshalMiner = exUnmarshalMiner,
     marshalDetail = exMarshalDetail, unmarshalDetail = exUnmarshalDetail,
     marshalVote = exMarshalVote, unmarshalVote = exUnmarshalVote,
     marshalGuard = exMarshalGuard, unmarshalGuard = exUnmarshalGuard,
     noLiveGroup = (\<lambda>_ _. True), StakePlatformAddr = numAddress 9\<rparr>"

lemma exMiner_law: "codecLaw (\<lambda>_. True) exMarshalMiner exUnmarshalMiner"
  by (simp add: codecLaw_def exMarshalMiner_def exUnmarshalMiner_def)

lemma exDetail_law: "codecLaw (\<lambda>_. True) exMarshalDetail exUnmarshalDetail"
  by (simp add: codecLaw_def exMarshalDetail_def exUnmarshalDetail_def)

lemma exVote_law: "codecLaw (\<lambda>v. fixed32 (vTarget v)) exMarshalVote exUnmarshalVote"
  by (auto simp: codecLaw_def exMarshalVote_def exUnmarshalVote_def bind_eq_Some_conv split: if_splits)

lemma exGuard_law: "codecLaw (\<lambda>_. True) exMarshalGuard exUnmarshalGuard"
  by (simp add: codecLaw_def exMarshalGuard_def exUnmarshalGuard_def)

lemma exEnv_ok [simp]: "codecsOk exEnv"
  using exMiner_law exDetail_law exVote_law exGuard_law by (simp add: codecsOk_def exEnv_def)

section \<open>A state and a first stake\<close>

definition exAddr :: address where "exAddr = numAddress 200"

definition exWorld :: world where
  "exWorld = \<lparr>wBalance = (\<lambda>a. if a = exAddr then 1000000000000000 else 0), wNonce = (\<lambda>_. 0),
     wCodeHash = (\<lambda>_. replicate 32 0), wCode = (\<lambda>_. None), wData = (\<lambda>_ _. None), wExists = (\<lambda>_. True)\<rparr>"

definition exPks :: "MinerType \<Rightarrow> MinerPks" where
  "exPks t = \<lparr>pksMType = t, Pk = replicate 128 7, VrfPk = replicate 32 8\<rparr>"

definition exStake :: "MinerType \<Rightarrow> stakeAddOp" where
  "exStake t = \<lparr>saPks = exPks t, saValue = 600 * ZVC, addSource = exAddr, addTarget = exAddr, saType = t, saHeight = 100\<rparr>"

lemma exAddr_fixed [simp]: "fixed32 exAddr"
  by (simp add: exAddr_def numAddress_def)

lemma exWorld_get [simp]: "w_GetData exWorld a k = None"
  by (simp add: exWorld_def w_GetData_def)

lemma exWorld_reads [simp]:
  "getMiner E exWorld a t = Inr None" "getDetail E exWorld a k = Inr None" "getProposalTotalStake exWorld = 0"
  "inPool exWorld a = False" "detailVal E exWorld a s t r = 0" "minerStake E exWorld a t = 0"
  by (simp_all add: getMiner_def getDetail_def getProposalTotalStake_def inPool_def detailVal_def minerStake_def)

lemma exWorld_pool [simp]: "poolInv E exWorld"
  by (simp add: poolInv_def proposers_def minersNamed_def)

lemma exWorld_stake [simp]: "stakeInv E exWorld"
  by (simp add: stakeInv_def ledgerOk_def ledgerOf_def)

lemma exStake_opOk [simp]: "opOk (StakeAdd (exStake t))"
  by (simp add: opOk_def exStake_def)

text \<open>A write that always succeeds, and the successful end of an operation that ends with one.\<close>

lemma setMiner_succeeds:
  assumes "codecsOk E"
  shows "\<exists>w'. setMiner E w m = Inr w'"
proof -
  obtain b where "marshalMiner E m = Some b" by (rule codecLawD [OF codecsOkD(1) [OF assms] TrueI])
  then show ?thesis by (simp add: setMiner_def)
qed

lemma setDetail_succeeds:
  assumes "codecsOk E"
  shows "\<exists>w'. setDetail E w a k d = Inr w'"
proof -
  obtain b where "marshalDetail E d = Some b" by (rule codecLawD [OF codecsOkD(2) [OF assms] TrueI])
  then show ?thesis by (simp add: setDetail_def)
qed

text \<open>
  A first stake for oneself, within the bounds and paid for, succeeds and activates the miner when
  its keys are complete.
\<close>

lemma first_stake_succeeds:
  assumes E: "codecsOk E" and a: "fixed32 a"
    and op: "addSource op = a" "addTarget op = a"
    and new: "getMiner E w a (saType op) = Inr None" "getDetail E w a (getDetailKey a (saType op) Staked) = Inr None"
    and pay: "uint (saValue op) \<le> wBalance w a" and up: "saValue op \<le> maximumStake (saHeight op)"
    and total: "unat (getProposalTotalStake w) + unat (saValue op) < 2 ^ 64"
  obtains w' m where "stakeAdd_Transition E op w = Some (None, w')" "getMiner E w' a (saType op) = Inr (Some m)"
    "Stake m = saValue op" "IsActive m = checkCanActivate (setPks (initMiner op) (saPks op))"
    "Identity m = MinerNormal" "PublicKey m = PublicKey (setPks (initMiner op) (saPks op))"
    "VrfPublicKey m = VrfPublicKey (setPks (initMiner op) (saPks op))"
proof -
  define m1 where "m1 = setPks (initMiner op) (saPks op)"
  define m2 where "m2 = (if checkCanActivate m1 then UpdateStatus MinerStatusActive (saHeight op) m1 else m1)"
  from pay obtain w1 where r: "reduceBalance w a (saValue op) = Inr w1"
    by (cases "needTransfer (uint (saValue op))")
      (simp_all add: reduceBalance_def Let_def w_CanTransfer_def w_GetBalance_def)
  note w1 = observe_reduceBalance [OF r]
  have stake: "Stake m1 = saValue op" "\<not> IsActive m1" "ID m1 = a" "MType m1 = saType op" "Identity m1 = MinerNormal"
    by (simp_all add: m1_def initMiner_def op IsActive_def miner_consts)
  have t1: "addProposalTotalStake w1 (saValue op) \<noteq> None"
    by (rule addTotal_no_panic) (use total in \<open>simp add: w1\<close>)
  obtain wp where "addToPool w1 (saType op) a (saValue op) = Some wp"
    using t1 by (cases "IsProposalRole (saType op)") (auto simp: addToPool_def)
  then obtain w2 where act: "activate op m1 w1 = Some (m2, w2)"
    using stake op by (cases "checkCanActivate m1") (auto simp: activate_def m2_def)
  obtain w3 where w3: "setMiner E w2 m2 = Inr w3" using setMiner_succeeds [OF E] by blast
  have "sameDetails E w1 w3"
    using sameDetails_activate [OF act] sameDetails_setMiner [OF E w3] a op by (auto intro: sameDetails_trans)
  then have d3: "getDetail E w3 a (getDetailKey a (saType op) Staked) = Inr None"
    using new(2) a by (simp add: sameDetails_def w1)
  obtain w4 where w4: "setDetail E w3 a (getDetailKey a (saType op) Staked)
      ((raiseDetail None (saValue op))\<lparr>sdHeight := saHeight op\<rparr>) = Inr w4" using setDetail_succeeds [OF E] by blast
  have iop: "geneBaseIdentityOp (saType op) None = VerifyMiner \<or> geneBaseIdentityOp (saType op) None = NormalProposalMiner"
    by (simp add: geneBaseIdentityOp_def)
  have m1': "setPks (initMiner op) (saPks op) = m1" by (simp add: m1_def)
  have bound: "checkUpperBound m1 (saHeight op)" using up stake by (simp add: checkUpperBound_def)
  have run: "stakeAdd_Transition E op w = Some (None, w4)"
    using iop act w3 d3 w4 bound r new(1)
    by (auto simp: stakeAdd_Transition_def processStakeAdd_def baseProcessStakeAdd_def op stakedMiner_def m1' Let_def
        orFail_def addStakeDetail_def)
  have id2: "ID m2 = a" "MType m2 = saType op" "Stake m2 = saValue op" "Identity m2 = MinerNormal"
    "PublicKey m2 = PublicKey m1" "VrfPublicKey m2 = VrfPublicKey m1"
    using stake by (simp_all add: m2_def UpdateStatus_def)
  have "getMiner E w4 a (saType op) = Inr (Some m2)"
    using setDetail_Inr(1) [OF E w4 a] setMiner_Inr(1) [OF E w3] id2 a by simp
  moreover have "IsActive m2 = checkCanActivate m1" using stake by (simp add: m2_def)
  ultimately show thesis using that [OF run] id2 by (simp add: m1')
qed

section \<open>A run\<close>

text \<open>A stake followed by a reduction, evaluated.\<close>

definition exReduce :: "MinerType \<Rightarrow> stakeReduceOp" where
  "exReduce t = \<lparr>cancelTarget = exAddr, cancelSource = exAddr, srValue = 50 * ZVC, srType = t, srHeight = 200\<rparr>"

lemma exReduce_opOk [simp]: "opOk (StakeReduce (exReduce t))"
  by (simp add: opOk_def exReduce_def)

definition thenRun :: "outcome option \<Rightarrow> (world \<Rightarrow> 'a option) \<Rightarrow> 'a option" where
  "thenRun r k = (case r of Some (None, w) \<Rightarrow> k w | _ \<Rightarrow> None)"

lemma thenRun_Some: "thenRun r k = Some x \<longleftrightarrow> (\<exists>w. r = Some (None, w) \<and> k w = Some x)"
  by (auto simp: thenRun_def split: option.splits)

lemma ex_run_code:
  "thenRun (stakeAdd_Transition exEnv (exStake 1) exWorld)
     (\<lambda>w1. thenRun (stakeReduce_Transition exEnv (exReduce 1) w1) (\<lambda>w2. Some ())) = Some ()"
  by code_simp

lemma ex_run:
  obtains w1 w2 where "stakeAdd_Transition exEnv (exStake 1) exWorld = Some (None, w1)"
    "stakeReduce_Transition exEnv (exReduce 1) w1 = Some (None, w2)"
  using ex_run_code by (auto simp: thenRun_Some)

lemma ex_freeze_code:
  "thenRun (stakeAdd_Transition exEnv (exStake 0) exWorld)
     (\<lambda>w1. thenRun (minerFreeze_Transition exEnv exAddr 150 w1) (\<lambda>w2. Some ())) = Some ()"
  by code_simp

lemma ex_freeze:
  obtains w1 w2 where "stakeAdd_Transition exEnv (exStake 0) exWorld = Some (None, w1)"
    "minerFreeze_Transition exEnv exAddr 150 w1 = Some (None, w2)"
  using ex_freeze_code by (auto simp: thenRun_Some)

lemma freeze_freezes:
  assumes E: "codecsOk E" and inv: "poolInv E w" and a: "fixed32 a" and run: "minerFreeze_Transition E a h w = Some (None, w')"
  obtains m where "getMiner E w' a MinerTypeVerify = Inr (Some m)" "IsFrozen m"
proof -
  from run obtain m w1 where g: "getMiner E w a MinerTypeVerify = Inr (Some m)"
    and set: "setMiner E w1 (UpdateStatus MinerStatusFrozen h m) = Inr w'"
    by (auto simp: minerFreeze_Transition_def orPanic_def orFail_def split: sum.splits option.splits if_splits)
  have "getMiner E w' a MinerTypeVerify = Inr (Some (UpdateStatus MinerStatusFrozen h m))"
    using setMiner_Inr(1) [OF E set] poolInv_named [OF inv a g] by simp
  then show thesis by (rule that) (simp add: IsFrozen_def UpdateStatus_def)
qed

end
