(* ===== verification/Miner_Props.thy ===== *)
theory Miner_Props
  imports Miner_Example
begin

text \<open>
  The properties of the miner component: stake bounds by height, key and payload round trips, and
  the behaviour of the miner operations on states and runs, with witnesses on the example
  environment.
\<close>

section \<open>Stake bounds\<close>

definition stakeTable :: "u64 list" where
  "stakeTable = [2500000000000000, 3500000000000000, 4500000000000000, 5500000000000000, 6000000000000000,
     6500000000000000, 7000000000000000, 7250000000000000, 7500000000000000, 7750000000000000,
     7875000000000000, 8000000000000000, 8125000000000000]"

lemma canStake_table: "list_all (\<lambda>n. canStakeLoop n 0 initMaxMinerStake = stakeTable ! n) [0..<13]"
  by code_simp

lemma stakeTable_sorted: "sorted stakeTable"
  by code_simp

definition stakePeriod :: "u64 \<Rightarrow> nat" where
  "stakePeriod h = min 12 (unat h div 10000000)"

lemma maximumStake_table: "maximumStake h = stakeTable ! stakePeriod h"
proof -
  have "unat (if h > 120000000 then 12 else h div 10000000) = stakePeriod h"
  proof (cases "unat h > 120000000")
    case True
    then have "unat h div 10000000 \<ge> 120000000 div 10000000" by (intro div_le_mono) simp
    with True show ?thesis by (simp add: stakePeriod_def word_less_iff_unat)
  next
    case False
    then have "unat h div 10000000 \<le> 120000000 div 10000000" by (intro div_le_mono) simp
    with False show ?thesis by (simp add: stakePeriod_def word_less_iff_unat unat_div)
  qed
  then have "maximumStake h = canStakeLoop (stakePeriod h) 0 initMaxMinerStake"
    by (auto simp: maximumStake_def stake_consts Let_def split: if_splits)
  moreover have "stakePeriod h < 13" by (simp add: stakePeriod_def min_def)
  ultimately show ?thesis using canStake_table by (simp add: list_all_iff)
qed

lemma stakePeriod_less: "stakePeriod h < length stakeTable"
  by (simp add: stakePeriod_def stakeTable_def min_def)

lemma stakeTable_bounds: "2500000000000000 \<le> maximumStake h" "maximumStake h \<le> 8125000000000000"
proof -
  have "list_all (\<lambda>x. 2500000000000000 \<le> x \<and> x \<le> 8125000000000000) stakeTable" by code_simp
  then have "2500000000000000 \<le> stakeTable ! stakePeriod h \<and> stakeTable ! stakePeriod h \<le> 8125000000000000"
    using stakePeriod_less by (simp add: list_all_length)
  then show "2500000000000000 \<le> maximumStake h" "maximumStake h \<le> 8125000000000000"
    by (simp_all add: maximumStake_table)
qed

lemma maximumStake_mono: "h \<le> k \<Longrightarrow> maximumStake h \<le> maximumStake k"
  unfolding maximumStake_table
  by (rule sorted_nth_mono [OF stakeTable_sorted _ stakePeriod_less])
    (auto simp: stakePeriod_def word_le_iff_unat intro!: min.mono div_le_mono)

lemma validTickets_nat: "unat (getValidTicketsByHeight h) = (if unat h div 30000000 < 4 then 8 - 2 * (unat h div 30000000) else 1)"
proof -
  define q where "q = h div 30000000"
  have uq: "unat q = unat h div 30000000" by (simp add: q_def unat_div)
  have "unat h div 30000000 * 30000000 \<le> unat h" "unat h < 2 ^ 64" using unsigned_less [of h] by simp_all
  then have small: "2 * unat q < 2 ^ 64" unfolding uq by linarith
  have u2: "unat (q * 2) = 2 * unat q" using small by (simp add: unat_word_ariths)
  have "getValidTicketsByHeight h = (if 8 \<le> q * 2 then 1 else 8 - q * 2)"
    by (simp add: getValidTicketsByHeight_def stake_consts Let_def q_def)
  then show ?thesis using u2 uq
    by (auto simp: word_le_iff_unat unat_sub_no_borrow not_le)
qed

text \<open>
  The stake bounds (C27): at every height the maximum stake of a miner lies between 2.5 and 8.125
  million coins and grows with the height, the tickets a pool needs lie between one and eight and
  shrink with it, and the product that bounds a pool's stake does not overflow 64 bits.
\<close>

theorem stake_bounds:
  "unat (maximumStake h) \<in> {2500000 * 10 ^ 9 .. 8125000 * 10 ^ 9} \<and> unat (getValidTicketsByHeight h) \<in> {1 .. 8} \<and>
   unat (getFullMinerPoolStake h) = unat (maximumStake h) * unat (getValidTicketsByHeight h) \<and>
   (h \<le> k \<longrightarrow> maximumStake h \<le> maximumStake k \<and> getValidTicketsByHeight k \<le> getValidTicketsByHeight h)"
proof -
  have m: "unat (maximumStake h) \<in> {2500000 * 10 ^ 9 .. 8125000 * 10 ^ 9}"
    using stakeTable_bounds [of h] by (simp add: word_le_iff_unat)
  have t: "unat (getValidTicketsByHeight h) \<in> {1 .. 8}" by (auto simp: validTickets_nat)
  have "unat (maximumStake h) * unat (getValidTicketsByHeight h) \<le> (8125000 * 10 ^ 9) * 8"
    using m t by (intro mult_le_mono) auto
  also have "\<dots> < 2 ^ 64" by simp
  finally have "unat (getFullMinerPoolStake h) = unat (maximumStake h) * unat (getValidTicketsByHeight h)"
    unfolding getFullMinerPoolStake_def by (simp add: unat_word_ariths)
  moreover have "getValidTicketsByHeight k \<le> getValidTicketsByHeight h" if "h \<le> k"
  proof -
    have "unat h div 30000000 \<le> unat k div 30000000" using that by (simp add: word_le_iff_unat div_le_mono)
    then show ?thesis by (auto simp: word_le_iff_unat validTickets_nat)
  qed
  ultimately show ?thesis using m t maximumStake_mono by blast
qed

theorem stake_bounds_witness:
  "unat (maximumStake 25000000) \<in> {2500000 * 10 ^ 9 .. 8125000 * 10 ^ 9} \<and>
   getValidTicketsByHeight 95000000 \<le> getValidTicketsByHeight 25000000"
  using stake_bounds [of 25000000 95000000] by simp

section \<open>Round trips\<close>

text \<open>
  Payloads (C28): decoding an encoded payload gives it back, without the keys unless both have
  their full length; and every payload that decodes is the encoding of its result.
\<close>

theorem payload_roundtrip:
  "DecodePayload (EncodePayload pks) =
     Inr (if length (Pk pks) = pkSize \<and> length (VrfPk pks) = vrfPkSize then pks else pks\<lparr>Pk := [], VrfPk := []\<rparr>) \<and>
   (DecodePayload bs = Inr pks' \<longrightarrow> EncodePayload pks' = bs)"
proof
  show "DecodePayload (EncodePayload pks) =
     Inr (if length (Pk pks) = pkSize \<and> length (VrfPk pks) = vrfPkSize then pks else pks\<lparr>Pk := [], VrfPk := []\<rparr>)"
    by (simp add: DecodePayload_def EncodePayload_def pkSize_def vrfPkSize_def Let_def)
  have "EncodePayload pks' = bs" if "DecodePayload bs = Inr pks'"
  proof -
    from that obtain v t r where bs: "bs = v # t # r" and len: "length r = 0 \<or> length r = pkSize + vrfPkSize"
      by (cases bs rule: remdups_adj.cases)
        (auto simp: DecodePayload_def Let_def pkSize_def vrfPkSize_def split: if_splits)
    with that show ?thesis
      by (auto simp: DecodePayload_def EncodePayload_def Let_def pkSize_def vrfPkSize_def split: if_splits)
  qed
  then show "DecodePayload bs = Inr pks' \<longrightarrow> EncodePayload pks' = bs" by blast
qed

theorem payload_roundtrip_witness:
  "DecodePayload [1, 0] = Inr \<lparr>pksMType = 0, Pk = [], VrfPk = []\<rparr> \<and>
   EncodePayload \<lparr>pksMType = 0, Pk = [], VrfPk = []\<rparr> = [1, 0]"
proof
  show d: "DecodePayload [1, 0] = Inr \<lparr>pksMType = 0, Pk = [], VrfPk = []\<rparr>"
    by (simp add: DecodePayload_def PayloadVersion_def Let_def pkSize_def)
  show "EncodePayload \<lparr>pksMType = 0, Pk = [], VrfPk = []\<rparr> = [1, 0]" using payload_roundtrip d by blast
qed

text \<open>
  Detail keys: parsing the storage key of a stake detail gives back the staker, the miner type
  and the status; a key shorter than any detail key makes the parser panic, and every 36-byte key
  with the prefix is the key of what it parses to.
\<close>

theorem detail_key_roundtrip:
  "(fixed32 a \<longrightarrow> parseDetailKey (getDetailKey a t s) = Some (a, t, s)) \<and>
   (parseDetailKey k = None \<longleftrightarrow> length k < 36) \<and>
   (length k = 36 \<longrightarrow> hasPrefix k PrefixDetail \<longrightarrow> parseDetailKey k = Some (b, u, r) \<longrightarrow> getDetailKey b u r = k)"
proof (intro conjI impI)
  show "fixed32 a \<Longrightarrow> parseDetailKey (getDetailKey a t s) = Some (a, t, s)"
    by (simp add: parseDetailKey_def getDetailKey_def fixed32_def nth_append)
  show "parseDetailKey k = None \<longleftrightarrow> length k < 36" by (simp add: parseDetailKey_def)
  assume len: "length k = 36" and pre: "hasPrefix k PrefixDetail" and p: "parseDetailKey k = Some (b, u, r)"
  have "fixed32 (take 32 (drop 2 k))" using len by (simp add: fixed32_def)
  then have bur: "b = take 32 (drop 2 k)" "u = k ! 34" "r = k ! 35" using p len by (simp_all add: parseDetailKey_def split: if_splits)
  have "take 32 (drop 2 k) @ drop 34 k = drop 2 k" using append_take_drop_id [of 32 "drop 2 k"] by simp
  then have "k = take 2 k @ take 32 (drop 2 k) @ drop 34 k" by simp
  moreover have "drop 34 k = [k ! 34, k ! 35]"
    using len by (simp add: list_eq_iff_nth_eq less_Suc_eq numeral_2_eq_2)
  ultimately show "getDetailKey b u r = k" using pre bur by (simp add: getDetailKey_def hasPrefix_def)
qed

theorem detail_key_roundtrip_witness:
  "parseDetailKey (getDetailKey exAddr 1 Staked) = Some (exAddr, 1, Staked)"
  using detail_key_roundtrip by simp

section \<open>Runs of operations\<close>

lemma guarded_all: "P \<Longrightarrow> list_all Q ops \<Longrightarrow> list_all (\<lambda>op. P \<and> Q op) ops"
  by (simp add: list_all_iff)

lemma exWorld_balance: "wBalance exWorld exAddr = 1000000000000000"
  by (simp add: exWorld_def)

lemma ex_run_ops:
  obtains w1 w2 where "stakeAdd_Transition exEnv (exStake 1) exWorld = Some (None, w1)"
    "stakeReduce_Transition exEnv (exReduce 1) w1 = Some (None, w2)"
    "runAll (executeOperation exEnv) [StakeAdd (exStake 1), StakeReduce (exReduce 1)] exWorld = Some w2"
proof -
  obtain w1 w2 where "stakeAdd_Transition exEnv (exStake 1) exWorld = Some (None, w1)"
    "stakeReduce_Transition exEnv (exReduce 1) w1 = Some (None, w2)" by (rule ex_run)
  then show thesis by (rule that) (use \<open>stakeAdd_Transition exEnv (exStake 1) exWorld = Some (None, w1)\<close>
        \<open>stakeReduce_Transition exEnv (exReduce 1) w1 = Some (None, w2)\<close> in \<open>simp add: executeOperation_def\<close>)
qed

text \<open>
  The proposer pool (C7): after any run of miner operations, successful or failing, the pool holds
  exactly the active proposers, every record is stored under its own address and type, and the
  recorded total is the sum of the stakes of the active proposers.
\<close>

theorem pool_invariant:
  assumes "codecsOk E" and "poolInv E w" and "list_all opOk ops" and "runAll (executeOperation E) ops w = Some w'"
  shows "poolInv E w'"
  using pool_ops.run_inv [OF guarded_all [OF assms(1,3)] assms(2)] assms(4) by (simp add: executeOperation_reverting)

theorem pool_invariant_witness:
  "\<exists>w. runAll (executeOperation exEnv) [StakeAdd (exStake 1), StakeReduce (exReduce 1)] exWorld = Some w \<and> poolInv exEnv w"
proof -
  obtain w2 where run: "runAll (executeOperation exEnv) [StakeAdd (exStake 1), StakeReduce (exReduce 1)] exWorld = Some w2"
    by (rule ex_run_ops)
  have "poolInv exEnv w2" by (rule pool_invariant [OF exEnv_ok exWorld_pool _ run]) simp
  with run show ?thesis by blast
qed

text \<open>
  Stakes are sums (C22): after any run of miner operations the stake of every miner is the sum of
  the staked details of its account, whoever staked them, and only a verifier itself stakes for it.
\<close>

theorem stake_is_sum:
  assumes "codecsOk E" and "stakeInv E w" and "list_all opOk ops" and "runAll (executeOperation E) ops w = Some w'"
    and "fixed32 a"
  shows "minerStake E w' a t = (\<Sum>s | fixed32 s \<and> detailVal E w' a s t Staked \<noteq> 0. detailVal E w' a s t Staked) \<and>
    (fixed32 s \<and> s \<noteq> a \<longrightarrow> detailVal E w' a s MinerTypeVerify Staked = 0)"
proof -
  have "stakeInv E w'"
    using stake_ops.run_inv [OF guarded_all [OF assms(1,3)] assms(2)] assms(4) by (simp add: executeOperation_reverting)
  then have ok: "ledgerOk (ledgerOf E w')" by (simp add: stakeInv_def)
  have set: "{s. lStaked (ledgerOf E w') a s t \<noteq> 0} = {s. fixed32 s \<and> detailVal E w' a s t Staked \<noteq> 0}"
    using assms(5) by (auto simp: ledgerOf_def)
  have read: "minerStake E w' a t = lStake (ledgerOf E w') a t"
    "fixed32 s \<Longrightarrow> detailVal E w' a s u Staked = lStaked (ledgerOf E w') a s u" for s u
    using assms(5) by (simp_all add: ledgerOf_def)
  have "lStake (ledgerOf E w') a t = (\<Sum>s | lStaked (ledgerOf E w') a s t \<noteq> 0. lStaked (ledgerOf E w') a s t)"
    using ok unfolding ledgerOk_def by blast
  also have "\<dots> = (\<Sum>s | fixed32 s \<and> detailVal E w' a s t Staked \<noteq> 0. detailVal E w' a s t Staked)"
    unfolding set by (rule sum.cong) (simp_all add: read(2))
  finally show ?thesis using ok read unfolding ledgerOk_def by metis
qed

theorem stake_is_sum_witness:
  "\<exists>w. runAll (executeOperation exEnv) [StakeAdd (exStake 1), StakeReduce (exReduce 1)] exWorld = Some w \<and>
     minerStake exEnv w exAddr 1 = (\<Sum>s | fixed32 s \<and> detailVal exEnv w exAddr s 1 Staked \<noteq> 0. detailVal exEnv w exAddr s 1 Staked)"
proof -
  obtain w2 where run: "runAll (executeOperation exEnv) [StakeAdd (exStake 1), StakeReduce (exReduce 1)] exWorld = Some w2"
    by (rule ex_run_ops)
  show ?thesis using stake_is_sum [OF exEnv_ok exWorld_stake _ run exAddr_fixed] run by auto
qed

text \<open>
  The ledger (C6): every miner operation that succeeds acts on the balances, the staked and frozen
  details and the miner stakes exactly as one step of the abstract ledger: a stake moves value from
  the payer's balance to its detail, a reduction from the staked to the frozen detail, a refund from
  the frozen detail to the balance, a penalty takes value from the targets and pays the rewarded.
\<close>

theorem miner_ledger_refinement:
  assumes "codecsOk E" and "poolInv E w" and "opOk op" and "frozenRoom E op w" and "mTransition E op w = Some (None, w')"
  shows "ledgerOf E w' = ledgerStep op (ledgerOf E w)"
  using assms by (rule mTransition_ledger)

theorem miner_ledger_refinement_witness:
  "\<exists>w. mTransition exEnv (StakeAdd (exStake 1)) exWorld = Some (None, w) \<and>
     lStaked (ledgerOf exEnv w) exAddr exAddr 1 = 600000000000 \<and> wBalance w exAddr = 999400000000000"
proof -
  obtain w1 where "stakeAdd_Transition exEnv (exStake 1) exWorld = Some (None, w1)" by (rule ex_run)
  then have run: "mTransition exEnv (StakeAdd (exStake 1)) exWorld = Some (None, w1)" by simp
  have l: "ledgerOf exEnv w1 = ledgerStep (StakeAdd (exStake 1)) (ledgerOf exEnv exWorld)"
    by (rule miner_ledger_refinement [OF exEnv_ok exWorld_pool exStake_opOk _ run]) (simp add: frozenRoom_def)
  have "lStaked (ledgerOf exEnv w1) exAddr exAddr 1 = 600000000000"
    unfolding l by (simp add: lAdd_def upd3_apply exStake_def ZVC_def ledgerOf_def)
  moreover have "lBal (ledgerOf exEnv w1) exAddr = 999400000000000"
    unfolding l by (simp add: lAdd_def exStake_def ZVC_def ledgerOf_def exWorld_def)
  ultimately show ?thesis using run by (simp add: ledgerOf_def)
qed

text \<open>
  Conservation (C8): take a set of accounts with non-negative balances that are worth less than
  \<open>2 ^ 64\<close> together, balances, staked and frozen value included. No run of stakes, aborts,
  reductions, refunds, votes, applications, mode changes and freezes among them changes what they
  are worth, nor makes a balance negative.
\<close>

theorem value_conserved:
  assumes "codecsOk E" and "poolInv E w" and "finite A" and "\<forall>a\<in>A. 0 \<le> wBalance w a" and "valueOf A (ledgerOf E w) < 2 ^ 64"
    and "list_all (valueOp A) ops" and "runAll (executeOperation E) ops w = Some w'"
  shows "valueOf A (ledgerOf E w') = valueOf A (ledgerOf E w) \<and> (\<forall>a\<in>A. 0 \<le> wBalance w' a)"
proof -
  let ?V = "valueOf A (ledgerOf E w)"
  have start: "valueInv E A ?V w" using assms(2,4) by (simp add: valueInv_def)
  have ok: "list_all (\<lambda>op. codecsOk E \<and> finite A \<and> ?V < 2 ^ 64 \<and> valueOp A op) ops"
    using assms(1,3,5,6) by (simp add: list_all_iff)
  have "valueInv E A ?V w'"
    using value_ops.run_inv [OF ok start] assms(7) by (simp add: executeOperation_reverting)
  then show ?thesis by (simp add: valueInv_def)
qed

theorem value_conserved_witness:
  "\<exists>w. runAll (executeOperation exEnv) [StakeAdd (exStake 1), StakeReduce (exReduce 1)] exWorld = Some w \<and>
     valueOf {exAddr} (ledgerOf exEnv w) = 1000000000000000"
proof -
  obtain w2 where run: "runAll (executeOperation exEnv) [StakeAdd (exStake 1), StakeReduce (exReduce 1)] exWorld = Some w2"
    by (rule ex_run_ops)
  have lock: "lockedVal {exAddr} (ledgerOf exEnv exWorld) = 0"
    by (auto simp: lockedVal_def ledgerOf_def intro!: sum.neutral)
  have v: "valueOf {exAddr} (ledgerOf exEnv exWorld) = 1000000000000000"
    using lock by (simp add: valueOf_def) (simp add: ledgerOf_def exWorld_def)
  have "valueOf {exAddr} (ledgerOf exEnv w2) = valueOf {exAddr} (ledgerOf exEnv exWorld) \<and> (\<forall>a\<in>{exAddr}. 0 \<le> wBalance w2 a)"
    by (rule value_conserved [OF exEnv_ok exWorld_pool _ _ _ _ run])
      (simp_all add: v valueOp_def opOk_def exWorld_balance exStake_def exReduce_def)
  with v run show ?thesis by auto
qed

section \<open>Panics\<close>



section \<open>The life of a miner\<close>

text \<open>
  Frozen miners (C24): whatever operation is executed, a frozen miner stays frozen, unless the
  operation is its own abort, more than an hour of blocks after it was frozen.
\<close>

theorem frozen_until_abort:
  assumes "codecsOk E" and "poolInv E w" and "opOk op" and "fixed32 a" and "getMiner E w a t = Inr (Some m)" and "IsFrozen m"
    and "executeOperation E op w = Some (e, w')"
  shows "(\<exists>m'. getMiner E w' a t = Inr (Some m') \<and> IsFrozen m') \<or>
    (\<exists>r. op = MinerAbort r \<and> maAddr r = a \<and> maType r = t \<and> maHeight r > StatusUpdateHeight m + oneHourBlocks)"
proof (cases "mTransition E op w = Some (None, w')")
  case True
  have "follows E op w w'" by (rule mTransition_follows [OF assms(1-3) True])
  with assms(4,5) obtain mo' where g: "getMiner E w' a t = Inr mo'" and st: "(minerStep E op a t)\<^sup>*\<^sup>* (Some m) mo'"
    unfolding follows_def by blast
  from frozen_steps [OF st refl assms(6)] g show ?thesis by (auto simp: not_le)
next
  case False
  with assms(7) have "w' = w" by (auto simp: executeOperation_def split: option.splits prod.splits)
  with assms(5,6) show ?thesis by blast
qed

theorem frozen_until_abort_witness:
  "\<exists>w m. getMiner exEnv w exAddr 0 = Inr (Some m) \<and> IsFrozen m \<and>
     (\<forall>e w'. executeOperation exEnv (StakeAdd (exStake 0)) w = Some (e, w') \<longrightarrow>
        (\<exists>m'. getMiner exEnv w' exAddr 0 = Inr (Some m') \<and> IsFrozen m'))"
proof -
  obtain w1 w2 where run: "stakeAdd_Transition exEnv (exStake 0) exWorld = Some (None, w1)"
    "minerFreeze_Transition exEnv exAddr 150 w1 = Some (None, w2)" by (rule ex_freeze)
  have p1: "poolInv exEnv w1" by (rule mTransition_pool [of exEnv "StakeAdd (exStake 0)"]) (use run in simp_all)
  have p2: "poolInv exEnv w2"
    by (rule mTransition_pool [of exEnv "MinerFreeze exAddr 150"]) (use run p1 in \<open>simp_all add: opOk_def\<close>)
  obtain m where m: "getMiner exEnv w2 exAddr MinerTypeVerify = Inr (Some m)" "IsFrozen m"
    by (rule freeze_freezes [OF exEnv_ok p1 exAddr_fixed run(2)])
  have "\<exists>m'. getMiner exEnv w' exAddr MinerTypeVerify = Inr (Some m') \<and> IsFrozen m'"
    if "executeOperation exEnv (StakeAdd (exStake 0)) w2 = Some (e, w')" for e w'
    using frozen_until_abort [OF exEnv_ok p2 exStake_opOk exAddr_fixed m that] by simp
  with m show ?thesis by (auto simp: MinerTypeVerify_def)
qed

text \<open>
  Active miners (C25): after any run of operations with complete or absent keys and existing roles,
  every active miner has both public keys and at least the minimum stake.
\<close>

theorem active_qualified:
  assumes "codecsOk E" and "qualifiedInv E w" and "list_all opOk ops" and "list_all opTyped ops"
    and "runAll (executeOperation E) ops w = Some w'" and "fixed32 a" and "getMiner E w' a t = Inr (Some m)" and "IsActive m"
  shows "length (PublicKey m) = pkSize \<and> length (VrfPublicKey m) = vrfPkSize \<and> minimumStake \<le> Stake m"
proof -
  have ok: "list_all (\<lambda>op. codecsOk E \<and> opOk op \<and> opTyped op) ops" using assms(1,3,4) by (simp add: list_all_iff)
  have "qualifiedInv E w'"
    using qualified_ops.run_inv [OF ok assms(2)] assms(5) by (simp add: executeOperation_reverting)
  with assms(6-8) have "PksCompleted m \<and> checkLowerBound m" unfolding qualifiedInv_def isQualified_def by (metis sum.inject(2))
  then show ?thesis by (simp add: PksCompleted_def checkLowerBound_def)
qed

theorem active_qualified_witness:
  "\<exists>w m. runAll (executeOperation exEnv) [StakeAdd (exStake 1)] exWorld = Some w \<and>
     getMiner exEnv w exAddr 1 = Inr (Some m) \<and> IsActive m \<and> length (PublicKey m) = pkSize \<and> minimumStake \<le> Stake m"
proof -
  have up: "saValue (exStake 1) \<le> maximumStake (saHeight (exStake 1))"
    by (rule order_trans [OF _ stakeTable_bounds(1)]) (simp add: exStake_def ZVC_def)
  have keys: "checkCanActivate (setPks (initMiner (exStake 1)) (saPks (exStake 1)))"
    by code_simp
  have op: "addSource (exStake 1) = exAddr" "addTarget (exStake 1) = exAddr" by (simp_all add: exStake_def)
  have pay: "uint (saValue (exStake 1)) \<le> wBalance exWorld exAddr" "unat (saValue (exStake 1)) < 2 ^ 64"
    by (simp_all add: exStake_def ZVC_def exWorld_balance)
  obtain w m where run: "stakeAdd_Transition exEnv (exStake 1) exWorld = Some (None, w)"
    and m: "getMiner exEnv w exAddr (saType (exStake 1)) = Inr (Some m)" "IsActive m"
    by (rule first_stake_succeeds [OF exEnv_ok exAddr_fixed op(1,2) exWorld_reads(1,2) _ up _]) (use keys pay in auto)
  have all: "runAll (executeOperation exEnv) [StakeAdd (exStake 1)] exWorld = Some w" using run by (simp add: executeOperation_def)
  have t: "getMiner exEnv w exAddr 1 = Inr (Some m)" using m(1) by (simp add: exStake_def)
  have q: "qualifiedInv exEnv exWorld" by (simp add: qualifiedInv_def isQualified_def)
  have ty: "list_all opTyped [StakeAdd (exStake 1)]" by (simp add: opTyped_def exStake_def exPks_def pkSize_def vrfPkSize_def)
  show ?thesis using active_qualified [OF exEnv_ok q _ ty all exAddr_fixed t m(2)] all t m(2) by auto
qed

section \<open>Withdrawing\<close>

lemma reduce_freezes:
  assumes E: "codecsOk E" and run: "stakeReduce_Transition E r w = Some (None, w')" and src: "fixed32 (cancelSource r)"
  obtains d where "getDetail E w' (cancelTarget r) (getDetailKey (cancelSource r) (srType r) StakeFrozen) = Inr (Some d)"
    "sdHeight d = srHeight r"
proof -
  from run obtain v where "freezeDetail E r v = Some (None, w')"
    by (rule stakeReduce_success)
      (auto simp: reduceDetail_def Let_def orFail_def split: sum.splits option.splits if_splits)
  then show thesis
    by (rule freezeDetail_success) (use setDetail_Inr(5) [OF E _ src src] that in auto)
qed

lemma deadline_bounds: "refundDeadline E op d \<le> refundDeadlineNinetyDays"
  by (simp add: refundDeadline_def duration_defs)

text \<open>
  Withdrawing (C26): once a reduction has succeeded, a refund of the same stake more than the longest
  deadline later succeeds, and pays out the reduced value together with what was frozen before.
\<close>

theorem withdraw_live:
  assumes "codecsOk E" and "poolInv E w" and "opOk (StakeReduce r)" and "frozenFits E r w"
    and "mTransition E (StakeReduce r) w = Some (None, w1)"
    and "refundSource rf = cancelSource r" and "refundTarget rf = cancelTarget r" and "rfType rf = srType r"
    and "unat (srHeight r) + unat refundDeadlineNinetyDays < unat (rfHeight rf)"
  shows "\<exists>w2. mTransition E (StakeRefund rf) w1 = Some (None, w2) \<and>
    wBalance w2 (cancelSource r) = wBalance w (cancelSource r) + int (unat (srValue r)) +
      int (detailVal E w (cancelTarget r) (cancelSource r) (srType r) StakeFrozen)"
proof -
  have a: "fixed32 (cancelSource r)" "fixed32 (cancelTarget r)" using assms(3) by (simp_all add: opOk_def)
  have run: "stakeReduce_Transition E r w = Some (None, w1)" using assms(5) by simp
  note eff = stakeReduce_effect [OF assms(1,2) a run]
  from reduce_freezes [OF assms(1) run a(1)] obtain d where
    d: "getDetail E w1 (cancelTarget r) (getDetailKey (cancelSource r) (srType r) StakeFrozen) = Inr (Some d)" "sdHeight d = srHeight r" .
  have v: "unat (sdValue d) = detailVal E w1 (cancelTarget r) (cancelSource r) (srType r) StakeFrozen"
    using d(1) by (simp add: detailVal_def)
  also have "\<dots> = detailVal E w (cancelTarget r) (cancelSource r) (srType r) StakeFrozen + unat (srValue r)"
    using eff(3) [OF a(2,1) assms(4)] a by (simp add: lReduce_def upd3_apply)
  finally have val: "uint (sdValue d) = int (detailVal E w (cancelTarget r) (cancelSource r) (srType r) StakeFrozen) + int (unat (srValue r))"
    by (metis of_nat_add uint_nat)
  have "unat (sdHeight d + refundDeadline E rf d) \<le> unat (srHeight r) + unat (refundDeadline E rf d)"
    by (simp add: d(2) unat_word_ariths)
  also have "\<dots> < unat (rfHeight rf)" using assms(9) deadline_bounds [of E rf d] by (simp add: word_le_iff_unat)
  finally have "\<not> rfHeight rf \<le> sdHeight d + refundDeadline E rf d" by (simp add: word_le_iff_unat)
  then have "stakeRefund_Transition E rf w1 = Some (None, w_AddBalance
      (removeDetail w1 (cancelTarget r) (getDetailKey (cancelSource r) (srType r) StakeFrozen)) (cancelSource r) (uint (sdValue d)))"
    using d(1) assms(6-8) by (simp add: stakeRefund_Transition_def Let_def)
  then show ?thesis using val eff(1) by (simp add: removeDetail_def w_AddBalance_def)
qed

theorem withdraw_live_witness:
  "\<exists>w1 w2 w3. mTransition exEnv (StakeAdd (exStake 1)) exWorld = Some (None, w1) \<and>
     mTransition exEnv (StakeReduce (exReduce 1)) w1 = Some (None, w2) \<and>
     mTransition exEnv (StakeRefund \<lparr>refundTarget = exAddr, refundSource = exAddr, rfType = 1, rfHeight = 50000000\<rparr>) w2 = Some (None, w3) \<and>
     wBalance w3 exAddr = 999450000000000"
proof -
  obtain w1 w2 where run: "stakeAdd_Transition exEnv (exStake 1) exWorld = Some (None, w1)"
    "stakeReduce_Transition exEnv (exReduce 1) w1 = Some (None, w2)" by (rule ex_run)
  have p: "poolInv exEnv w1" by (rule mTransition_pool [of exEnv "StakeAdd (exStake 1)"]) (use run in simp_all)
  have l: "ledgerOf exEnv w1 = ledgerStep (StakeAdd (exStake 1)) (ledgerOf exEnv exWorld)"
    by (rule mTransition_ledger [OF exEnv_ok exWorld_pool exStake_opOk]) (use run in \<open>simp_all add: frozenRoom_def\<close>)
  have z: "lFrozen (ledgerOf exEnv w1) exAddr exAddr 1 = 0" "lBal (ledgerOf exEnv w1) exAddr = 999400000000000"
    unfolding l by (simp_all add: lAdd_def exStake_def ZVC_def) (simp_all add: ledgerOf_def exWorld_balance)
  then have z': "detailVal exEnv w1 exAddr exAddr 1 StakeFrozen = 0" "wBalance w1 exAddr = 999400000000000" by (simp_all add: ledgerOf_def)
  have "\<exists>w3. mTransition exEnv (StakeRefund \<lparr>refundTarget = exAddr, refundSource = exAddr, rfType = 1, rfHeight = 50000000\<rparr>) w2 = Some (None, w3) \<and>
    wBalance w3 (cancelSource (exReduce 1)) = wBalance w1 (cancelSource (exReduce 1)) + int (unat (srValue (exReduce 1))) +
      int (detailVal exEnv w1 (cancelTarget (exReduce 1)) (cancelSource (exReduce 1)) (srType (exReduce 1)) StakeFrozen)"
    by (rule withdraw_live [OF exEnv_ok p exReduce_opOk])
      (use run z' in \<open>simp_all add: frozenFits_def exReduce_def ZVC_def duration_defs\<close>)
  then show ?thesis using run z' by (auto simp: exReduce_def ZVC_def)
qed

end
