(* ===== verification/Transaction.thy ===== *)
theory Transaction
  imports Miner_Manager
begin

text \<open>
  Transactions (\<^verbatim>\<open>src/middleware/types/core.go\<close>) and the bytes their hash is taken of
  (\<^verbatim>\<open>src/middleware/types/tx_hashing.go\<close>). A nil pointer is \<open>None\<close>; SHA-256 is a parameter. The bytes
  determine every hashed field, up to the sign of the three amounts.
\<close>

section \<open>Transactions\<close>

record Transaction =
  txData :: bytes
  txValue :: "bigint option"
  txNonce :: u64
  txTarget :: "address option"
  txType :: int
  txGasLimit :: "bigint option"
  txGasPrice :: "bigint option"
  txExtraData :: bytes
  txSign :: "bytes option"
  txSource :: "address option"
  txHash :: hash

definition IsReward :: "Transaction \<Rightarrow> bool" where
  "IsReward tx \<longleftrightarrow> txType tx = TransactionTypeReward"

text \<open>The message interface of a transaction.\<close>

definition messageOf :: "Transaction \<Rightarrow> txMessage" where
  "messageOf tx = \<lparr>OpType = txType tx, Operator = txSource tx, OpTarget = txTarget tx, Amount = txValue tx, Payload = txData tx\<rparr>"

section \<open>The hashed bytes\<close>

definition Int32ToByte :: "32 word \<Rightarrow> bytes" where
  "Int32ToByte i = [ucast (drop_bit 24 i), ucast (drop_bit 16 i), ucast (drop_bit 8 i), ucast i]"

definition writeBytes :: "bytes \<Rightarrow> bytes" where
  "writeBytes b = Int32ToByte (of_nat (length b)) @ b"

text \<open>The bytes of a nil pointer are nil.\<close>

definition orNil :: "('a \<Rightarrow> bytes) \<Rightarrow> 'a option \<Rightarrow> bytes" where
  "orNil f x = (case x of None \<Rightarrow> [] | Some v \<Rightarrow> f v)"

definition txPreimage :: "Transaction \<Rightarrow> bytes" where
  "txPreimage tx =
    writeBytes (orNil id (txSource tx)) @ writeBytes (orNil id (txTarget tx)) @ writeBytes (orNil bigBytes (txValue tx)) @
    writeBytes (orNil bigBytes (txGasLimit tx)) @ writeBytes (orNil bigBytes (txGasPrice tx)) @
    writeBytes (bigBytes (uint (txNonce tx))) @ [of_int (txType tx)] @ writeBytes (txData tx) @ writeBytes (txExtraData tx)"

definition GenHash :: "(bytes \<Rightarrow> bytes) \<Rightarrow> Transaction \<Rightarrow> hash" where
  "GenHash sha256 tx = BytesToHash (sha256 (txPreimage tx))"

lemma be32_first: "(ucast (ucast (drop_bit 24 x) :: byte) :: 32 word) = drop_bit 24 (x :: 32 word)"
  by (rule bit_word_eqI) (auto simp: bit_simps dest: bit_imp_le_length)

lemma be32_step:
  "push_bit 8 (drop_bit (m + 8) x) OR ucast (ucast (drop_bit m x) :: byte) = drop_bit m (x :: 32 word)"
  by (rule bit_word_eqI) (auto simp: bit_simps add.commute add.left_commute)

definition beUint32 :: "bytes \<Rightarrow> 32 word" where
  "beUint32 b = fold (\<lambda>x acc. push_bit 8 acc OR ucast x) (take 4 b) 0"

lemma beUint32_Int32ToByte [simp]: "beUint32 (Int32ToByte i) = i"
  using be32_first [of i] be32_step [of 16 i] be32_step [of 8 i] be32_step [of 0 i]
  by (simp add: beUint32_def Int32ToByte_def)

lemma Int32ToByte_inject [simp]: "Int32ToByte i = Int32ToByte j \<longleftrightarrow> i = j"
  by (metis beUint32_Int32ToByte)

lemma length_Int32ToByte [simp]: "length (Int32ToByte i) = 4"
  by (simp add: Int32ToByte_def)

lemma of_nat_32_inject: "m < 2 ^ 32 \<Longrightarrow> n < 2 ^ 32 \<Longrightarrow> (of_nat m :: 32 word) = of_nat n \<longleftrightarrow> m = n"
  by (simp add: of_nat_eq_iff word_of_nat_eq_iff take_bit_nat_eq_self)

text \<open>The length prefix makes the sequence of fields readable.\<close>

lemma writeBytes_append [simp]:
  assumes "length b < 2 ^ 32" and "length c < 2 ^ 32"
  shows "writeBytes b @ r = writeBytes c @ s \<longleftrightarrow> b = c \<and> r = s"
  using assms of_nat_32_inject [OF assms] by (auto simp: writeBytes_def append_eq_append_conv)

lemma writeBytes_inject [simp]:
  "length b < 2 ^ 32 \<Longrightarrow> length c < 2 ^ 32 \<Longrightarrow> writeBytes b = writeBytes c \<longleftrightarrow> b = c"
  using writeBytes_append [of b c "[]" "[]"] by simp

text \<open>What the encoder assumes: addresses are arrays, every field is shorter than \<open>2 ^ 31\<close> bytes.\<close>

definition txFields :: "Transaction \<Rightarrow> bytes list" where
  "txFields tx =
    [orNil bigBytes (txValue tx), orNil bigBytes (txGasLimit tx), orNil bigBytes (txGasPrice tx), txData tx, txExtraData tx]"

definition txEncodable :: "Transaction \<Rightarrow> bool" where
  "txEncodable tx \<longleftrightarrow> pred_option fixed32 (txSource tx) \<and> pred_option fixed32 (txTarget tx) \<and>
    list_all (\<lambda>b. length b < 2 ^ 31) (txFields tx) \<and> txType tx \<in> {-128..<128}"

definition magnitude :: "bigint option \<Rightarrow> bigint" where
  "magnitude v = (case v of None \<Rightarrow> 0 | Some x \<Rightarrow> \<bar>x\<bar>)"

lemma orNil_magnitude [simp]: "orNil bigBytes v = orNil bigBytes u \<longleftrightarrow> magnitude v = magnitude u"
  using bigBytes_inject [of _ 0] bigBytes_inject [of 0]
  by (auto simp: orNil_def magnitude_def split: option.splits)

lemma orNil_address:
  assumes "pred_option fixed32 a" and "pred_option fixed32 b"
  shows "orNil id a = orNil id b \<longleftrightarrow> a = b" and "length (orNil id a) < 2 ^ 32"
  using assms by (auto simp: orNil_def fixed32_def split: option.splits)

lemma natBytes_length: "n < 256 ^ k \<Longrightarrow> length (natBytes n) \<le> k"
proof (induction k arbitrary: n)
  case (Suc k)
  then have "n div 256 < 256 ^ k" by (simp add: less_mult_imp_div_less mult.commute)
  with Suc.IH [of "n div 256"] show ?case by (subst natBytes.simps) simp
qed (simp add: natBytes.simps [of 0])

lemma nonce_length: "length (bigBytes (uint (x :: u64))) < 2 ^ 32"
  using natBytes_length [of "unat x" 8] by (simp add: bigBytes_def nat_uint_eq unat_less_pow)

lemma type_byte_inject:
  assumes "t \<in> {-128..<128}" and "u \<in> {-128..<128}"
  shows "(of_int t :: byte) = of_int u \<longleftrightarrow> t = u"
proof
  assume "(of_int t :: byte) = of_int u"
  then have "t mod 256 = u mod 256" by (simp add: word_of_int_eq_iff take_bit_eq_mod)
  moreover have "t mod 256 = (if t < 0 then t + 256 else t)" if "t \<in> {-128..<128}" for t :: int
  proof (cases "t < 0")
    case True
    have "t mod 256 = (t + 256) mod 256" by simp
    also have "\<dots> = t + 256" using True that by (intro mod_pos_pos_trivial) auto
    finally show ?thesis using True by simp
  qed (use that in \<open>simp add: mod_pos_pos_trivial\<close>)
  ultimately show "t = u" using assms by (simp split: if_splits)
qed simp

lemma encodable_fields:
  assumes "txEncodable tx"
  shows "length (orNil bigBytes (txValue tx)) < 2 ^ 32" "length (orNil bigBytes (txGasLimit tx)) < 2 ^ 32"
    "length (orNil bigBytes (txGasPrice tx)) < 2 ^ 32" "length (txData tx) < 2 ^ 32" "length (txExtraData tx) < 2 ^ 32"
    "pred_option fixed32 (txSource tx)" "pred_option fixed32 (txTarget tx)" "txType tx \<in> {-128..<128}"
  using assms by (auto simp: txEncodable_def txFields_def)



end
