(* ===== verification/Block_Weight.thy ===== *)
theory Block_Weight
  imports Transaction "HOL-Library.Product_Lexorder" Complex_Main
begin

text \<open>
  The comparison of block weights that decides between forks (\<^verbatim>\<open>BlockWeight\<close> in
  \<^verbatim>\<open>src/middleware/types/core.go\<close>). The stake of a proposer at a height is a parameter, missing when
  no getter has been set. The cache of the normalized value is left out: the getter is a function, so
  the cached value is the computed one.
\<close>

section \<open>The comparison\<close>

record BlockWeight =
  bwProposer :: address
  bwHeight :: u64
  bwHash :: hash
  bwTotalQN :: u64
  bwPV :: bigint

text \<open>\<^verbatim>\<open>Cmp\<close> of the numbers of \<^verbatim>\<open>math/big\<close>.\<close>

definition goCmp :: "'a::linorder \<Rightarrow> 'a \<Rightarrow> int" where
  "goCmp x y = (if x < y then - 1 else if x = y then 0 else 1)"

text \<open>
  \<^verbatim>\<open>float64(stake)\<close>: exact up to 53 bits, otherwise rounded to 53 significant bits, to the nearest and
  to even in the middle.
\<close>

fun bitLen :: "nat \<Rightarrow> nat" where
  "bitLen n = (if n = 0 then 0 else Suc (bitLen (n div 2)))"

declare bitLen.simps [simp del]

definition float64Of :: "u64 \<Rightarrow> nat" where
  "float64Of x =
    (let n = unat x; e = bitLen n - 53; q = n div 2 ^ e; r = n mod 2 ^ e
     in if e = 0 then n
        else (if 2 * r > 2 ^ e \<or> (2 * r = 2 ^ e \<and> odd q) then q + 1 else q) * 2 ^ e)"

definition normalizePV :: "(address \<Rightarrow> u64 \<Rightarrow> u64) \<Rightarrow> BlockWeight \<Rightarrow> rat" where
  "normalizePV getStake bw =
    (let stake = getStake (bwProposer bw) (bwHeight bw - 1)
     in if stake = 0 then 0 else of_int (bwPV bw) / of_nat (float64Of stake))"

definition Cmp :: "(address \<Rightarrow> u64 \<Rightarrow> u64) option \<Rightarrow> BlockWeight \<Rightarrow> BlockWeight \<Rightarrow> int" where
  "Cmp getter bw bw2 =
    (if bwTotalQN bw > bwTotalQN bw2 then 1
     else if bwTotalQN bw < bwTotalQN bw2 then - 1
     else let cmp = (case getter of
                       None \<Rightarrow> 0
                     | Some g \<Rightarrow> if IsZIP001 config (bwHeight bw) \<and> IsZIP001 config (bwHeight bw2)
                                then goCmp (normalizePV g bw) (normalizePV g bw2) else 0);
              pvCmp = goCmp (bwPV bw) (bwPV bw2)
          in if cmp \<noteq> 0 then cmp
             else if pvCmp = 0 \<and> IsZIP003 config (bwHeight bw) \<and> IsZIP003 config (bwHeight bw2)
             then goCmp (bytesNat (bwHash bw)) (bytesNat (bwHash bw2))
             else pvCmp)"

definition MoreWeight :: "(address \<Rightarrow> u64 \<Rightarrow> u64) option \<Rightarrow> BlockWeight \<Rightarrow> BlockWeight \<Rightarrow> bool" where
  "MoreWeight getter bw bw2 \<longleftrightarrow> Cmp getter bw bw2 > 0"

section \<open>The order behind it\<close>

lemma goCmp_simps [simp]:
  "goCmp x x = 0" "goCmp x y = 0 \<longleftrightarrow> x = y" "0 < goCmp x y \<longleftrightarrow> y < x" "goCmp x y < 0 \<longleftrightarrow> x < y"
  by (auto simp: goCmp_def)

lemma goCmp_swap: "goCmp y x = - goCmp x y"
  by (auto simp: goCmp_def)

text \<open>Two blocks are in the same epoch when the same comparison rules are in force at both.\<close>

definition sameEpoch :: "BlockWeight \<Rightarrow> BlockWeight \<Rightarrow> bool" where
  "sameEpoch a b \<longleftrightarrow> IsZIP001 config (bwHeight a) = IsZIP001 config (bwHeight b) \<and>
    IsZIP003 config (bwHeight a) = IsZIP003 config (bwHeight b)"

definition weightKey :: "(address \<Rightarrow> u64 \<Rightarrow> u64) option \<Rightarrow> BlockWeight \<Rightarrow> u64 \<times> rat \<times> int \<times> nat" where
  "weightKey getter a =
    (bwTotalQN a,
     (case getter of None \<Rightarrow> 0 | Some g \<Rightarrow> if IsZIP001 config (bwHeight a) then normalizePV g a else 0),
     bwPV a,
     if IsZIP003 config (bwHeight a) then bytesNat (bwHash a) else 0)"

lemma Cmp_key: "sameEpoch a b \<Longrightarrow> Cmp getter a b = goCmp (weightKey getter a) (weightKey getter b)"
  unfolding sameEpoch_def Cmp_def weightKey_def goCmp_def
  by (cases getter) (auto simp: Let_def less_prod_def' split: if_splits)

lemma sameEpoch_trans: "sameEpoch a b \<Longrightarrow> sameEpoch b c \<Longrightarrow> sameEpoch a c"
  by (simp add: sameEpoch_def)

lemma Cmp_swap: "Cmp getter b a = - Cmp getter a b"
proof (cases "bwTotalQN a = bwTotalQN b")
  case True
  then show ?thesis
    using goCmp_swap [of "bwPV b" "bwPV a"] goCmp_swap [of "bytesNat (bwHash b)" "bytesNat (bwHash a)"]
      goCmp_swap [of "normalizePV (the getter) b" "normalizePV (the getter) a"]
    by (cases getter) (auto simp: Cmp_def Let_def)
qed (auto simp: Cmp_def)

lemma bytesNat_inject:
  "length a = length b \<Longrightarrow> bytesNat a = bytesNat b \<Longrightarrow> a = b"
proof (induction a arbitrary: b rule: rev_induct)
  case (snoc x a)
  from snoc.prems(1) obtain y c where b: "b = c @ [y]" by (metis length_append_singleton length_Suc_conv_rev)
  have digits: "m = n \<and> u = v" if "m * 256 + u = n * 256 + v" "u < 256" "v < 256" for m n u v :: nat
  proof -
    have "m = n" using that(2,3) arg_cong [OF that(1), of "\<lambda>x. x div 256"] by simp
    then show ?thesis using that(1) by simp
  qed
  have "bytesNat a = bytesNat c \<and> unat x = unat y"
    by (rule digits) (use snoc.prems(2) b in simp_all)
  with snoc.IH [of c] snoc.prems(1) b show ?case by simp
qed simp

section \<open>Properties\<close>


definition exBlock :: "byte \<Rightarrow> u64 \<Rightarrow> int \<Rightarrow> BlockWeight" where
  "exBlock p h pv = \<lparr>bwProposer = numAddress p, bwHeight = h, bwHash = numAddress p, bwTotalQN = 5, bwPV = pv\<rparr>"

definition exStakes :: "address \<Rightarrow> u64 \<Rightarrow> u64" where
  "exStakes a h = (if a = numAddress 1 then 10 else 1000)"

lemma float64_small: "bitLen (unat x) \<le> 53 \<Longrightarrow> float64Of x = unat x"
  by (simp add: float64Of_def Let_def)

lemma exStakes_float: "float64Of 10 = 10" "float64Of 1000 = 1000"
  by (simp_all add: float64_small bitLen.simps)

lemmas ex_cmp_defs = Cmp_def exBlock_def exStakes_def normalizePV_def goCmp_def IsZIP001_def IsZIP003_def isFork_def config_def
  exStakes_float numAddress_def BytesToAddress_def AddressLength_def Let_def


text \<open>
  Across an upgrade it is not: three blocks with the same total, two after the first upgrade and
  one before it, each of which weighs more than the next, in a circle.
\<close>

theorem block_weight_cycle:
  "\<exists>getter a b c. MoreWeight getter a b \<and> MoreWeight getter b c \<and> MoreWeight getter c a \<and>
     IsZIP001 config (bwHeight a) \<and> IsZIP001 config (bwHeight b) \<and> \<not> IsZIP001 config (bwHeight c)"
proof -
  have "MoreWeight (Some exStakes) (exBlock 1 931589 400) (exBlock 2 931588 700)"
    "MoreWeight (Some exStakes) (exBlock 2 931588 700) (exBlock 3 931587 600)"
    "MoreWeight (Some exStakes) (exBlock 3 931587 600) (exBlock 1 931589 400)"
    by (simp_all add: MoreWeight_def ex_cmp_defs)
  moreover have "IsZIP001 config (bwHeight (exBlock 1 931589 400))" "IsZIP001 config (bwHeight (exBlock 2 931588 700))"
    "\<not> IsZIP001 config (bwHeight (exBlock 3 931587 600))"
    by (simp_all add: ex_cmp_defs)
  ultimately show ?thesis by blast
qed

end
