(* ===== verification/Govern.thy ===== *)
theory Govern
  imports Transaction
begin

text \<open>
  The blacklist (\<^verbatim>\<open>src/core/govern.go\<close>): updates signed by a majority of the guard nodes, and the cache
  of the list that is keyed by the storage root of its account. Signature recovery, the msgpack
  decoding and SHA-256 are parameters.
\<close>

section \<open>Signed updates\<close>

record BlackOperator =
  boAddrs :: "address list"
  boOpType :: byte
  boSigns :: "bytes list"

record govEnv =
  decodeBlackOperator :: "bytes \<Rightarrow> error + BlackOperator"
  recoverAddr :: "bytes \<Rightarrow> bytes \<Rightarrow> error + address"
  govSha256 :: "bytes \<Rightarrow> bytes"

definition GenBlackOperateSignData :: "(bytes \<Rightarrow> bytes) \<Rightarrow> address \<Rightarrow> u64 \<Rightarrow> byte \<Rightarrow> address list \<Rightarrow> bytes" where
  "GenBlackOperateSignData sha256 operator nonce opType addrs =
    sha256 (operator @ Uint64ToByte nonce @ [opType] @ concat addrs)"

text \<open>The loop that refuses a repeated signature, over the ones seen so far.\<close>

fun dupSign :: "bytes list \<Rightarrow> bytes list \<Rightarrow> bool" where
  "dupSign seen [] = False"
| "dupSign seen (s # ss) = (if s \<in> set seen then True else dupSign (s # seen) ss)"

text \<open>The loop that checks that every signature is one of a guard node.\<close>

fun checkSigns :: "(bytes \<Rightarrow> bytes \<Rightarrow> error + address) \<Rightarrow> bytes \<Rightarrow> address list \<Rightarrow> bytes list \<Rightarrow> error option" where
  "checkSigns recover signBytes guardNodes [] = None"
| "checkSigns recover signBytes guardNodes (sig # sigs) =
    (case recover sig signBytes of
       Inl e \<Rightarrow> Some e
     | Inr src \<Rightarrow> if src \<notin> set guardNodes then Some ''sign is not from a guard node''
                 else checkSigns recover signBytes guardNodes sigs)"

text \<open>A message without an operator makes the code panic.\<close>

definition decodeAndVerifyBlackUpdateTx ::
  "govEnv \<Rightarrow> Transaction \<Rightarrow> error option \<times> address list \<Rightarrow> (error + BlackOperator) option" where
  "decodeAndVerifyBlackUpdateTx G msg guards =
    (case decodeBlackOperator G (txData msg) of
       Inl e \<Rightarrow> Some (Inl e)
     | Inr b \<Rightarrow>
         if length (boAddrs b) = 0 then Some (Inl ''address list is empty'')
         else (case txSource msg of
                 None \<Rightarrow> None
               | Some operator \<Rightarrow>
                   (let signBytes = GenBlackOperateSignData (govSha256 G) operator (txNonce msg) (boOpType b) (boAddrs b)
                    in case guards of
                         (Some e, _) \<Rightarrow> Some (Inl e)
                       | (None, guardNodes) \<Rightarrow>
                           (let threshold = length guardNodes div 2 + 1
                            in if dupSign [] (boSigns b) then Some (Inl ''duplate sign found'')
                               else if length (boSigns b) < threshold then Some (Inl ''not enough guard node signs'')
                               else (case checkSigns (recoverAddr G) signBytes guardNodes (boSigns b) of
                                       Some e \<Rightarrow> Some (Inl e)
                                     | None \<Rightarrow> Some (Inr b))))))"

section \<open>The list\<close>

definition blackStoreAddr :: address where "blackStoreAddr = BytesToAddress (ascii ''black-store'')"
definition blackPrefix :: bytes where "blackPrefix = ascii ''list-''"

definition genKey :: "address \<Rightarrow> bytes" where
  "genKey a = blackPrefix @ a"

definition addBlacks :: "world \<Rightarrow> address list \<Rightarrow> world" where
  "addBlacks w addrs = fold (\<lambda>a v. w_SetData v blackStoreAddr (genKey a) (Some [1])) addrs w"

definition removeBlacks :: "world \<Rightarrow> address list \<Rightarrow> world" where
  "removeBlacks w addrs = fold (\<lambda>a v. w_RemoveData v blackStoreAddr (genKey a)) addrs w"

definition blackUpdate_Transition :: "BlackOperator \<Rightarrow> world \<Rightarrow> outcome option" where
  "blackUpdate_Transition b w =
    succeeds (if boOpType b = 1 then removeBlacks w (boAddrs b) else addBlacks w (boAddrs b))"

text \<open>The cache: the list last loaded and the storage root it was loaded at.\<close>

record governManager =
  gmBlacks :: "address list"
  gmRoot :: hash

definition newGovernManager :: governManager where
  "newGovernManager = \<lparr>gmBlacks = [], gmRoot = replicate 32 0\<rparr>"

definition loadBlacks :: "entries \<Rightarrow> address list" where
  "loadBlacks iter =
    map (\<lambda>(k, _). BytesToAddress (drop (length blackPrefix) k)) (takeWhile (\<lambda>(k, _). hasPrefix k blackPrefix) iter)"

text \<open>
  The account of the list, when it exists, is given by its storage root and the entries the iterator
  yields from the prefix on.
\<close>

definition isBlack :: "governManager \<Rightarrow> (hash \<times> entries) option \<Rightarrow> address \<Rightarrow> bool \<times> governManager" where
  "isBlack gm obj addr =
    (case obj of
       None \<Rightarrow> (False, gm)
     | Some (root, iter) \<Rightarrow>
         (let gm1 = (if gmRoot gm = replicate 32 0 \<or> root \<noteq> gmRoot gm
                     then gm\<lparr>gmRoot := root, gmBlacks := loadBlacks iter\<rparr> else gm)
          in (addr \<in> set (gmBlacks gm1), gm1)))"

text \<open>A sequence of queries through one cache.\<close>

fun queries :: "governManager \<Rightarrow> ((hash \<times> entries) option \<times> address) list \<Rightarrow> bool list" where
  "queries gm [] = []"
| "queries gm ((obj, addr) # qs) = (let (r, gm1) = isBlack gm obj addr in r # queries gm1 qs)"

section \<open>Signatures\<close>

lemma dupSign_distinct: "dupSign seen ss \<longleftrightarrow> \<not> (distinct ss \<and> set ss \<inter> set seen = {})"
  by (induction ss arbitrary: seen) auto

lemma checkSigns_None:
  "checkSigns recover m guards ss = None \<longleftrightarrow> (\<forall>s\<in>set ss. \<exists>a. recover s m = Inr a \<and> a \<in> set guards)"
  by (induction ss) (auto split: sum.splits)

lemma checkSigns_Some:
  "checkSigns recover m guards ss = Some e \<Longrightarrow> \<exists>s\<in>set ss. \<forall>a. recover s m = Inr a \<longrightarrow> a \<notin> set guards"
  using checkSigns_None [of recover m guards ss] by auto


text \<open>An environment whose payload is a list of signatures, and whose signatures name their signer in the first byte.\<close>

definition exGov :: govEnv where
  "exGov = \<lparr>decodeBlackOperator = (\<lambda>bs. Inr \<lparr>boAddrs = [numAddress 99], boOpType = 0, boSigns = map (\<lambda>b. [b mod 16, b]) bs\<rparr>),
     recoverAddr = (\<lambda>sig m. case sig of [] \<Rightarrow> Inl ''sign'' | g # _ \<Rightarrow> Inr (numAddress g)), govSha256 = (\<lambda>b. b)\<rparr>"

definition exBlackTx :: "bytes \<Rightarrow> Transaction" where
  "exBlackTx signs = \<lparr>txData = signs, txValue = None, txNonce = 1, txTarget = None, txType = TransactionTypeBlacklistUpdate,
     txGasLimit = None, txGasPrice = None, txExtraData = [], txSign = None, txSource = Some (numAddress 50), txHash = []\<rparr>"

definition exGuards :: "address list" where
  "exGuards = [numAddress 1, numAddress 2, numAddress 3]"


text \<open>
  One signer can be a majority: repeated signatures are recognised by their bytes, not by their
  signer, so an update all of whose signatures recover to one of three guard nodes is accepted.
\<close>

theorem one_guard_majority:
  "\<exists>G msg guards b. distinct guards \<and> length guards = 3 \<and>
     decodeAndVerifyBlackUpdateTx G msg (None, guards) = Some (Inr b) \<and>
     (\<exists>g. \<forall>m. map (\<lambda>s. recoverAddr G s m) (boSigns b) = [Inr g, Inr g])"
proof -
  let ?b = "\<lparr>boAddrs = [numAddress 99], boOpType = 0, boSigns = [[1, 1], [1, 17]]\<rparr>"
  have g: "distinct exGuards" "length exGuards = 3"
    by (simp_all add: exGuards_def numAddress_def BytesToAddress_def AddressLength_def Let_def)
  have run: "decodeAndVerifyBlackUpdateTx exGov (exBlackTx [1, 17]) (None, exGuards) = Some (Inr ?b)"
    by (simp add: decodeAndVerifyBlackUpdateTx_def exGov_def exBlackTx_def exGuards_def Let_def)
  have "\<forall>m. map (\<lambda>s. recoverAddr exGov s m) (boSigns ?b) = [Inr (numAddress 1), Inr (numAddress 1)]"
    by (simp add: exGov_def)
  with g run show ?thesis by blast
qed

section \<open>The cache\<close>

text \<open>What a query answers without a cache.\<close>

definition freshBlack :: "(hash \<times> entries) option \<Rightarrow> address \<Rightarrow> bool" where
  "freshBlack obj addr = (case obj of None \<Rightarrow> False | Some (root, iter) \<Rightarrow> addr \<in> set (loadBlacks iter))"

definition cacheOk :: "(hash \<Rightarrow> entries) \<Rightarrow> governManager \<Rightarrow> bool" where
  "cacheOk contents gm \<longleftrightarrow> gmRoot gm = replicate 32 0 \<or> gmBlacks gm = loadBlacks (contents (gmRoot gm))"

lemma isBlack_cacheOk:
  assumes "cacheOk contents gm" and "\<And>root iter. obj = Some (root, iter) \<Longrightarrow> iter = contents root"
  shows "fst (isBlack gm obj addr) = freshBlack obj addr" and "cacheOk contents (snd (isBlack gm obj addr))"
  using assms by (auto simp: isBlack_def freshBlack_def cacheOk_def Let_def split: option.splits)

text \<open>
  The blacklist cache (C35): when the storage root determines the entries of the list, every sequence of
  queries at changing states through one manager answers as if the list were read anew each time.
\<close>

theorem blacklist_cache_coherent:
  assumes "list_all (\<lambda>(obj, addr). \<forall>root iter. obj = Some (root, iter) \<longrightarrow> iter = contents root) qs"
  shows "queries newGovernManager qs = map (\<lambda>(obj, addr). freshBlack obj addr) qs"
proof -
  have "queries gm qs = map (\<lambda>(obj, addr). freshBlack obj addr) qs" if "cacheOk contents gm" for gm
    using assms that
  proof (induction qs arbitrary: gm)
    case (Cons q qs)
    obtain obj addr where q: "q = (obj, addr)" by (cases q)
    have o: "\<And>root iter. obj = Some (root, iter) \<Longrightarrow> iter = contents root" using Cons.prems(1) q by simp
    obtain r gm1 where r: "isBlack gm obj addr = (r, gm1)" by (cases "isBlack gm obj addr")
    then have "r = freshBlack obj addr" "cacheOk contents gm1" using isBlack_cacheOk [OF Cons.prems(2) o, of obj addr] by auto
    with Cons.IH [of gm1] Cons.prems(1) q r show ?case by simp
  qed simp
  then show ?thesis by (simp add: newGovernManager_def cacheOk_def)
qed

theorem blacklist_cache_coherent_witness:
  "queries newGovernManager [(Some (numAddress 1, [(genKey (numAddress 9), [1])]), numAddress 9), (Some (numAddress 2, []), numAddress 9)] =
   [True, False]"
  by (subst blacklist_cache_coherent [of "\<lambda>r. if r = numAddress 1 then [(genKey (numAddress 9), [1])] else []"])
    (simp_all add: freshBlack_def loadBlacks_def hasPrefix_def genKey_def numAddress_def BytesToAddress_def AddressLength_def Let_def)

section \<open>Updates\<close>

lemma genKey_inject [simp]: "genKey a = genKey b \<longleftrightarrow> a = b"
  by (simp add: genKey_def)

lemma addBlacks_data:
  "w_GetData (addBlacks w as) b k = (if b = blackStoreAddr \<and> k \<in> genKey ` set as then Some [1] else w_GetData w b k)"
  by (induction as arbitrary: w) (auto simp: addBlacks_def)

lemma removeBlacks_data:
  "w_GetData (removeBlacks w as) b k = (if b = blackStoreAddr \<and> k \<in> genKey ` set as then None else w_GetData w b k)"
  by (induction as arbitrary: w) (auto simp: removeBlacks_def)

lemma blacks_frame [simp]: "wBalance (addBlacks w as) = wBalance w" "wBalance (removeBlacks w as) = wBalance w"
  "wNonce (addBlacks w as) = wNonce w" "wNonce (removeBlacks w as) = wNonce w"
  by (induction as arbitrary: w) (auto simp: addBlacks_def removeBlacks_def)

end
