(* ===== verification/Tx_Validate.thy ===== *)
theory Tx_Validate
  imports Govern Miner_Status
begin

text \<open>
  Validation of transactions (\<^verbatim>\<open>src/core/tx_validate.go\<close>). Signature recovery, the consensus check of
  reward transactions, the chain height, the latest state, the blacklist and the list of guard nodes are
  parameters. A validator returns no error, an error, or panics.
\<close>

section \<open>Parameters and constants\<close>

record venv =
  vGov :: govEnv
  vIsBlack :: "world \<Rightarrow> address \<Rightarrow> bool"
  vVerifyReward :: "Transaction \<Rightarrow> bool \<times> error option"
  vHeight :: u64
  vLatest :: "error + world"
  vGuards :: "world \<Rightarrow> error option \<times> address list"
  vAdmin :: address
  vGuardAddress :: "address list"

definition txMaxSize :: nat where "txMaxSize = 64000"
definition gasLimitPerTransaction :: u64 where "gasLimitPerTransaction = 500000"
definition TransactionGasCost :: u64 where "TransactionGasCost = 400"
definition CodeBytePrice :: nat where "CodeBytePrice = 19073"
definition CodeBytePricePrecision :: nat where "CodeBytePricePrecision = 10000"
definition adjustGasPricePeriod :: u64 where "adjustGasPricePeriod = 30000000"
definition adjustGasPriceTimes :: u64 where "adjustGasPriceTimes = 3"
definition initialMinGasPrice :: u64 where "initialMinGasPrice = 500"

lemmas gas_consts = txMaxSize_def gasLimitPerTransaction_def TransactionGasCost_def CodeBytePrice_def CodeBytePricePrecision_def
  adjustGasPricePeriod_def adjustGasPriceTimes_def initialMinGasPrice_def

definition isUint64 :: "bigint \<Rightarrow> bool" where
  "isUint64 z \<longleftrightarrow> 0 \<le> z \<and> z < 2 ^ 64"

type_synonym verdict = "error option option"

definition pass :: verdict where "pass = Some None"
definition deny :: "error \<Rightarrow> verdict" where "deny e = Some (Some e)"

lemma verdict_simps [simp]: "pass \<noteq> None" "deny e \<noteq> None" "deny e \<noteq> Some None" "deny e \<noteq> pass" "pass = Some None"
  by (simp_all add: pass_def deny_def)

section \<open>Checks\<close>

definition intrinsicGas :: "Transaction \<Rightarrow> bigint" where
  "intrinsicGas tx =
    uint (TransactionGasCost + of_nat ((length (txData tx) + length (txExtraData tx)) * CodeBytePrice div CodeBytePricePrecision))"

definition commonValidate :: "Transaction \<Rightarrow> error option" where
  "commonValidate tx =
    (if length (txData tx) + length (txExtraData tx) > txMaxSize then Some ''tx size''
     else if txSign tx = None then Some ''tx sign nil''
     else None)"

definition gasValidate :: "Transaction \<Rightarrow> error option" where
  "gasValidate tx =
    (case txGasLimit tx of
       None \<Rightarrow> Some ''gas limit is nil''
     | Some gasLimit \<Rightarrow>
         if \<not> isUint64 gasLimit then Some ''gas limit is not uint64''
         else (case txGasPrice tx of
                 None \<Rightarrow> Some ''gas price is nil''
               | Some gasPrice \<Rightarrow>
                   if \<not> isUint64 gasPrice then Some ''gas price is not uint64''
                   else if bigUint64 gasLimit > gasLimitPerTransaction then Some ''gas limit too high''
                   else if gasLimit < intrinsicGas tx then Some ''gas limit too low''
                   else None))"

definition valueValidate :: "Transaction \<Rightarrow> error option" where
  "valueValidate tx =
    (case txValue tx of
       None \<Rightarrow> Some ''value is nil''
     | Some v \<Rightarrow> if \<not> isUint64 v then Some ''value is not uint64'' else None)"

definition sourceRecover :: "govEnv \<Rightarrow> Transaction \<Rightarrow> verdict" where
  "sourceRecover G tx =
    (case recoverAddr G (case txSign tx of None \<Rightarrow> [] | Some s \<Rightarrow> s) (txHash tx) of
       Inl e \<Rightarrow> deny e
     | Inr src \<Rightarrow> (case txSource tx of
                     None \<Rightarrow> None
                   | Some a \<Rightarrow> if src \<noteq> a then deny ''recovered source not equal to the given one'' else pass))"

definition senderValidate :: "(world \<Rightarrow> address \<Rightarrow> bool) \<Rightarrow> address \<Rightarrow> world \<Rightarrow> u64 \<Rightarrow> error option" where
  "senderValidate black sender w height =
    (if IsZIP003 config height \<and> black w sender then Some ''sender cannot launch the transaction'' else None)"

definition validGasPrice :: "bigint \<Rightarrow> u64 \<Rightarrow> bool" where
  "validGasPrice gasPrice height \<longleftrightarrow>
    (let times = height div adjustGasPricePeriod; times1 = (if times > adjustGasPriceTimes then adjustGasPriceTimes else times)
     in \<not> gasPrice < uint (push_bit (unat times1) initialMinGasPrice))"

definition paysValue :: "int \<Rightarrow> bool" where
  "paysValue t \<longleftrightarrow> t = TransactionTypeTransfer \<or> t = TransactionTypeContractCreate \<or> t = TransactionTypeContractCall \<or>
    t = TransactionTypeStakeAdd"

definition stateValidate :: "(world \<Rightarrow> address \<Rightarrow> bool) \<Rightarrow> world \<Rightarrow> Transaction \<Rightarrow> u64 \<Rightarrow> verdict" where
  "stateValidate black w tx height =
    (case (txGasPrice tx, txGasLimit tx, txSource tx) of
       (Some gasPrice, Some gasLimit, Some source) \<Rightarrow>
         (let gasLimitFee = gasPrice * gasLimit; balance = w_GetBalance w source;
              rest = (if \<not> validGasPrice gasPrice height then deny ''gas price below the lower bound''
                      else if txType tx \<noteq> TransactionTypeMinerAbort then Some (senderValidate black source w height)
                      else pass)
          in if gasLimitFee > balance then deny ''balance not enough for paying gas''
             else if paysValue (txType tx) then
               (case txValue tx of
                  None \<Rightarrow> None
                | Some v \<Rightarrow> if gasLimitFee + v > balance then deny ''balance not enough for paying gas and value'' else rest)
             else rest)
     | _ \<Rightarrow> None)"

section \<open>Validators by type\<close>

definition orElse :: "error option \<Rightarrow> error option \<Rightarrow> error option" where
  "orElse a b = (case a of Some e \<Rightarrow> Some e | None \<Rightarrow> b)"

lemma orElse_None [simp]: "orElse a b = None \<longleftrightarrow> a = None \<and> b = None"
  by (auto simp: orElse_def split: option.splits)

definition check :: "bool \<Rightarrow> error \<Rightarrow> error option" where
  "check bad e = (if bad then Some e else None)"

lemma check_None [simp]: "check b e = None \<longleftrightarrow> \<not> b"
  by (simp add: check_def)

definition transferValidator :: "Transaction \<Rightarrow> error option" where
  "transferValidator tx = orElse (check (txTarget tx = None) ''target is nil'') (valueValidate tx)"

definition minerTypeCheck :: "MinerType \<Rightarrow> error option" where
  "minerTypeCheck mt = check (\<not> IsProposalRole mt \<and> \<not> IsVerifyRole mt) ''unknown miner type''"

definition stakeAddValidator :: "Transaction \<Rightarrow> error option" where
  "stakeAddValidator tx =
    orElse (check (length (txData tx) = 0) ''data is empty'') (orElse (check (txTarget tx = None) ''target is nil'')
      (case DecodePayload (txData tx) of
         Inl e \<Rightarrow> Some e
       | Inr pks \<Rightarrow> orElse (minerTypeCheck (pksMType pks)) (valueValidate tx)))"

definition minerAbortValidator :: "Transaction \<Rightarrow> error option" where
  "minerAbortValidator tx =
    (if length (txData tx) \<noteq> 1 then Some ''data length should be 1'' else minerTypeCheck (txData tx ! 0))"

definition stakeReduceValidator :: "Transaction \<Rightarrow> error option" where
  "stakeReduceValidator tx =
    (if length (txData tx) \<noteq> 1 then Some ''data length should be 1''
     else orElse (check (txTarget tx = None) ''target is nil'') (orElse (minerTypeCheck (txData tx ! 0))
       (case txValue tx of
          None \<Rightarrow> Some ''value is nil''
        | Some v \<Rightarrow> if \<not> isUint64 v then Some ''value is not uint64'' else if bigUint64 v = 0 then Some ''value is 0'' else None)))"

definition stakeRefundValidator :: "Transaction \<Rightarrow> error option" where
  "stakeRefundValidator tx =
    (if length (txData tx) \<noteq> 1 then Some ''data length should be 1''
     else orElse (check (txTarget tx = None) ''target is nil'') (minerTypeCheck (txData tx ! 0)))"

definition applyGuardValidator :: "Transaction \<Rightarrow> error option" where
  "applyGuardValidator tx = None"

definition voteMinerPoolValidator :: "Transaction \<Rightarrow> error option" where
  "voteMinerPoolValidator tx = check (txTarget tx = None) ''target is nil''"

text \<open>Reads the first byte before it looks at the length.\<close>

definition changeFundGuardModeValidator :: "address list \<Rightarrow> Transaction \<Rightarrow> verdict" where
  "changeFundGuardModeValidator guards tx =
    (case txData tx of
       [] \<Rightarrow> None
     | md # _ \<Rightarrow>
         (case fundGuardModeCheck md of
            Some e \<Rightarrow> deny e
          | None \<Rightarrow> (case txSource tx of
                       None \<Rightarrow> None
                     | Some a \<Rightarrow> if a \<notin> set guards then deny ''operator addr is not in extract guard nodes''
                                else if length (txData tx) \<noteq> 1 then deny ''data length should be 1'' else pass)))"

definition groupValidator :: "Transaction \<Rightarrow> error option" where
  "groupValidator tx = orElse (check (length (txData tx) = 0) ''data is empty'') (check (txTarget tx \<noteq> None) ''target should be nil'')"

definition contractCreateValidator :: "Transaction \<Rightarrow> error option" where
  "contractCreateValidator tx =
    orElse (check (length (txData tx) = 0) ''data is empty'') (orElse (check (txTarget tx \<noteq> None) ''target should be nil'') (valueValidate tx))"

definition contractCallValidator :: "Transaction \<Rightarrow> error option" where
  "contractCallValidator tx =
    orElse (check (length (txData tx) = 0) ''data is empty'') (orElse (check (txTarget tx = None) ''target is nil'') (valueValidate tx))"

definition rewardValidate :: "venv \<Rightarrow> Transaction \<Rightarrow> error option" where
  "rewardValidate V tx =
    (if length (txData tx) \<noteq> HashLength then Some ''data length should be 32bit''
     else if length (txExtraData tx) = 0 then Some ''extra data empty''
     else orElse (valueValidate tx) (case vVerifyReward V tx of (ok, err) \<Rightarrow> if \<not> ok then err else None))"

definition blackUpdateValidate :: "venv \<Rightarrow> Transaction \<Rightarrow> bool \<Rightarrow> verdict" where
  "blackUpdateValidate V tx validateState =
    (if \<not> IsZIP003 config (vHeight V) then deny ''unknown transaction type''
     else if length (txData tx) = 0 then deny ''data is empty''
     else case txSource tx of
            None \<Rightarrow> None
          | Some a \<Rightarrow>
              if a \<noteq> vAdmin V then deny ''cannot launch the kind of transaction''
              else if validateState then
                (case vLatest V of
                   Inl e \<Rightarrow> deny e
                 | Inr db \<Rightarrow> (case decodeAndVerifyBlackUpdateTx (vGov V) tx (vGuards V db) of
                                None \<Rightarrow> None
                              | Some (Inl e) \<Rightarrow> deny e
                              | Some (Inr _) \<Rightarrow> pass))
              else pass)"

definition typeValidate :: "venv \<Rightarrow> bool \<Rightarrow> Transaction \<Rightarrow> verdict" where
  "typeValidate V validateState tx =
    (let t = txType tx
     in if t = TransactionTypeTransfer then Some (transferValidator tx)
        else if t = TransactionTypeContractCreate then Some (contractCreateValidator tx)
        else if t = TransactionTypeContractCall then Some (contractCallValidator tx)
        else if t = TransactionTypeStakeAdd then Some (stakeAddValidator tx)
        else if t = TransactionTypeMinerAbort then Some (minerAbortValidator tx)
        else if t = TransactionTypeStakeReduce then Some (stakeReduceValidator tx)
        else if t = TransactionTypeStakeRefund then Some (stakeRefundValidator tx)
        else if t = TransactionTypeApplyGuardMiner then Some (applyGuardValidator tx)
        else if t = TransactionTypeVoteMinerPool then Some (voteMinerPoolValidator tx)
        else if t = TransactionTypeChangeFundGuardMode then changeFundGuardModeValidator (vGuardAddress V) tx
        else if t = TransactionTypeGroupPiece \<or> t = TransactionTypeGroupMpk \<or> t = TransactionTypeGroupOriginPiece
        then Some (groupValidator tx)
        else if t = TransactionTypeBlacklistUpdate then blackUpdateValidate V tx validateState
        else deny ''no such kind of tx'')"

text \<open>The early returns of the validator: go on only after a check that passed.\<close>

definition thenV :: "verdict \<Rightarrow> verdict \<Rightarrow> verdict" where
  "thenV a b = (case a of None \<Rightarrow> None | Some (Some e) \<Rightarrow> Some (Some e) | Some None \<Rightarrow> b)"

lemma thenV_pass [simp]: "thenV a b = Some None \<longleftrightarrow> a = Some None \<and> b = Some None"
  by (auto simp: thenV_def split: option.splits)

definition getValidator :: "venv \<Rightarrow> Transaction \<Rightarrow> bool \<Rightarrow> verdict" where
  "getValidator V tx validateState =
    thenV (Some (commonValidate tx))
      (if IsReward tx then Some (rewardValidate V tx)
       else thenV (Some (gasValidate tx))
         (if txSource tx = None then deny ''source is nil''
          else thenV (if validateState
                      then (case vLatest V of
                              Inl e \<Rightarrow> deny e
                            | Inr db \<Rightarrow> stateValidate (vIsBlack V) db tx (vHeight V))
                      else pass)
                 (thenV (typeValidate V validateState tx) (sourceRecover (vGov V) tx))))"

end
