(* ===== verification/Rewards.thy ===== *)
theory Rewards
  imports Transaction
begin

text \<open>
  The reward manager (\<^verbatim>\<open>src/core/rewards_manager.go\<close>): how much a block mints, how the amount is
  split, the encoding of reward transactions, and the marks that a block has been rewarded. The
  groups known to the group manager are a parameter.
\<close>

section \<open>Amounts\<close>

definition initialRewards :: u64 where "initialRewards = 62224000000"
definition halveRewardsPeriod :: u64 where "halveRewardsPeriod = 30000000"
definition tokensOfMiners :: u64 where "tokensOfMiners = 3500000000 * ZVC"
definition noRewardsHeight :: u64 where "noRewardsHeight = 120000000"

definition initialDaemonNodeWeight :: u64 where "initialDaemonNodeWeight = 440"
definition initialMinerNodeWeight :: u64 where "initialMinerNodeWeight = 6460"
definition userNodeWeight :: u64 where "userNodeWeight = 100"
definition totalNodeWeight :: u64 where "totalNodeWeight = 7000"
definition adjustWeight :: u64 where "adjustWeight = 80"

definition castorRewardsWeight :: u64 where "castorRewardsWeight = 8"
definition packedRewardsWeight :: u64 where "packedRewardsWeight = 1"
definition verifyRewardsWeight :: u64 where "verifyRewardsWeight = 1"
definition totalRewardsWeight :: u64 where "totalRewardsWeight = 10"

definition gasFeeCastorRewardsWeight :: u64 where "gasFeeCastorRewardsWeight = 9"
definition gasFeeVerifyRewardsWeight :: u64 where "gasFeeVerifyRewardsWeight = 1"
definition gasFeeTotalRewardsWeight :: u64 where "gasFeeTotalRewardsWeight = 10"

lemmas reward_consts = initialRewards_def halveRewardsPeriod_def noRewardsHeight_def adjustWeightPeriod_def
  initialDaemonNodeWeight_def initialMinerNodeWeight_def userNodeWeight_def totalNodeWeight_def adjustWeight_def
  castorRewardsWeight_def packedRewardsWeight_def verifyRewardsWeight_def totalRewardsWeight_def
  gasFeeCastorRewardsWeight_def gasFeeVerifyRewardsWeight_def gasFeeTotalRewardsWeight_def

definition blockRewards :: "u64 \<Rightarrow> u64" where
  "blockRewards height =
    (if height > noRewardsHeight then 0
     else let period = height div adjustWeightPeriod; speedUp = (if period \<ge> 1 then 2 else 0)
          in drop_bit (unat (height div halveRewardsPeriod + speedUp)) initialRewards)"

definition userNodesRewards :: "u64 \<Rightarrow> u64" where
  "userNodesRewards height =
    (let rewards = blockRewards height in if rewards = 0 then 0 else rewards * userNodeWeight div totalNodeWeight)"

definition daemonNodesRewards :: "u64 \<Rightarrow> u64" where
  "daemonNodesRewards height =
    (let rewards = blockRewards height
     in if rewards = 0 then 0
        else rewards * (initialDaemonNodeWeight + height div adjustWeightPeriod * adjustWeight) div totalNodeWeight)"

definition minerNodesRewards :: "u64 \<Rightarrow> u64" where
  "minerNodesRewards height =
    (let rewards = blockRewards height
     in if rewards = 0 then 0
        else let minerNodesWeight = initialMinerNodeWeight - height div adjustWeightPeriod * adjustWeight
             in if minerNodesWeight > totalNodeWeight then 0 else rewards * minerNodesWeight div totalNodeWeight)"

definition calculateCastorRewards :: "u64 \<Rightarrow> u64" where
  "calculateCastorRewards height = minerNodesRewards height * castorRewardsWeight div totalRewardsWeight"

definition calculatePackedRewards :: "u64 \<Rightarrow> u64" where
  "calculatePackedRewards height = minerNodesRewards height * packedRewardsWeight div totalRewardsWeight"

definition calculateVerifyRewards :: "u64 \<Rightarrow> u64" where
  "calculateVerifyRewards height = minerNodesRewards height * verifyRewardsWeight div totalRewardsWeight"

definition calculateGasFeeVerifyRewards :: "u64 \<Rightarrow> u64" where
  "calculateGasFeeVerifyRewards gasFee = gasFee * gasFeeVerifyRewardsWeight div gasFeeTotalRewardsWeight"

definition calculateGasFeeCastorRewards :: "u64 \<Rightarrow> u64" where
  "calculateGasFeeCastorRewards gasFee = gasFee * gasFeeCastorRewardsWeight div gasFeeTotalRewardsWeight"

record CastRewardShare =
  ForBlockProposal :: u64
  ForBlockVerify :: u64
  ForRewardTxPacking :: u64
  FeeForProposer :: u64
  FeeForVerifier :: u64

definition CalculateCastRewardShare :: "u64 \<Rightarrow> u64 \<Rightarrow> CastRewardShare" where
  "CalculateCastRewardShare height gasFee =
    \<lparr>ForBlockProposal = calculateCastorRewards height, ForBlockVerify = calculateVerifyRewards height,
     ForRewardTxPacking = calculatePackedRewards height, FeeForProposer = calculateGasFeeCastorRewards gasFee,
     FeeForVerifier = calculateGasFeeVerifyRewards gasFee\<rparr>"

section \<open>Marks\<close>

definition getRewardData :: "world \<Rightarrow> bytes \<Rightarrow> bytes option" where
  "getRewardData w key = w_GetData w RewardStoreAddr key"

definition setRewardData :: "world \<Rightarrow> bytes \<Rightarrow> bytes \<Rightarrow> world" where
  "setRewardData w key v = w_SetData w RewardStoreAddr key (Some v)"

definition HasRewardedOfBlock :: "hash \<Rightarrow> world \<Rightarrow> bool" where
  "HasRewardedOfBlock blockHash w \<longleftrightarrow> getRewardData w blockHash \<noteq> None"

definition MarkBlockRewarded :: "hash \<Rightarrow> hash \<Rightarrow> world \<Rightarrow> world" where
  "MarkBlockRewarded blockHash transactionHash w = setRewardData w blockHash transactionHash"

section \<open>Reward transactions\<close>

definition rewardVersion :: byte where "rewardVersion = 1"

record Reward =
  rwTxHash :: hash
  rwTargetIds :: "32 word list"
  rwBlockHash :: hash
  rwGroup :: hash
  rwTotalValue :: u64

definition GenerateReward ::
  "(bytes \<Rightarrow> bytes) \<Rightarrow> 32 word list \<Rightarrow> hash \<Rightarrow> hash \<Rightarrow> u64 \<Rightarrow> u64 \<Rightarrow> error + Reward \<times> Transaction" where
  "GenerateReward sha256 targetIds blockHash gSeed totalValue packFee =
    (if length targetIds = 0 then Inl ''GenerateReward targetIds size 0''
     else let raw = \<lparr>txData = blockHash, txValue = Some (uint (totalValue div of_nat (length targetIds))), txNonce = 0,
                txTarget = None, txType = TransactionTypeReward, txGasLimit = Some 0, txGasPrice = Some 0,
                txExtraData = rewardVersion # gSeed @ Uint64ToByte packFee @ concat (map (\<lambda>i. UInt16ToByte (ucast i)) targetIds),
                txSign = None, txSource = None, txHash = []\<rparr>;
              tx = raw\<lparr>txHash := GenHash sha256 raw\<rparr>
          in Inr (\<lparr>rwTxHash = txHash tx, rwTargetIds = targetIds, rwBlockHash = blockHash, rwGroup = gSeed,
                  rwTotalValue = totalValue\<rparr>, tx))"

text \<open>
  \<^verbatim>\<open>bytes.Reader.Read\<close>: an error at the end of the input, otherwise as many bytes as there are, copied
  over the front of the buffer.
\<close>

definition goRead :: "bytes \<Rightarrow> bytes \<Rightarrow> (bytes \<times> bytes) option" where
  "goRead buf rest =
    (if rest = [] then None else Some (take (length buf) rest @ drop (length rest) buf, drop (length buf) rest))"

text \<open>The loop over the target indexes; the two-byte buffer is reused, so it is an argument.\<close>

function readIdxs :: "bytes \<Rightarrow> bytes \<Rightarrow> u16 list" where
  "readIdxs idx rest =
    (case goRead idx rest of
       None \<Rightarrow> []
     | Some (idx1, rest1) \<Rightarrow> if length idx = 0 then [] else ByteToUInt16 idx1 # readIdxs idx1 rest1)"
  by pat_completeness auto
termination
  by (relation "measure (\<lambda>(idx, rest). length rest)") (auto simp: goRead_def split: if_splits)

declare readIdxs.simps [simp del]

fun pickTargets :: "bytes list \<Rightarrow> u16 list \<Rightarrow> error + bytes list" where
  "pickTargets members [] = Inr []"
| "pickTargets members (idx # idxs) =
    (if idx \<ge> of_nat (length members) then Inl ''target index exceed''
     else case pickTargets members idxs of
            Inl e \<Rightarrow> Inl e
          | Inr ids \<Rightarrow> Inr (members ! unat idx # ids))"

definition parseRewardBlockHash :: "Transaction \<Rightarrow> hash" where
  "parseRewardBlockHash msg = BytesToHash (txData msg)"

definition ParseRewardTransaction ::
  "(hash \<Rightarrow> bytes list option) \<Rightarrow> Transaction \<Rightarrow> error + hash \<times> bytes list \<times> hash \<times> bigint" where
  "ParseRewardTransaction GetGroupBySeed msg =
    (case txExtraData msg of
       [] \<Rightarrow> Inl ''EOF''
     | version # r1 \<Rightarrow>
         if version \<noteq> rewardVersion then Inl ''reward version error''
         else case goRead (replicate HashLength 0) r1 of
           None \<Rightarrow> Inl ''read group seed error''
         | Some (gSeedBytes, r2) \<Rightarrow>
             (case goRead (replicate 8 0) r2 of
                None \<Rightarrow> Inl ''read pack fee error''
              | Some (pf, r3) \<Rightarrow>
                  (let targetIdxs = readIdxs (replicate 2 0) r3; gSeed = BytesToHash gSeedBytes
                   in case GetGroupBySeed gSeed of
                        None \<Rightarrow> Inl ''group is nil''
                      | Some members \<Rightarrow>
                          (case pickTargets members targetIdxs of
                             Inl e \<Rightarrow> Inl e
                           | Inr ids \<Rightarrow> Inr (gSeed, ids, parseRewardBlockHash msg, uint (beUint64 pf))))))"

end
