(* ===== verification/State_Processor.thy ===== *)
theory State_Processor
  imports Tx_Validate Rewards
begin

text \<open>
  Executing transactions and blocks (\<^verbatim>\<open>src/core/state_processor.go\<close>): one transition per kind of
  transaction, gas paid in advance and refunded, reverting on errors, and the loop over the
  transactions of a block with its gas limit, receipts and rewards. The virtual machine, the group
  operations, the chain queries, the clock and the processors registered to run after a block are
  parameters. The state root computed at the end is not part of the model.
\<close>

section \<open>Parameters and data\<close>

record BlockHeader =
  bhHeight :: u64
  bhCastor :: bytes

text \<open>A run of the virtual machine: the error with its code, the gas left, the logs and the state.\<close>

record tvmResult =
  tvmError :: "(int \<times> error) option"
  tvmGasLeft :: u64
  tvmLogs :: "bytes list"
  tvmWorld :: world

record penv =
  pMiner :: menv
  pV :: venv
  pSha256 :: "bytes \<Rightarrow> bytes"
  pCodeHash :: "bytes \<Rightarrow> hash"
  pGroups :: "hash \<Rightarrow> bytes list option"
  pHeaderHeight :: "hash \<Rightarrow> u64 option"
  pHasCode :: "world \<Rightarrow> address \<Rightarrow> bool"
  pDeploy :: "BlockHeader \<Rightarrow> Transaction \<Rightarrow> address \<Rightarrow> u64 \<Rightarrow> world \<Rightarrow> tvmResult"
  pCall :: "BlockHeader \<Rightarrow> Transaction \<Rightarrow> address \<Rightarrow> u64 \<Rightarrow> world \<Rightarrow> tvmResult"
  pGroupParse :: "Transaction \<Rightarrow> u64 \<Rightarrow> world \<Rightarrow> error option"
  pGroupExec :: "Transaction \<Rightarrow> u64 \<Rightarrow> world \<Rightarrow> error option \<times> world"
  pDaemon :: address
  pUser :: address
  pBusiness :: address
  pTeam :: address
  pDeployManager :: "world \<Rightarrow> world option"
  pProcs :: "(BlockHeader \<Rightarrow> world \<Rightarrow> world option) list"
  pElapsed :: "nat \<Rightarrow> nat"
  pGasLimitForPackage :: u64
  pProposerPackageTime :: nat

record result =
  cumulativeGasUsed :: bigint
  transitionStatus :: ReceiptStatus
  rErr :: "error option"
  rLogs :: "bytes list"
  contractAddress :: address

definition newResult :: result where
  "newResult = \<lparr>cumulativeGasUsed = 0, transitionStatus = RSSuccess, rErr = None, rLogs = [], contractAddress = emptyAddress\<rparr>"

definition setError :: "error \<Rightarrow> ReceiptStatus \<Rightarrow> result \<Rightarrow> result" where
  "setError e status r = r\<lparr>rErr := Some e, transitionStatus := status\<rparr>"

definition ofOutcome :: "outcome \<Rightarrow> result \<times> world" where
  "ofOutcome o1 = (case o1 of (None, w) \<Rightarrow> (newResult, w) | (Some (e, rs), w) \<Rightarrow> (setError e rs newResult, w))"

definition TVMGasNotEnoughError :: int where "TVMGasNotEnoughError = 1002"
definition TVMCheckABIError :: int where "TVMCheckABIError = 1003"
definition GasLimitPerBlock :: u64 where "GasLimitPerBlock = 2000000"

section \<open>Nonces and states\<close>

definition validateNonce :: "world \<Rightarrow> Transaction \<Rightarrow> bool option" where
  "validateNonce w tx =
    (if txType tx = TransactionTypeReward then Some True
     else case txSource tx of
            None \<Rightarrow> None
          | Some source \<Rightarrow> Some (txNonce tx = w_GetNonce w source + 1))"

definition checkState :: "penv \<Rightarrow> world \<Rightarrow> Transaction \<Rightarrow> u64 \<Rightarrow> verdict" where
  "checkState P w tx height =
    (case validateNonce w tx of
       None \<Rightarrow> None
     | Some False \<Rightarrow> deny ''nonce error''
     | Some True \<Rightarrow> stateValidate (vIsBlack (pV P)) w tx height)"

section \<open>Transitions\<close>

datatype stateTransition =
    TxTransfer address address "bigint option"
  | ContractCreator address
  | ContractCaller
  | MinerOperator mOperation
  | GroupOperator
  | BlackUpdateTx BlackOperator

text \<open>\<^verbatim>\<open>getOpByType\<close> followed by \<^verbatim>\<open>ParseTransaction\<close> of the chosen kind.\<close>

definition getOpByType :: "penv \<Rightarrow> BlockHeader \<Rightarrow> Transaction \<Rightarrow> world \<Rightarrow> (error + stateTransition) option" where
  "getOpByType P bh tx w =
    (let t = txType tx; msg = messageOf tx
     in if t = TransactionTypeTransfer then
          (case (txTarget tx, txSource tx) of
             (Some target, Some source) \<Rightarrow> Some (Inr (TxTransfer target source (txValue tx)))
           | _ \<Rightarrow> None)
        else if t = TransactionTypeContractCreate then map_option (\<lambda>source. Inr (ContractCreator source)) (txSource tx)
        else if t = TransactionTypeContractCall then Some (Inr ContractCaller)
        else if t \<in> {TransactionTypeStakeAdd, TransactionTypeMinerAbort, TransactionTypeVoteMinerPool, TransactionTypeStakeReduce,
                     TransactionTypeApplyGuardMiner, TransactionTypeStakeRefund, TransactionTypeChangeFundGuardMode}
        then map_option (map_sum id MinerOperator) (parseMinerOp msg (bhHeight bh))
        else if t = TransactionTypeGroupPiece \<or> t = TransactionTypeGroupMpk \<or> t = TransactionTypeGroupOriginPiece
        then (case pGroupParse P tx (bhHeight bh) w of Some e \<Rightarrow> Some (Inl e) | None \<Rightarrow> Some (Inr GroupOperator))
        else if t = TransactionTypeBlacklistUpdate then
          map_option (map_sum id BlackUpdateTx) (decodeAndVerifyBlackUpdateTx (vGov (pV P)) tx (vGuards (pV P) w))
        else Some (Inl ''unSupported tx type''))"

definition supported :: "Transaction \<Rightarrow> bool" where
  "supported tx \<longleftrightarrow> txType tx \<in> {0..10} \<union> {101..103}"

definition transfer_Transition :: "address \<Rightarrow> address \<Rightarrow> bigint option \<Rightarrow> world \<Rightarrow> outcome option" where
  "transfer_Transition target source amount w =
    (case amount of
       None \<Rightarrow> None
     | Some v \<Rightarrow> if needTransfer v then
                   (if w_CanTransfer w source v then succeeds (w_Transfer w source target v)
                    else fails ''balance not enough'' RSBalanceNotEnough w)
                 else succeeds w)"

definition createContract :: "penv \<Rightarrow> world \<Rightarrow> Transaction \<Rightarrow> address \<Rightarrow> (error + address) \<times> world" where
  "createContract P w tx operator =
    (let contractAddr = BytesToAddress (pSha256 P (operator @ Uint64ToByte (txNonce tx)))
     in if w_GetCodeHash w contractAddr \<noteq> replicate 32 0 then (Inl ''contract address conflict'', w)
        else (Inr contractAddr,
              w_SetNonce (w_SetCode (pCodeHash P (txData tx)) w contractAddr (txData tx)) contractAddr 1))"

text \<open>The gas a controller starts with; it panics when the limit does not cover the intrinsic gas.\<close>

definition newControllerGas :: "Transaction \<Rightarrow> u64 option" where
  "newControllerGas tx =
    (case txGasLimit tx of
       None \<Rightarrow> None
     | Some limit \<Rightarrow> if bigUint64 limit < bigUint64 (intrinsicGas tx) then None else Some (bigUint64 limit - bigUint64 (intrinsicGas tx)))"

definition tvmStatus :: "bool \<Rightarrow> int \<Rightarrow> ReceiptStatus" where
  "tvmStatus isCall code =
    (if isCall \<and> code = TVMCheckABIError then RSAbiError
     else if code = TVMGasNotEnoughError then RSGasNotEnoughError
     else RSTvmError)"

text \<open>The result, the state and the gas left after paying a contract and running it.\<close>

definition runContract ::
  "bool \<Rightarrow> (u64 \<Rightarrow> world \<Rightarrow> tvmResult) \<Rightarrow> Transaction \<Rightarrow> address \<Rightarrow> address \<Rightarrow> u64 \<Rightarrow> world \<Rightarrow> (result \<times> u64 \<times> world) option" where
  "runContract isCall vm tx source contract gas w =
    (case txValue tx of
       None \<Rightarrow> None
     | Some amount \<Rightarrow>
         (case transfer w source contract amount of
            (False, w1) \<Rightarrow> Some (setError ''balance not enough'' RSBalanceNotEnough newResult, gas, w1)
          | (True, w1) \<Rightarrow>
              (let t = vm gas w1; ret = newResult\<lparr>rLogs := tvmLogs t\<rparr>
               in case tvmError t of
                    None \<Rightarrow> Some (ret, tvmGasLeft t, tvmWorld t)
                  | Some (code, e) \<Rightarrow> Some (setError e (tvmStatus isCall code) ret, tvmGasLeft t, tvmWorld t))))"

definition contractCreate_Transition :: "penv \<Rightarrow> BlockHeader \<Rightarrow> Transaction \<Rightarrow> address \<Rightarrow> world \<Rightarrow> (result \<times> u64 \<times> world) option" where
  "contractCreate_Transition P bh tx source w =
    (case newControllerGas tx of
       None \<Rightarrow> None
     | Some gas \<Rightarrow>
         (case createContract P w tx source of
            (Inl e, w1) \<Rightarrow> Some (setError e RSFail newResult, gas, w1)
          | (Inr contract, w1) \<Rightarrow>
              map_option (\<lambda>(ret, left, w2). (ret\<lparr>contractAddress := contract\<rparr>, left, w2))
                (runContract False (pDeploy P bh tx contract) tx source contract gas w1)))"

definition contractCall_Transition :: "penv \<Rightarrow> BlockHeader \<Rightarrow> Transaction \<Rightarrow> world \<Rightarrow> (result \<times> u64 \<times> world) option" where
  "contractCall_Transition P bh tx w =
    (case newControllerGas tx of
       None \<Rightarrow> None
     | Some gas \<Rightarrow>
         (case txTarget tx of
            None \<Rightarrow> None
          | Some target \<Rightarrow>
              if \<not> pHasCode P w target then Some (setError ''no code at the given address'' RSNoCodeError newResult, gas, w)
              else (case txSource tx of
                      None \<Rightarrow> None
                    | Some source \<Rightarrow> runContract True (pCall P bh tx target) tx source target gas w)))"

text \<open>
  A transition with the gas it uses: the intrinsic gas, or for contracts the limit less the gas left.
\<close>

definition contractGas :: "Transaction \<Rightarrow> (result \<times> u64 \<times> world) option \<Rightarrow> (result \<times> bigint \<times> world) option" where
  "contractGas tx r =
    (case (r, txGasLimit tx) of
       (Some (ret, left, w), Some limit) \<Rightarrow> Some (ret, limit - uint left, w)
     | _ \<Rightarrow> None)"

definition plainGas :: "Transaction \<Rightarrow> outcome option \<Rightarrow> (result \<times> bigint \<times> world) option" where
  "plainGas tx r = map_option (\<lambda>o1. let (ret, w) = ofOutcome o1 in (ret, intrinsicGas tx, w)) r"

fun runTransition :: "penv \<Rightarrow> BlockHeader \<Rightarrow> Transaction \<Rightarrow> stateTransition \<Rightarrow> world \<Rightarrow> (result \<times> bigint \<times> world) option" where
  "runTransition P bh tx (TxTransfer target source v) w = plainGas tx (transfer_Transition target source v w)"
| "runTransition P bh tx (ContractCreator source) w = contractGas tx (contractCreate_Transition P bh tx source w)"
| "runTransition P bh tx ContractCaller w = contractGas tx (contractCall_Transition P bh tx w)"
| "runTransition P bh tx (MinerOperator op) w = plainGas tx (mTransition (pMiner P) op w)"
| "runTransition P bh tx GroupOperator w =
    plainGas tx (case pGroupExec P tx (bhHeight bh) w of (None, w1) \<Rightarrow> succeeds w1 | (Some e, w1) \<Rightarrow> fails e RSFail w1)"
| "runTransition P bh tx (BlackUpdateTx b) w = plainGas tx (blackUpdate_Transition b w)"

text \<open>An error reverts the state changes of the transition.\<close>

definition doTransition :: "(result \<times> bigint \<times> world) option \<Rightarrow> world \<Rightarrow> (result \<times> bigint \<times> world) option" where
  "doTransition r w = map_option (\<lambda>(ret, gas, w1). (ret, gas, if rErr ret \<noteq> None then w else w1)) r"

section \<open>Reward transactions\<close>

record rewardExecutor =
  reBlockHash :: hash
  reTargets :: "address list"
  rePackFee :: bigint

definition reward_ParseTransaction :: "penv \<Rightarrow> Transaction \<Rightarrow> world \<Rightarrow> error + rewardExecutor" where
  "reward_ParseTransaction P tx w =
    (case ParseRewardTransaction (pGroups P) tx of
       Inl e \<Rightarrow> Inl e
     | Inr (_, targets, blockHash, packFee) \<Rightarrow>
         if pHeaderHeight P blockHash = None then Inl ''block not exist''
         else if HasRewardedOfBlock blockHash w then Inl ''reward transaction already executed''
         else Inr \<lparr>reBlockHash = blockHash, reTargets = map BytesToAddress targets, rePackFee = packFee\<rparr>)"

definition reward_Transition :: "BlockHeader \<Rightarrow> Transaction \<Rightarrow> rewardExecutor \<Rightarrow> world \<Rightarrow> world option" where
  "reward_Transition bh tx r w =
    (let finish = (\<lambda>v. MarkBlockRewarded (reBlockHash r) (txHash tx) (w_AddBalance v (BytesToAddress (bhCastor bh)) (rePackFee r)))
     in case txValue tx of
          Some reward \<Rightarrow> Some (finish (fold (\<lambda>a v. w_AddBalance v a reward) (reTargets r) w))
        | None \<Rightarrow> if reTargets r = [] then Some (finish w) else None)"

section \<open>Applying a transaction\<close>

text \<open>The error of a transaction that is dropped, or its result; with the state left behind.\<close>

definition applyStateTransition :: "penv \<Rightarrow> BlockHeader \<Rightarrow> Transaction \<Rightarrow> world \<Rightarrow> ((error + result) \<times> world) option" where
  "applyStateTransition P bh tx w =
    (if IsReward tx then
       (case reward_ParseTransaction P tx w of
          Inl e \<Rightarrow> Some (Inl e, w)
        | Inr r \<Rightarrow> map_option (\<lambda>w1. (Inr newResult, w1)) (reward_Transition bh tx r w))
     else case checkState P w tx (bhHeight bh) of
            None \<Rightarrow> None
          | Some (Some e) \<Rightarrow> Some (Inl e, w)
          | Some None \<Rightarrow>
              (case (txGasLimit tx, txGasPrice tx, txSource tx) of
                 (Some gasLimit, Some gasPrice, Some source) \<Rightarrow>
                   (let w1 = w_SubBalance w source (gasLimit * gasPrice)
                    in case (case getOpByType P bh tx w1 of
                               None \<Rightarrow> None
                             | Some (Inl e) \<Rightarrow>
                                 Some (setError e RSParseFail newResult, if supported tx then intrinsicGas tx else 0, w1)
                             | Some (Inr ss) \<Rightarrow> doTransition (runTransition P bh tx ss w1) w1) of
                         None \<Rightarrow> None
                       | Some (ret, gasUsed, w2) \<Rightarrow>
                           (let w3 = (if gasLimit > gasUsed then w_AddBalance w2 source ((gasLimit - gasUsed) * gasPrice) else w2)
                            in Some (Inr (ret\<lparr>cumulativeGasUsed := gasUsed\<rparr>), w3)))
               | _ \<Rightarrow> None))"

section \<open>Processing a block\<close>

record Receipt =
  rcStatus :: ReceiptStatus
  rcGasUsed :: u64
  rcLogs :: "(nat \<times> bytes) list"
  rcTxHash :: hash
  rcContractAddress :: address
  rcHeight :: u64
  rcTxIndex :: u16

record procState =
  psWorld :: world
  psEvicted :: "hash list"
  psExecuted :: "Transaction list"
  psReceipts :: "Receipt list"
  psTotalGas :: u64
  psGasFee :: u64

definition newReceipt :: "BlockHeader \<Rightarrow> Transaction \<Rightarrow> result \<Rightarrow> nat \<Rightarrow> Receipt" where
  "newReceipt bh tx ret idx =
    \<lparr>rcStatus = transitionStatus ret, rcGasUsed = bigUint64 (cumulativeGasUsed ret), rcLogs = map (\<lambda>l. (idx, l)) (rLogs ret),
     rcTxHash = txHash tx, rcContractAddress = contractAddress ret, rcHeight = bhHeight bh, rcTxIndex = of_nat idx\<rparr>"

text \<open>
  One transaction of the loop: \<open>Inl\<close> leaves the loop, \<open>Inr\<close> goes on. The seconds elapsed are compared
  with the package time in nanoseconds, as the code does.
\<close>

definition processTx :: "penv \<Rightarrow> BlockHeader \<Rightarrow> bool \<Rightarrow> nat \<Rightarrow> Transaction \<Rightarrow> procState \<Rightarrow> (procState + procState) option" where
  "processTx P bh pack i tx s =
    (if pack \<and> pElapsed P i > pProposerPackageTime P then Some (Inl s)
     else if pack \<and> psTotalGas s \<ge> pGasLimitForPackage P then Some (Inl s)
     else case applyStateTransition P bh tx (psWorld s) of
            None \<Rightarrow> None
          | Some (Inl e, w1) \<Rightarrow> Some (Inr (s\<lparr>psWorld := w1, psEvicted := psEvicted s @ [txHash tx]\<rparr>))
          | Some (Inr ret, w1) \<Rightarrow>
              (let cumulativeGas = bigUint64 (cumulativeGasUsed ret); totalGas = psTotalGas s + cumulativeGas
               in if totalGas > GasLimitPerBlock then Some (Inl (s\<lparr>psTotalGas := totalGas\<rparr>))
                  else case txGasPrice tx of
                         None \<Rightarrow> None
                       | Some gasPrice \<Rightarrow>
                           Some (Inr
                             \<lparr>psWorld = (case txSource tx of None \<Rightarrow> w1 | Some source \<Rightarrow> w_SetNonce w1 source (txNonce tx)),
                              psEvicted = psEvicted s,
                              psExecuted = psExecuted s @ [tx],
                              psReceipts = psReceipts s @ [newReceipt bh tx ret (length (psExecuted s))],
                              psTotalGas = totalGas,
                              psGasFee = psGasFee s + bigUint64 (cumulativeGasUsed ret * gasPrice)\<rparr>)))"

fun processLoop :: "penv \<Rightarrow> BlockHeader \<Rightarrow> bool \<Rightarrow> nat \<Rightarrow> Transaction list \<Rightarrow> procState \<Rightarrow> procState option" where
  "processLoop P bh pack i [] s = Some s"
| "processLoop P bh pack i (tx # txs) s =
    (case processTx P bh pack i tx s of
       None \<Rightarrow> None
     | Some (Inl s1) \<Rightarrow> Some s1
     | Some (Inr s1) \<Rightarrow> processLoop P bh pack (Suc i) txs s1)"

definition startState :: "world \<Rightarrow> procState" where
  "startState w = \<lparr>psWorld = w, psEvicted = [], psExecuted = [], psReceipts = [], psTotalGas = 0, psGasFee = 0\<rparr>"

definition payRewards :: "penv \<Rightarrow> BlockHeader \<Rightarrow> u64 \<Rightarrow> world \<Rightarrow> world" where
  "payRewards P bh gasFee w =
    (let castorTotalRewards = calculateGasFeeCastorRewards gasFee + calculateCastorRewards (bhHeight bh);
         daemon = daemonNodesRewards (bhHeight bh);
         w1 = (if daemon \<noteq> 0 then w_AddBalance w (pDaemon P) (uint daemon) else w);
         user = userNodesRewards (bhHeight bh);
         w2 = (if user \<noteq> 0 then w_AddBalance w1 (pUser P) (uint user) else w1)
     in w_AddBalance w2 (BytesToAddress (bhCastor bh)) (uint castorTotalRewards))"

definition foundationUpgrade :: "penv \<Rightarrow> world \<Rightarrow> world" where
  "foundationUpgrade P w =
    (let w1 = w_SubBalance w (pBusiness P) 138750000000000000;
         w2 = w_SubBalance w1 (pTeam P) 416250000000000000;
         w3 = w_SetData w2 (pBusiness P) (ascii ''total_token'') (Some [105, 1, 139, 61, 73, 27, 67, 32, 0])
     in w_SetData w3 (pTeam P) (ascii ''total_token'') (Some [105, 4, 161, 183, 219, 81, 201, 96, 0]))"

fun runProcs :: "(BlockHeader \<Rightarrow> world \<Rightarrow> world option) list \<Rightarrow> BlockHeader \<Rightarrow> world \<Rightarrow> world option" where
  "runProcs [] bh w = Some w"
| "runProcs (p # ps) bh w = (case p bh w of None \<Rightarrow> None | Some w1 \<Rightarrow> runProcs ps bh w1)"

definition process :: "penv \<Rightarrow> BlockHeader \<Rightarrow> Transaction list \<Rightarrow> bool \<Rightarrow> u64 \<Rightarrow> world \<Rightarrow> procState option" where
  "process P bh txs pack preHeight w =
    (case processLoop P bh pack 0 txs (startState w) of
       None \<Rightarrow> None
     | Some s \<Rightarrow>
         (let w1 = payRewards P bh (psGasFee s) (psWorld s);
              w2 = (if IsZIP005Checkpoint config preHeight (bhHeight bh) then foundationUpgrade P w1 else w1)
          in case (if IsZIP006Checkpoint config preHeight (bhHeight bh) then pDeployManager P w2 else Some w2) of
               None \<Rightarrow> None
             | Some w3 \<Rightarrow> map_option (\<lambda>w4. s\<lparr>psWorld := w4\<rparr>) (runProcs (pProcs P) bh w3)))"

end
