(* ===== verification/Validate_Props.thy ===== *)
theory Validate_Props
  imports Tx_Validate
begin

text \<open>
  What validation guarantees: the miner operations behind validated transactions parse without a panic
  and are well typed, and the gas of a validated transaction covers its size. One validator panics on
  an input it should refuse.
\<close>

section \<open>Accepted transactions\<close>

lemma accepted:
  assumes "getValidator V tx vs = Some None" and "\<not> IsReward tx"
  shows "commonValidate tx = None" "gasValidate tx = None" "txSource tx \<noteq> None" "typeValidate V vs tx = Some None"
    "sourceRecover (vGov V) tx = Some None"
  using assms by (auto simp: getValidator_def split: if_splits)

lemma accepted_gas:
  assumes "gasValidate tx = None"
  obtains limit price where "txGasLimit tx = Some limit" "txGasPrice tx = Some price" "intrinsicGas tx \<le> limit" "0 \<le> limit"
    "limit \<le> 500000" "0 \<le> price" "price < 2 ^ 64"
proof -
  from assms obtain limit price where lp: "txGasLimit tx = Some limit" "txGasPrice tx = Some price" "isUint64 limit" "isUint64 price"
    "intrinsicGas tx \<le> limit" "bigUint64 limit \<le> gasLimitPerTransaction"
    by (auto simp: gasValidate_def split: option.splits if_splits)
  have "uint (bigUint64 limit) = limit"
    using lp(3) by (simp add: bigUint64_def isUint64_def unsigned_of_int take_bit_int_eq_self)
  then have "limit \<le> 500000" using lp(6) by (simp add: word_le_def gasLimitPerTransaction_def)
  then show thesis using that lp by (auto simp: isUint64_def)
qed

lemma DecodePayload_keys:
  "DecodePayload bs = Inr p \<Longrightarrow>
    Pk p = [] \<and> VrfPk p = [] \<or> length (Pk p) = pkSize \<and> length (VrfPk p) = vrfPkSize"
  by (auto simp: DecodePayload_def Let_def pkSize_def vrfPkSize_def split: if_splits)

definition minerTx :: "Transaction \<Rightarrow> bool" where
  "minerTx tx \<longleftrightarrow> txType tx \<in> {TransactionTypeStakeAdd, TransactionTypeMinerAbort, TransactionTypeStakeReduce,
     TransactionTypeStakeRefund, TransactionTypeApplyGuardMiner, TransactionTypeVoteMinerPool, TransactionTypeChangeFundGuardMode}"

lemma stakeAdd_parses:
  assumes "stakeAddValidator tx = None" and "txSource tx = Some s" and "fixed32 s" and "pred_option fixed32 (txTarget tx)"
  obtains "\<exists>e. parseStakeAdd (messageOf tx) h = Some (Inl e)"
    | op where "parseStakeAdd (messageOf tx) h = Some (Inr op)" "opOk (StakeAdd op)" "opTyped (StakeAdd op)"
proof -
  from assms obtain t p v where t: "txTarget tx = Some t" "fixed32 t" and p: "DecodePayload (txData tx) = Inr p"
    and v: "txValue tx = Some v"
    by (auto simp: stakeAddValidator_def valueValidate_def split: sum.splits option.splits)
  have "saPks op = (saPks op)\<lparr>Pk := [], VrfPk := []\<rparr>" if "Pk (saPks op) = []" "VrfPk (saPks op) = []" for op :: stakeAddOp
    using that by (cases "saPks op") simp
  then show thesis using that(1) that(2) t p v assms(2,3) DecodePayload_keys [OF p]
    by (cases "length (Pk p) > 0 \<and> s \<noteq> t") (auto simp: parseStakeAdd_def messageOf_def opOk_def opTyped_def)
qed

lemma one_byte: "length bs = 1 \<longleftrightarrow> (\<exists>b. bs = [b])"
  by (metis length_0_conv length_Suc_conv One_nat_def)

lemma byte_ops_parse:
  assumes "txSource tx = Some s" and "fixed32 s" and "pred_option fixed32 (txTarget tx)"
  shows "minerAbortValidator tx = None \<Longrightarrow> \<exists>op. parseMinerAbort (messageOf tx) h = Some (Inr op) \<and> opOk (MinerAbort op)"
    and "stakeReduceValidator tx = None \<Longrightarrow>
      \<exists>op. parseStakeReduce (messageOf tx) h = Some (Inr op) \<and> opOk (StakeReduce op) \<and> opTyped (StakeReduce op)"
    and "stakeRefundValidator tx = None \<Longrightarrow> \<exists>op. parseStakeRefund (messageOf tx) h = Some (Inr op) \<and> opOk (StakeRefund op)"
    and "voteMinerPoolValidator tx = None \<Longrightarrow> \<exists>op. parseVoteMinerPool (messageOf tx) h = Some (Inr op) \<and> opOk (VoteMinerPool op)"
    and "changeFundGuardModeValidator gs tx = Some None \<Longrightarrow>
      \<exists>op. parseChangeFundGuardMode (messageOf tx) h = Some (Inr op) \<and> opOk (ChangeFundGuardMode op)"
    and "\<exists>op. parseApplyGuard (messageOf tx) h = Some (Inr op) \<and> opOk (ApplyGuard op)"
  using assms
  by (auto simp: minerAbortValidator_def stakeReduceValidator_def stakeRefundValidator_def voteMinerPoolValidator_def
      changeFundGuardModeValidator_def parseMinerAbort_def parseStakeReduce_def parseStakeRefund_def parseVoteMinerPool_def
      parseChangeFundGuardMode_def parseApplyGuard_def messageOf_def opOk_def opTyped_def minerTypeCheck_def one_byte
      split: if_splits option.splits list.splits)


text \<open>An environment whose signatures are the addresses they recover to, and a transaction in it.\<close>

definition exVenv :: venv where
  "exVenv = \<lparr>vGov = exGov\<lparr>recoverAddr := \<lambda>sig m. Inr sig\<rparr>, vIsBlack = (\<lambda>w a. False), vVerifyReward = (\<lambda>tx. (True, None)),
     vHeight = 100, vLatest = Inl ''none'', vGuards = (\<lambda>w. (None, [])), vAdmin = numAddress 50, vGuardAddress = []\<rparr>"

definition exTx :: "int \<Rightarrow> bytes \<Rightarrow> Transaction" where
  "exTx t d = \<lparr>txData = d, txValue = Some 7, txNonce = 1, txTarget = Some (numAddress 60), txType = t, txGasLimit = Some 1000,
     txGasPrice = Some 500, txExtraData = [], txSign = Some (numAddress 50), txSource = Some (numAddress 50), txHash = []\<rparr>"

lemma exTx_checks:
  "commonValidate (exTx t [d]) = None" "gasValidate (exTx t [d]) = None" "sourceRecover (vGov exVenv) (exTx t [d]) = Some None"
  "commonValidate (exTx t []) = None" "gasValidate (exTx t []) = None" "txSource (exTx t ds) = Some (numAddress 50)"
  by (simp_all add: commonValidate_def gasValidate_def sourceRecover_def exTx_def exVenv_def isUint64_def intrinsicGas_def gas_consts
      bigUint64_def exGov_def)


section \<open>A validator that panics\<close>

text \<open>
  An empty mode change: for every transaction of the mode-change kind with a signature, valid gas, a
  source and no data, validation panics, because the first byte is read before the length is checked.
\<close>

theorem mode_change_panics:
  assumes "commonValidate tx = None" and "gasValidate tx = None" and "txSource tx \<noteq> None"
    and "txType tx = TransactionTypeChangeFundGuardMode" and "txData tx = []"
  shows "getValidator V tx False = None"
  using assms
  by (auto simp: getValidator_def IsReward_def typeValidate_def changeFundGuardModeValidator_def thenV_def tx_type_defs)

theorem mode_change_panics_witness: "getValidator exVenv (exTx TransactionTypeChangeFundGuardMode []) False = None"
  by (rule mode_change_panics) (simp_all add: exTx_checks, simp_all add: exTx_def)

end
