(* ===== verification/Process_Tx.thy ===== *)
theory Process_Tx
  imports State_Processor Validate_Props
begin

text \<open>
  Facts about applying one transaction: what a successful run of \<^verbatim>\<open>applyStateTransition\<close> went
  through, the gas it can charge, and that an error leaves nothing behind but the gas paid.
\<close>

section \<open>Cases of applying a transaction\<close>

lemma apply_dropped:
  "applyStateTransition P bh tx w = Some (Inl e, w') \<Longrightarrow> w' = w"
  by (auto simp: applyStateTransition_def Let_def split: if_splits sum.splits option.splits prod.splits)

lemma apply_reward:
  assumes "applyStateTransition P bh tx w = Some (Inr ret, w')" and "IsReward tx"
  obtains r where "reward_ParseTransaction P tx w = Inr r" "reward_Transition bh tx r w = Some w'" "ret = newResult"
  using assms by (auto simp: applyStateTransition_def split: sum.splits)

text \<open>The state a transaction leaves behind, from the state the transition left and the gas it used.\<close>

definition refunded :: "address \<Rightarrow> bigint \<Rightarrow> bigint \<Rightarrow> bigint \<Rightarrow> world \<Rightarrow> world" where
  "refunded source limit price gas w = (if limit > gas then w_AddBalance w source ((limit - gas) * price) else w)"

lemma apply_paid:
  assumes run: "applyStateTransition P bh tx w = Some (Inr ret, w')" and "\<not> IsReward tx"
  obtains limit price source w1 w2 where "txGasLimit tx = Some limit" "txGasPrice tx = Some price" "txSource tx = Some source"
    "checkState P w tx (bhHeight bh) = Some None" "w1 = w_SubBalance w source (limit * price)"
    "w' = refunded source limit price (cumulativeGasUsed ret) w2"
    "(\<exists>e. getOpByType P bh tx w1 = Some (Inl e) \<and> rErr ret = Some e \<and> w2 = w1 \<and>
        cumulativeGasUsed ret = (if supported tx then intrinsicGas tx else 0)) \<or>
     (\<exists>ss ret1 w3. getOpByType P bh tx w1 = Some (Inr ss) \<and> runTransition P bh tx ss w1 = Some (ret1, cumulativeGasUsed ret, w3) \<and>
        rErr ret = rErr ret1 \<and> w2 = (if rErr ret \<noteq> None then w1 else w3))"
proof -
  from assms obtain limit price source ret1 gas w2 where tx: "txGasLimit tx = Some limit" "txGasPrice tx = Some price" "txSource tx = Some source"
    and chk: "checkState P w tx (bhHeight bh) = Some None"
    and step: "(case getOpByType P bh tx (w_SubBalance w source (limit * price)) of
         None \<Rightarrow> None
       | Some (Inl e) \<Rightarrow> Some (setError e RSParseFail newResult, if supported tx then intrinsicGas tx else 0, w_SubBalance w source (limit * price))
       | Some (Inr ss) \<Rightarrow> doTransition (runTransition P bh tx ss (w_SubBalance w source (limit * price))) (w_SubBalance w source (limit * price))) =
       Some (ret1, gas, w2)"
    and ret: "ret = ret1\<lparr>cumulativeGasUsed := gas\<rparr>" "w' = refunded source limit price gas w2"
    by (auto simp: applyStateTransition_def Let_def refunded_def split: option.splits prod.splits)
  from step ret show thesis
    by (intro that [OF tx chk refl, of w2]; cases "rErr ret1")
      (auto simp: doTransition_def setError_def split: option.splits sum.splits prod.splits)
qed

section \<open>Gas\<close>

text \<open>The virtual machine never returns more gas than it was given.\<close>

definition vmGasOk :: "penv \<Rightarrow> bool" where
  "vmGasOk P \<longleftrightarrow> (\<forall>bh tx a gas w. tvmGasLeft (pDeploy P bh tx a gas w) \<le> gas \<and> tvmGasLeft (pCall P bh tx a gas w) \<le> gas)"

lemma runContract_gas:
  assumes "runContract b vm tx s c gas w = Some (ret, left, w')" and "\<And>w. tvmGasLeft (vm gas w) \<le> gas"
  shows "left \<le> gas"
  using assms by (auto simp: runContract_def Let_def split: option.splits prod.splits bool.splits)

lemma gasValidate_bounds:
  assumes "gasValidate tx = None" and "txGasLimit tx = Some limit"
  shows "intrinsicGas tx \<le> limit" "limit \<le> 500000" "0 \<le> limit" "0 \<le> intrinsicGas tx"
  using assms
  by (auto simp: gasValidate_def gas_consts isUint64_def intrinsicGas_def not_less word_le_def bigUint64_def unsigned_of_int take_bit_int_eq_self
      split: option.splits if_splits)

lemma gasValidate_price:
  assumes "gasValidate tx = None" and "txGasPrice tx = Some price"
  shows "0 \<le> price" "price < 2 ^ 64"
  using assms by (auto simp: gasValidate_def isUint64_def split: option.splits if_splits)

lemma newControllerGas_bound:
  assumes "gasValidate tx = None" and "txGasLimit tx = Some limit" and "newControllerGas tx = Some gas"
  shows "uint gas = limit - intrinsicGas tx"
proof -
  note b = gasValidate_bounds [OF assms(1,2)]
  have u: "uint (bigUint64 limit) = limit" "uint (bigUint64 (intrinsicGas tx)) = intrinsicGas tx"
    using b by (simp_all add: bigUint64_def unsigned_of_int take_bit_int_eq_self)
  have "gas = bigUint64 limit - bigUint64 (intrinsicGas tx)" using assms(2,3) by (auto simp: newControllerGas_def split: if_splits)
  then show ?thesis using u b by (simp add: uint_minus_simple_alt [THEN iffD1] word_le_def)
qed

lemma plainGas_Some:
  "plainGas tx r = Some (ret, gas, w') \<longleftrightarrow> (\<exists>o1. r = Some o1 \<and> ofOutcome o1 = (ret, w') \<and> gas = intrinsicGas tx)"
  by (cases r) (auto simp: plainGas_def Let_def split: prod.splits)

lemma runTransition_gas:
  assumes vm: "vmGasOk P" and gv: "gasValidate tx = None" and lim: "txGasLimit tx = Some limit"
    and run: "runTransition P bh tx ss w = Some (ret, gas, w')"
  shows "intrinsicGas tx \<le> gas \<and> gas \<le> limit"
proof -
  note b = gasValidate_bounds [OF gv lim]
  have plain: "intrinsicGas tx \<le> gas \<and> gas \<le> limit" if "plainGas tx r = Some (ret, gas, w')" for r
    using that b by (auto simp: plainGas_Some)
  have left: "intrinsicGas tx \<le> gas \<and> gas \<le> limit"
    if "contractGas tx r = Some (ret, gas, w')" "\<And>ret1 l w1. r = Some (ret1, l, w1) \<Longrightarrow> \<exists>g. newControllerGas tx = Some g \<and> l \<le> g" for r
  proof -
    from that lim obtain l g where l: "gas = limit - uint l" "newControllerGas tx = Some g" "l \<le> g"
      by (fastforce simp: contractGas_def split: option.splits prod.splits)
    with newControllerGas_bound [OF gv lim l(2)] show ?thesis by (simp add: word_le_def)
  qed
  show ?thesis
  proof (cases ss)
    case (ContractCreator source)
    then have "contractGas tx (contractCreate_Transition P bh tx source w) = Some (ret, gas, w')" using run by simp
    then show ?thesis
      by (rule left) (use vm in \<open>fastforce simp: contractCreate_Transition_def vmGasOk_def split: option.splits prod.splits sum.splits
          dest: runContract_gas\<close>)
  next
    case ContractCaller
    then have "contractGas tx (contractCall_Transition P bh tx w) = Some (ret, gas, w')" using run by simp
    then show ?thesis
      by (rule left) (use vm in \<open>fastforce simp: contractCall_Transition_def vmGasOk_def split: option.splits if_splits
          dest: runContract_gas\<close>)
  qed (use run plain in auto)
qed

lemma apply_gas:
  assumes "vmGasOk P" and "gasValidate tx = None" and "txGasLimit tx = Some limit"
    and run: "applyStateTransition P bh tx w = Some (Inr ret, w')"
  shows "0 \<le> cumulativeGasUsed ret \<and> cumulativeGasUsed ret \<le> limit"
proof (cases "IsReward tx")
  case True
  then show ?thesis using run gasValidate_bounds(3) [OF assms(2,3)] by (auto elim!: apply_reward simp: newResult_def)
next
  case False
  from run this show ?thesis
    using gasValidate_bounds [OF assms(2,3)] runTransition_gas [OF assms(1-3)]
    by (elim apply_paid disjE exE conjE) (force split: if_splits)+
qed

end
