(* ===== verification/Miner_Untouched.thy ===== *)
theory Miner_Untouched
  imports Miner_Stake
begin

text \<open>
  What the miner operations do not touch, whether they succeed or fail. They write balances and
  storage slots only, and none of their slots is a 32-byte key of the reward store. Any relation
  between states that survives such writes therefore survives every operation; nonces and code are
  one instance, the reward marks of blocks another.
\<close>

section \<open>Outcomes within a relation\<close>

definition outKeeps :: "(world \<Rightarrow> bool) \<Rightarrow> outcome option \<Rightarrow> bool" where
  "outKeeps Q r \<longleftrightarrow> (case r of None \<Rightarrow> True | Some (_, w) \<Rightarrow> Q w)"

lemma outKeeps_simps [simp]:
  "outKeeps Q None" "outKeeps Q (fails e rs w) = Q w" "outKeeps Q (succeeds w) = Q w" "outKeeps Q (Some (err, w)) = Q w"
  by (simp_all add: outKeeps_def fails_def succeeds_def)

lemma outKeeps_andThen: "outKeeps Q r \<Longrightarrow> (\<And>w. Q w \<Longrightarrow> outKeeps Q (k w)) \<Longrightarrow> outKeeps Q (andThen r k)"
  by (auto simp: andThen_def split: option.splits prod.splits)

lemma outKeeps_orFail: "Q w \<Longrightarrow> pred_sum (\<lambda>_. True) Q r \<Longrightarrow> (\<And>w. Q w \<Longrightarrow> outKeeps Q (k w)) \<Longrightarrow> outKeeps Q (orFail r w k)"
  by (cases r) (auto simp: orFail_def)

lemma outKeeps_orPanic: "pred_option Q r \<Longrightarrow> (\<And>w. Q w \<Longrightarrow> outKeeps Q (k w)) \<Longrightarrow> outKeeps Q (orPanic r k)"
  by (cases r) (auto simp: orPanic_def)

lemmas outKeeps_rules = outKeeps_andThen outKeeps_orFail outKeeps_orPanic

section \<open>The slots miner operations write\<close>

definition minerSlot :: "address \<Rightarrow> bytes \<Rightarrow> bool" where
  "minerSlot a k \<longleftrightarrow> a \<noteq> RewardStoreAddr \<or> length k \<noteq> 32"

lemma minerSlot_simps [simp]:
  "minerSlot a (getMinerKey t)" "minerSlot a KeyVote" "fixed32 s \<Longrightarrow> minerSlot a (getDetailKey s t r)"
  "minerSlot MinerPoolAddr k" "minerSlot MinerPoolTicketsAddr k" "minerSlot FundGuardNodeAddr k" "minerSlot FullStakeGuardNodeAddr k"
  by (simp_all add: minerSlot_def getMinerKey_def getDetailKey_def key_defs fixed32_def)
    (simp_all add: address_defs Let_def)

lemma fixed32_PunishmentDetailAddr [simp]: "fixed32 PunishmentDetailAddr"
  by (simp add: PunishmentDetailAddr_def numAddress_def)

locale miner_frame =
  fixes keeps :: "world \<Rightarrow> bool"
  assumes keeps_data: "keeps w \<Longrightarrow> minerSlot a k \<Longrightarrow> keeps (w_SetData w a k v)"
    and keeps_add: "keeps w \<Longrightarrow> keeps (w_AddBalance w a n)"
    and keeps_sub: "keeps w \<Longrightarrow> keeps (w_SubBalance w a n)"
begin

lemma keeps_remove: "keeps w \<Longrightarrow> minerSlot a k \<Longrightarrow> keeps (w_RemoveData w a k)"
  by (simp add: w_RemoveData_def keeps_data)

lemma keeps_slots:
  assumes "keeps w"
  shows "pred_sum (\<lambda>_. True) keeps (setMiner E w m)" "pred_sum (\<lambda>_. True) keeps (setVoteInfo E w a vf)"
    "pred_sum (\<lambda>_. True) keeps (voteMinerPool E w vf a b h)" "pred_sum (\<lambda>_. True) (\<lambda>(_, w'). keeps w') (initVoteInfo E w a)"
    "pred_sum (\<lambda>_. True) keeps (setFundGuardNode E w a fn)" "pred_sum (\<lambda>_. True) keeps (reduceBalance w a n)"
    "fixed32 s \<Longrightarrow> pred_sum (\<lambda>_. True) keeps (setDetail E w a (getDetailKey s t r) d)"
    "fixed32 s \<Longrightarrow> keeps (removeDetail w a (getDetailKey s t r))" "keeps (addFullStakeGuardPool w a)"
  using assms
  by (auto simp: setMiner_def setVoteInfo_def voteMinerPool_def initVoteInfo_def setFundGuardNode_def setDetail_def
      removeDetail_def addFullStakeGuardPool_def reduceBalance_def Let_def keeps_data keeps_remove keeps_sub
      split: option.splits)

lemma keeps_pools:
  assumes "keeps w"
  shows "pred_option keeps (removeFromPool w t a n)" "pred_option keeps (addProposalTotalStake w n)"
    "pred_option keeps (subProposalTotalStake w n)" "pred_option keeps (addToPool w t a n)"
    "keeps (snd (addTicket w a))" "keeps (snd (subTicket w a))"
  using assms
  by (auto simp: removeFromPool_def addProposalTotalStake_def subProposalTotalStake_def addToPool_def addTicket_def subTicket_def
      setProposalTotalStake_def Let_def keeps_data keeps_remove split: option.splits)

lemma keeps_guards:
  assumes "keeps w"
  shows "pred_sum (\<lambda>_. True) keeps (updateFundGuardPoolStatus E w a ft h)" "pred_sum (\<lambda>_. True) keeps (updateFundGuardMode E w fn a md h)"
  using assms by (auto simp: updateFundGuardPoolStatus_def updateFundGuardMode_def keeps_slots split: sum.splits option.splits)

lemmas keeps_rules = outKeeps_rules keeps_slots keeps_pools keeps_guards

lemma keeps_deactivate: "keeps w \<Longrightarrow> pred_option (\<lambda>(_, w'). keeps w') (deactivate op n m w)"
  using keeps_pools by (auto simp: deactivate_def option.pred_map comp_def)

lemma keeps_activate: "keeps w \<Longrightarrow> pred_option (\<lambda>(_, w'). keeps w') (activate op m w)"
  using keeps_pools by (auto simp: activate_def option.pred_map comp_def)

lemma keeps_stakeAdd:
  assumes "keeps w" and "fixed32 (addSource op)"
  shows "outKeeps keeps (stakeAdd_Transition E op w)"
proof -
  have detail: "outKeeps keeps (addStakeDetail E op v)" if "keeps v" for v
    using that assms(2) by (auto simp: addStakeDetail_def Let_def intro!: keeps_rules split: sum.splits option.splits)
  have "outKeeps keeps (case activate op m v of None \<Rightarrow> None | Some (m2, w2) \<Rightarrow> orFail (setMiner E w2 m2) w2 (addStakeDetail E op))"
    if "keeps v" for v m
    using keeps_activate [OF that, of op m] by (auto intro!: keeps_rules detail split: option.splits)
  then have "outKeeps keeps (baseProcessStakeAdd E iop op mo w)" for iop mo
    using assms(1) keeps_slots(6) [OF assms(1), of "addSource op" "saValue op"]
    by (auto simp: baseProcessStakeAdd_def Let_def split: sum.splits)
  with assms(1) show ?thesis
    by (auto simp: stakeAdd_Transition_def processStakeAdd_def Let_def split: sum.splits option.splits)
qed

lemma keeps_minerAbort: "keeps w \<Longrightarrow> outKeeps keeps (minerAbort_Transition E op w)"
proof -
  assume w: "keeps w"
  then have "outKeeps keeps (baseProcessMinerAbort E op mo w)" for mo
    by (auto simp: baseProcessMinerAbort_def intro!: keeps_rules split: option.splits)
  then have "outKeeps keeps (processMinerAbort E iop op mo w)" for iop mo using w by (cases iop) simp_all
  with w show ?thesis by (auto simp: minerAbort_Transition_def split: sum.splits)
qed

lemma keeps_minerFreeze: "keeps w \<Longrightarrow> outKeeps keeps (minerFreeze_Transition E a h w)"
  by (auto simp: minerFreeze_Transition_def intro!: keeps_rules split: sum.splits option.splits)

lemma keeps_stakeReduce:
  assumes "keeps w" and a: "fixed32 (cancelSource op)"
  shows "outKeeps keeps (stakeReduce_Transition E op w)"
proof -
  have freeze: "outKeeps keeps (freezeDetail E op v)" if "keeps v" for v
    using that a by (auto simp: freezeDetail_def Let_def intro!: keeps_rules split: sum.splits)
  have detail: "outKeeps keeps (reduceDetail E op n v)" if "keeps v" for v n
    using that a by (auto simp: reduceDetail_def Let_def intro!: keeps_rules freeze split: sum.splits option.splits)
  have "outKeeps keeps (case deactivate op n m w of None \<Rightarrow> None | Some (m2, w1) \<Rightarrow> orFail (setMiner E w1 m2) w1 (reduceDetail E op n))" for n m
    using keeps_deactivate [OF assms(1), of op n m] by (auto intro!: keeps_rules detail split: option.splits)
  then have "outKeeps keeps (processStakeReduce E iop op mo w)" for iop mo
    using assms(1) by (auto simp: processStakeReduce_def Let_def split: option.splits)
  with assms(1) show ?thesis by (auto simp: stakeReduce_Transition_def split: sum.splits)
qed

lemma keeps_stakeRefund:
  "keeps w \<Longrightarrow> fixed32 (refundSource op) \<Longrightarrow> outKeeps keeps (stakeRefund_Transition E op w)"
  by (auto simp: stakeRefund_Transition_def Let_def intro!: keeps_slots keeps_add split: sum.splits option.splits)

lemma keeps_reduceTickets:
  assumes "keeps w"
  shows "outKeeps keeps (reduceTickets_Transition E op w)"
proof -
  have "outKeeps keeps (afterTicketReduce E iop op mo n v)" if "keeps v" for iop mo n v
    using that by (cases iop) (auto simp: Let_def intro!: keeps_rules split: option.splits)
  with keeps_pools(6) [OF assms, of "rtTarget op"] have "outKeeps keeps (processReduceTicket E iop op mo w)" for iop mo
    using assms by (auto simp: processReduceTicket_def split: prod.splits)
  with assms show ?thesis by (auto simp: reduceTickets_Transition_def split: sum.splits)
qed

lemma keeps_voteMinerPool:
  assumes "keeps w"
  shows "outKeeps keeps (voteMinerPool_Transition E op w)"
proof -
  have full: "outKeeps keeps (afterTicketsFull E iop op mo v)" if "keeps v" for iop mo v
    using that by (cases iop) (auto simp: Let_def intro!: keeps_rules)
  have before: "keeps w1" if "voteBefore E op vf w = Inr (v, w1)" for vf v w1
    using that assms keeps_slots(4) [OF assms, of E "vmSource op"] by (auto simp: voteBefore_def split: option.splits)
  have "outKeeps keeps (baseVote E op vf w (\<lambda>isFull w1. if isFull then afterTicketsFull E iop op mo w1 else succeeds w1))" for vf iop mo
    using assms by (auto simp: baseVote_def Let_def case_prod_beta intro!: keeps_rules keeps_reduceTickets full
        dest: before split: sum.split)
  then have "outKeeps keeps (baseProcessVote E iop op mo w)" for iop mo
    using assms by (auto simp: baseProcessVote_def split: sum.splits option.splits)
  then have "outKeeps keeps (processVote E iop op mo w)" for iop mo using assms by (cases iop) simp_all
  with assms show ?thesis by (auto simp: voteMinerPool_Transition_def split: sum.splits)
qed

lemma keeps_applyGuard:
  assumes "keeps w" and a: "fixed32 (agTarget op)"
  shows "outKeeps keeps (applyGuard_Transition E op w)"
proof -
  have vote: "outKeeps keeps (refreshVote E op v)" if "keeps v" for v
    using that by (auto simp: refreshVote_def intro!: keeps_rules split: sum.splits option.splits)
  have "outKeeps keeps (afterBecomeFullGuardNode E iop (getDetailKey (agTarget op) t r) d (agTarget op) h v)" if "keeps v" for iop t r d h v
    using that a by (cases iop) (auto simp: Let_def intro!: keeps_rules)
  then have "outKeeps keeps (baseProcessApplyGuard E iop op mo w)" for iop mo
    using assms by (auto simp: baseProcessApplyGuard_def Let_def intro!: keeps_rules vote split: sum.splits option.splits)
  then have "outKeeps keeps (processApplyGuard E iop op mo w)" for iop mo using assms(1) by (cases iop) simp_all
  with assms(1) show ?thesis by (auto simp: applyGuard_Transition_def split: sum.splits option.splits)
qed

lemma keeps_changeFundGuardMode:
  assumes "keeps w"
  shows "outKeeps keeps (changeFundGuardMode_Transition E op w)"
  using assms keeps_guards(2) [OF assms, of E]
  by (auto simp: changeFundGuardMode_Transition_def processChangeFundGuardMode_def split: sum.splits option.splits)
    (metis pred_sum_inject(2))+

lemma keeps_minerPenalty:
  assumes "keeps w" and "list_all fixed32 (mpTargets op)"
  shows "outKeeps keeps (minerPenalty_Transition E op w)"
proof -
  have frozen: "outKeeps keeps (subFrozen E a n h v)" if "keeps v" "fixed32 a" for a n h v
    using that by (auto simp: subFrozen_def Let_def intro!: keeps_rules split: sum.splits option.splits)
  have sub: "outKeeps keeps (subPunished E a n h v)" if "keeps v" "fixed32 a" for a n h v
    using that by (auto simp: subPunished_def Let_def intro!: keeps_rules frozen split: sum.splits option.splits)
  have add: "outKeeps keeps (addPunishment E a n h v)" if "keeps v" for a n h v
    using that by (auto simp: addPunishment_def Let_def intro!: keeps_rules split: sum.splits option.splits)
  have one: "outKeeps keeps (punishOne E n h a v)" if "keeps v" "fixed32 a" for a n h v
    using that by (auto simp: punishOne_def intro!: keeps_rules add sub split: sum.splits option.splits)
  have all: "outKeeps keeps (punishAll E n h as v)" if "keeps v" "list_all fixed32 as" for n h as v
    using that by (induction as arbitrary: v) (auto intro!: outKeeps_andThen one)
  have "keeps (fold (\<lambda>a v. w_AddBalance v a n) as v)" if "keeps v" for as v n
    using that by (induction as arbitrary: v) (auto intro: keeps_add)
  with assms all show ?thesis by (auto simp: minerPenalty_Transition_def Let_def intro!: outKeeps_andThen)
qed

lemma keeps_mTransition:
  assumes "keeps w" and "opOk op" and "mTransition E op w = Some (err, w')"
  shows "keeps w'"
proof -
  have "outKeeps keeps (mTransition E op w)"
    using assms(1,2)
    by (cases op) (auto simp: opOk_def intro: keeps_stakeAdd keeps_minerAbort keeps_stakeReduce keeps_stakeRefund keeps_applyGuard
        keeps_voteMinerPool keeps_changeFundGuardMode keeps_minerFreeze keeps_minerPenalty simp: list_all_append)
  with assms(3) show ?thesis by simp
qed

end

section \<open>Nonces, code and reward marks\<close>

interpretation nonce_frame: miner_frame "\<lambda>w'. wNonce w' = wNonce w \<and> wCodeHash w' = wCodeHash w" for w
  by unfold_locales simp_all

interpretation mark_frame: miner_frame "\<lambda>w'. \<forall>k. length k = 32 \<longrightarrow> w_GetData w' RewardStoreAddr k = w_GetData w RewardStoreAddr k" for w
  by unfold_locales (auto simp: minerSlot_def)

lemma mTransition_nonce:
  "opOk op \<Longrightarrow> mTransition E op w = Some (err, w') \<Longrightarrow> wNonce w' = wNonce w \<and> wCodeHash w' = wCodeHash w"
  by (rule nonce_frame.keeps_mTransition [of w]) simp_all

lemma mTransition_marks:
  "opOk op \<Longrightarrow> mTransition E op w = Some (err, w') \<Longrightarrow> length k = 32 \<Longrightarrow> w_GetData w' RewardStoreAddr k = w_GetData w RewardStoreAddr k"
  using mark_frame.keeps_mTransition [of w w op E err w'] by blast

end
