(* ===== verification/Process_Loop.thy ===== *)
theory Process_Loop
  imports Process_Tx Miner_Untouched
begin

text \<open>
  Two ways to reason about blocks. A property of states that survives balance changes, the slots of
  the miner operations, new contracts and the parameters of the model survives every transaction that
  is not a reward. A property of the loop state that survives a dropped and an executed transaction
  holds after the loop.
\<close>

section \<open>Well-typed transactions\<close>

text \<open>Addresses and hashes are arrays of 32 bytes in the code.\<close>

definition txTyped :: "Transaction \<Rightarrow> bool" where
  "txTyped tx \<longleftrightarrow> pred_option fixed32 (txSource tx) \<and> pred_option fixed32 (txTarget tx) \<and> fixed32 (txHash tx)"

lemma map_sum_Inr: "map_sum id f r = Inr y \<longleftrightarrow> (\<exists>x. r = Inr x \<and> y = f x)"
  by (cases r) auto

lemma parse_addrs:
  assumes "parseMinerOp (messageOf tx) h = Some (Inr op)"
  shows "set (opAddrs op) \<subseteq> set_option (txSource tx) \<union> set_option (txTarget tx) \<and> (\<forall>p. op \<noteq> MinerPenalty p)"
proof -
  have byOp: "set (opAddrs op) \<subseteq> set_option (txSource tx) \<union> set_option (txTarget tx) \<and> (\<forall>p. op \<noteq> MinerPenalty p)"
    if "map_option (map_sum id C) r = Some (Inr op)"
      "\<And>o1. r = Some (Inr o1) \<Longrightarrow> set (opAddrs (C o1)) \<subseteq> set_option (txSource tx) \<union> set_option (txTarget tx) \<and> (\<forall>p. C o1 \<noteq> MinerPenalty p)"
    for C :: "'o \<Rightarrow> mOperation" and r
    using that by (auto simp: map_sum_Inr)
  note parse_defs = messageOf_def parseStakeAdd_def parseMinerAbort_def parseVoteMinerPool_def parseStakeReduce_def
    parseApplyGuard_def parseStakeRefund_def parseChangeFundGuardMode_def
  from assms show ?thesis unfolding parseMinerOp_def
    by (auto split: if_splits elim!: byOp) (auto simp: parse_defs split: if_splits sum.splits option.splits list.splits)
qed

lemma parse_opOk:
  "parseMinerOp (messageOf tx) h = Some (Inr op) \<Longrightarrow> txTyped tx \<Longrightarrow> opOk op"
  using parse_addrs [of tx h op] by (cases "txSource tx"; cases "txTarget tx") (auto simp: txTyped_def opOk_def list_all_iff)

section \<open>Properties of states that transactions keep\<close>

locale tx_frame = miner_frame keeps for keeps :: "world \<Rightarrow> bool" +
  fixes P :: penv
  assumes keeps_new: "keeps w \<Longrightarrow> w_GetCodeHash w c = replicate 32 0 \<Longrightarrow> keeps (w_SetNonce (w_SetCode h w c code) c 1)"
    and keeps_deploy: "keeps w \<Longrightarrow> keeps (tvmWorld (pDeploy P bh tx a gas w))"
    and keeps_call: "keeps w \<Longrightarrow> keeps (tvmWorld (pCall P bh tx a gas w))"
    and keeps_group: "keeps w \<Longrightarrow> keeps (snd (pGroupExec P tx height w))"
begin

lemma keeps_transfer: "keeps w \<Longrightarrow> keeps (w_Transfer w a b n)"
  by (simp add: w_Transfer_def keeps_add keeps_sub)

lemma keeps_runContract:
  assumes "keeps w" and "\<And>gas v. keeps v \<Longrightarrow> keeps (tvmWorld (vm gas v))" and "runContract isCall vm tx s c gas w = Some (ret, left, w')"
  shows "keeps w'"
  using assms by (auto simp: runContract_def transfer_def Let_def keeps_transfer split: option.splits prod.splits bool.splits if_splits)

lemma keeps_contracts:
  assumes "keeps w"
  shows "contractCreate_Transition P bh tx s w = Some (ret, left, w') \<Longrightarrow> keeps w'"
    and "contractCall_Transition P bh tx w = Some (ret, left, w') \<Longrightarrow> keeps w'"
proof -
  assume "contractCreate_Transition P bh tx s w = Some (ret, left, w')"
  then show "keeps w'"
    using assms by (auto simp: contractCreate_Transition_def createContract_def Let_def split: option.splits if_splits
        elim!: keeps_runContract [rotated 2] intro!: keeps_new keeps_deploy)
next
  assume "contractCall_Transition P bh tx w = Some (ret, left, w')"
  then show "keeps w'"
    using assms by (auto simp: contractCall_Transition_def split: option.splits if_splits
        elim!: keeps_runContract [rotated 2] intro!: keeps_call)
qed

lemma keeps_black: "keeps w \<Longrightarrow> blackUpdate_Transition b w = Some (err, w') \<Longrightarrow> keeps w'"
proof -
  have slot: "minerSlot blackStoreAddr k" for k
    by (simp add: minerSlot_def blackStoreAddr_def address_defs Let_def ascii_def of_char_def)
  have "keeps v \<Longrightarrow> keeps (addBlacks v as) \<and> keeps (removeBlacks v as)" for v as
    unfolding addBlacks_def removeBlacks_def by (induction as arbitrary: v) (auto simp: keeps_data keeps_remove slot)
  then show "keeps w \<Longrightarrow> blackUpdate_Transition b w = Some (err, w') \<Longrightarrow> keeps w'"
    by (auto simp: blackUpdate_Transition_def split: if_splits)
qed

lemma keeps_run:
  assumes w: "keeps w" and typed: "txTyped tx" and op: "getOpByType P bh tx w0 = Some (Inr ss)"
    and run: "runTransition P bh tx ss w = Some (ret, gas, w')"
  shows "keeps w'"
proof (cases ss)
  case (TxTransfer target source v)
  with run w show ?thesis
    by (auto simp: plainGas_Some transfer_Transition_def ofOutcome_def keeps_transfer split: option.splits if_splits prod.splits)
next
  case (MinerOperator mop)
  then have "parseMinerOp (messageOf tx) (bhHeight bh) = Some (Inr mop)"
    using op by (auto simp: getOpByType_def Let_def map_sum_Inr split: if_splits option.splits)
  with run MinerOperator w typed show ?thesis
    by (auto simp: plainGas_Some ofOutcome_def dest: keeps_mTransition [OF w parse_opOk] split: option.splits prod.splits)
next
  case GroupOperator
  with run keeps_group [OF w, of tx "bhHeight bh"] show ?thesis
    by (auto simp: plainGas_Some ofOutcome_def split: option.splits prod.splits)
next
  case (BlackUpdateTx b)
  with run show ?thesis by (auto simp: plainGas_Some ofOutcome_def dest: keeps_black [OF w] split: option.splits prod.splits)
qed (use run keeps_contracts [OF w] in \<open>auto simp: contractGas_def split: option.splits prod.splits\<close>)

lemma keeps_apply:
  assumes w: "keeps w" and "txTyped tx" and "\<not> IsReward tx" and run: "applyStateTransition P bh tx w = Some (Inr ret, w')"
  shows "keeps w'"
  using run assms(3)
proof (rule apply_paid)
  fix limit price source w1 w2
  assume w1: "w1 = w_SubBalance w source (limit * price)" and w': "w' = refunded source limit price (cumulativeGasUsed ret) w2"
    and step: "(\<exists>e. getOpByType P bh tx w1 = Some (Inl e) \<and> rErr ret = Some e \<and> w2 = w1 \<and>
        cumulativeGasUsed ret = (if supported tx then intrinsicGas tx else 0)) \<or>
     (\<exists>ss ret1 w3. getOpByType P bh tx w1 = Some (Inr ss) \<and> runTransition P bh tx ss w1 = Some (ret1, cumulativeGasUsed ret, w3) \<and>
        rErr ret = rErr ret1 \<and> w2 = (if rErr ret \<noteq> None then w1 else w3))"
  have "keeps w1" using w w1 keeps_sub by simp
  with step have "keeps w2" using keeps_run [OF \<open>keeps w1\<close> assms(2)] by (auto split: if_splits)
  then show ?thesis using w' by (simp add: refunded_def keeps_add)
qed

end

section \<open>The loop over a block\<close>

text \<open>The loop state after a transaction has been executed.\<close>

definition executedState :: "BlockHeader \<Rightarrow> Transaction \<Rightarrow> result \<Rightarrow> bigint \<Rightarrow> world \<Rightarrow> procState \<Rightarrow> procState" where
  "executedState bh tx ret price w1 s =
    \<lparr>psWorld = (case txSource tx of None \<Rightarrow> w1 | Some source \<Rightarrow> w_SetNonce w1 source (txNonce tx)), psEvicted = psEvicted s,
     psExecuted = psExecuted s @ [tx], psReceipts = psReceipts s @ [newReceipt bh tx ret (length (psExecuted s))],
     psTotalGas = psTotalGas s + bigUint64 (cumulativeGasUsed ret),
     psGasFee = psGasFee s + bigUint64 (cumulativeGasUsed ret * price)\<rparr>"

lemma processTx_stop: "processTx P bh pack i tx s = Some (Inl s') \<Longrightarrow> \<exists>g. s' = s\<lparr>psTotalGas := g\<rparr>"
  by (auto simp: processTx_def Let_def split: if_splits option.splits sum.splits prod.splits intro: exI [of _ "psTotalGas s"])

lemma processTx_next:
  assumes "processTx P bh pack i tx s = Some (Inr s')"
  obtains e where "applyStateTransition P bh tx (psWorld s) = Some (Inl e, psWorld s)" "s' = s\<lparr>psEvicted := psEvicted s @ [txHash tx]\<rparr>"
  | ret w1 price where "applyStateTransition P bh tx (psWorld s) = Some (Inr ret, w1)"
    "psTotalGas s + bigUint64 (cumulativeGasUsed ret) \<le> GasLimitPerBlock" "txGasPrice tx = Some price"
    "s' = executedState bh tx ret price w1 s"
proof (cases "applyStateTransition P bh tx (psWorld s)")
  case (Some r)
  then obtain res w1 where r: "applyStateTransition P bh tx (psWorld s) = Some (res, w1)" by (cases r) auto
  show thesis
  proof (cases res)
    case (Inl e)
    with r assms show thesis using that(1) apply_dropped by (auto simp: processTx_def split: if_splits)
  next
    case (Inr ret)
    with r assms obtain price where "psTotalGas s + bigUint64 (cumulativeGasUsed ret) \<le> GasLimitPerBlock" "txGasPrice tx = Some price"
      "s' = executedState bh tx ret price w1 s"
      by (auto simp: processTx_def executedState_def Let_def not_less split: if_splits option.splits)
    with r Inr show thesis using that(2) by blast
  qed
qed (use assms in \<open>auto simp: processTx_def split: if_splits\<close>)

locale block_loop =
  fixes P :: penv and bh :: BlockHeader and okTx :: "Transaction \<Rightarrow> bool" and inv fin :: "procState \<Rightarrow> bool"
  assumes evict: "inv s \<Longrightarrow> inv (s\<lparr>psEvicted := evs\<rparr>)"
    and exec: "inv s \<Longrightarrow> okTx tx \<Longrightarrow> applyStateTransition P bh tx (psWorld s) = Some (Inr ret, w1) \<Longrightarrow>
      psTotalGas s + bigUint64 (cumulativeGasUsed ret) \<le> GasLimitPerBlock \<Longrightarrow> txGasPrice tx = Some price \<Longrightarrow>
      inv (executedState bh tx ret price w1 s)"
    and stop: "inv s \<Longrightarrow> fin (s\<lparr>psTotalGas := g\<rparr>)"
begin

lemma after_loop:
  assumes "list_all okTx txs" and "inv s" and "processLoop P bh pack i txs s = Some s'"
  shows "fin s'"
  using assms
proof (induction txs arbitrary: i s)
  case Nil
  then show ?case using stop [of s "psTotalGas s"] by simp
next
  case (Cons tx txs)
  then consider s1 where "processTx P bh pack i tx s = Some (Inl s1)" "s' = s1"
    | s1 where "processTx P bh pack i tx s = Some (Inr s1)" "processLoop P bh pack (Suc i) txs s1 = Some s'"
    by (auto split: option.splits sum.splits)
  then show ?case
  proof cases
    case 1
    with processTx_stop stop Cons.prems(2) show ?thesis by blast
  next
    case 2
    from 2(1) have "inv s1"
      by (rule processTx_next) (use Cons.prems evict exec in auto)
    with Cons 2 show ?thesis by simp
  qed
qed

end

lemma process_Some:
  assumes "process P bh txs pack pre w = Some s"
  obtains s0 w2 w3 where "processLoop P bh pack 0 txs (startState w) = Some s0"
    "w2 = payRewards P bh (psGasFee s0) (psWorld s0) \<or> w2 = foundationUpgrade P (payRewards P bh (psGasFee s0) (psWorld s0))"
    "w3 = w2 \<or> pDeployManager P w2 = Some w3" "runProcs (pProcs P) bh w3 = Some (psWorld s)" "s = s0\<lparr>psWorld := psWorld s\<rparr>"
proof -
  from assms obtain s0 where s0: "processLoop P bh pack 0 txs (startState w) = Some s0"
    by (auto simp: process_def split: option.splits)
  define w1 where "w1 = payRewards P bh (psGasFee s0) (psWorld s0)"
  define w2 where "w2 = (if IsZIP005Checkpoint config pre (bhHeight bh) then foundationUpgrade P w1 else w1)"
  from assms s0 obtain w3 z where w3: "(if IsZIP006Checkpoint config pre (bhHeight bh) then pDeployManager P w2 else Some w2) = Some w3"
    "runProcs (pProcs P) bh w3 = Some z" "s = s0\<lparr>psWorld := z\<rparr>"
    unfolding process_def Let_def w2_def w1_def by (auto split: option.splits)
  show thesis by (rule that [OF s0, of w2 w3]) (use w3 in \<open>auto simp: w2_def w1_def split: if_splits\<close>)
qed

section \<open>Chains of blocks\<close>

text \<open>The blocks of a chain, processed one after the other: all executed transactions and the last state.\<close>

fun runChain :: "penv \<Rightarrow> (BlockHeader \<times> Transaction list \<times> bool \<times> u64) list \<Rightarrow> world \<Rightarrow> (Transaction list \<times> world) option" where
  "runChain P [] w = Some ([], w)"
| "runChain P ((bh, txs, pack, pre) # bs) w =
    (case process P bh txs pack pre w of
       None \<Rightarrow> None
     | Some s \<Rightarrow> map_option (\<lambda>(ex, w1). (psExecuted s @ ex, w1)) (runChain P bs (psWorld s)))"

definition nonceSet :: "Transaction \<Rightarrow> world \<Rightarrow> world" where
  "nonceSet tx w = (case txSource tx of None \<Rightarrow> w | Some source \<Rightarrow> w_SetNonce w source (txNonce tx))"

locale chain_inv =
  fixes P :: penv and okTx :: "Transaction \<Rightarrow> bool" and inv :: "Transaction list \<Rightarrow> world \<Rightarrow> bool"
  assumes frame: "miner_frame (inv L)"
    and exec: "inv L w \<Longrightarrow> okTx tx \<Longrightarrow> applyStateTransition P bh tx w = Some (Inr ret, w1) \<Longrightarrow> inv (L @ [tx]) (nonceSet tx w1)"
    and manager: "inv L w \<Longrightarrow> pDeployManager P w = Some w1 \<Longrightarrow> inv L w1"
    and procs: "inv L w \<Longrightarrow> p \<in> set (pProcs P) \<Longrightarrow> p bh w = Some w1 \<Longrightarrow> inv L w1"
begin

lemmas keeps_world = miner_frame.keeps_add [OF frame] miner_frame.keeps_sub [OF frame] miner_frame.keeps_data [OF frame]

lemma after_rewards: "inv L w \<Longrightarrow> inv L (payRewards P bh fee w)" "inv L w \<Longrightarrow> inv L (foundationUpgrade P w)"
  by (simp_all add: payRewards_def foundationUpgrade_def Let_def keeps_world minerSlot_def ascii_def)

lemma after_procs: "inv L w \<Longrightarrow> runProcs ps bh w = Some w' \<Longrightarrow> set ps \<subseteq> set (pProcs P) \<Longrightarrow> inv L w'"
  by (induction ps arbitrary: w) (auto split: option.splits intro: procs)

lemma after_block_loop:
  assumes "list_all okTx txs" and "inv L (psWorld s)" and "psExecuted s = []" and "processLoop P bh pack i txs s = Some s'"
  shows "inv (L @ psExecuted s') (psWorld s')"
proof -
  have "block_loop P bh okTx (\<lambda>s. inv (L @ psExecuted s) (psWorld s)) (\<lambda>s. inv (L @ psExecuted s) (psWorld s))"
    by unfold_locales (auto simp: executedState_def nonceSet_def dest: exec)
  then show ?thesis by (rule block_loop.after_loop) (use assms in auto)
qed

lemma after_process:
  assumes "list_all okTx txs" and "inv L w" and "process P bh txs pack pre w = Some s"
  shows "inv (L @ psExecuted s) (psWorld s)"
  using assms(3)
proof (rule process_Some)
  fix s0 w2 w3
  assume loop: "processLoop P bh pack 0 txs (startState w) = Some s0"
    and w2: "w2 = payRewards P bh (psGasFee s0) (psWorld s0) \<or> w2 = foundationUpgrade P (payRewards P bh (psGasFee s0) (psWorld s0))"
    and w3: "w3 = w2 \<or> pDeployManager P w2 = Some w3"
    and ps: "runProcs (pProcs P) bh w3 = Some (psWorld s)" and s: "s = s0\<lparr>psWorld := psWorld s\<rparr>"
  have ex: "psExecuted s = psExecuted s0" by (subst s) simp
  have "inv (L @ psExecuted s0) (psWorld s0)"
    by (rule after_block_loop [OF assms(1) _ _ loop]) (use assms(2) in \<open>simp_all add: startState_def\<close>)
  then have "inv (L @ psExecuted s0) w2" using w2 after_rewards by auto
  then have "inv (L @ psExecuted s0) w3" using w3 manager by auto
  then show ?thesis using after_procs [OF _ ps] ex by simp
qed

lemma after_chain:
  assumes "list_all (\<lambda>(bh, txs, pack, pre). list_all okTx txs) bs" and "inv L w" and "runChain P bs w = Some (ex, w')"
  shows "inv (L @ ex) w'"
  using assms
proof (induction bs arbitrary: L w ex)
  case (Cons b bs)
  obtain bh txs pack pre where b: "b = (bh, txs, pack, pre)" by (cases b)
  with Cons.prems(3) obtain s ex1 where s: "process P bh txs pack pre w = Some s" "runChain P bs (psWorld s) = Some (ex1, w')"
    "ex = psExecuted s @ ex1"
    by (auto split: option.splits)
  with Cons.prems b have "inv (L @ psExecuted s) (psWorld s)" by (auto intro: after_process)
  then have "inv ((L @ psExecuted s) @ ex1) w'" using Cons.IH [OF _ _ s(2), of "L @ psExecuted s"] Cons.prems(1) by auto
  then show ?case by (simp add: s(3))
qed simp

end

end
