(* ===== verification/Process_Chain.thy ===== *)
theory Process_Chain
  imports Process_Loop
begin

text \<open>
  Two properties of whole chains: the transactions executed for an account carry consecutive nonces,
  and a block is rewarded at most once. Both assume that the virtual machine, the group operations
  and the code that runs after a block leave the nonces of existing accounts and the reward marks
  alone.
\<close>

section \<open>What the parameters leave alone\<close>

definition exists :: "world \<Rightarrow> address \<Rightarrow> bool" where
  "exists w a \<longleftrightarrow> w_GetCodeHash w a \<noteq> replicate 32 0"

definition sameSystem :: "world \<Rightarrow> world \<Rightarrow> bool" where
  "sameSystem w w' \<longleftrightarrow>
    (\<forall>a. exists w a \<longrightarrow> wNonce w' a = wNonce w a \<and> exists w' a) \<and>
    (\<forall>k. length k = 32 \<longrightarrow> w_GetData w' RewardStoreAddr k = w_GetData w RewardStoreAddr k)"

definition envSame :: "penv \<Rightarrow> bool" where
  "envSame P \<longleftrightarrow>
    (\<forall>bh tx a gas w. sameSystem w (tvmWorld (pDeploy P bh tx a gas w)) \<and> sameSystem w (tvmWorld (pCall P bh tx a gas w))) \<and>
    (\<forall>tx h w. sameSystem w (snd (pGroupExec P tx h w))) \<and>
    (\<forall>w w'. pDeployManager P w = Some w' \<longrightarrow> sameSystem w w') \<and>
    (\<forall>p\<in>set (pProcs P). \<forall>bh w w'. p bh w = Some w' \<longrightarrow> sameSystem w w')"

lemma wSetCode_simps [simp]:
  "wNonce (w_SetCode h w c code) = wNonce w" "wCodeHash (w_SetCode h w c code) = (wCodeHash w)(c := h)"
  "w_GetData (w_SetCode h w c code) = w_GetData w" "wBalance (w_SetCode h w c code) = wBalance w"
  "wNonce (w_SetNonce w c n) = (wNonce w)(c := n)"
  by (auto simp: w_SetCode_def w_SetNonce_def w_GetData_def fun_eq_iff)

lemma sameSystem_nonce: "sameSystem w w' \<Longrightarrow> exists w a \<Longrightarrow> wNonce w' a = wNonce w a \<and> exists w' a"
  by (simp add: sameSystem_def)

lemma exists_iff: "exists w a \<longleftrightarrow> wExists w a \<and> wCodeHash w a \<noteq> replicate 32 0"
  by (simp add: exists_def w_GetCodeHash_def)

lemma exists_updates:
  "exists w a \<Longrightarrow> exists (w_SetData w b k v) a" "exists w a \<Longrightarrow> exists (w_AddBalance w b i) a"
  "exists w a \<Longrightarrow> exists (w_SubBalance w b i) a" "exists w a \<Longrightarrow> exists (w_SetNonce w b m) a"
  by (simp_all add: exists_iff)

lemma exists_new: "exists w a \<Longrightarrow> \<not> exists w c \<Longrightarrow> a \<noteq> c \<and> exists (w_SetNonce (w_SetCode h w c code) c m) a"
  by (auto simp: exists_iff)

lemma envSame_keeps:
  assumes "envSame P" and "exists w a"
  shows "wNonce (tvmWorld (pDeploy P bh tx c gas w)) a = wNonce w a \<and> exists (tvmWorld (pDeploy P bh tx c gas w)) a"
    "wNonce (tvmWorld (pCall P bh tx c gas w)) a = wNonce w a \<and> exists (tvmWorld (pCall P bh tx c gas w)) a"
    "wNonce (snd (pGroupExec P tx h w)) a = wNonce w a \<and> exists (snd (pGroupExec P tx h w)) a"
  using assms by (auto simp: envSame_def intro!: sameSystem_nonce)

section \<open>Nonces\<close>

interpretation nonce_tx: tx_frame "\<lambda>w. envSame P \<and> exists w a \<and> wNonce w a = n" P for P a n
proof unfold_locales
  fix w c h code
  assume "envSame P \<and> exists w a \<and> wNonce w a = n" and "w_GetCodeHash w c = replicate 32 0"
  then show "envSame P \<and> exists (w_SetNonce (w_SetCode h w c code) c 1) a \<and> wNonce (w_SetNonce (w_SetCode h w c code) c 1) a = n"
    using exists_new [of w a c] by (auto simp: exists_def)
qed (auto simp: exists_updates envSame_keeps)

text \<open>
  Reward transactions have no source: the hash they are checked against is that of the generated
  transaction, which has none.
\<close>

definition chainTx :: "Transaction \<Rightarrow> bool" where
  "chainTx tx \<longleftrightarrow> txTyped tx \<and> (IsReward tx \<longrightarrow> txSource tx = None)"

definition txsOf :: "address \<Rightarrow> Transaction list \<Rightarrow> Transaction list" where
  "txsOf a L = filter (\<lambda>tx. txSource tx = Some a) L"

definition nonceInv :: "penv \<Rightarrow> address \<Rightarrow> u64 \<Rightarrow> Transaction list \<Rightarrow> world \<Rightarrow> bool" where
  "nonceInv P a n L w \<longleftrightarrow> envSame P \<and> exists w a \<and> wNonce w a = n + of_nat (length (txsOf a L)) \<and>
    map txNonce (txsOf a L) = map (\<lambda>i. n + of_nat (Suc i)) [0..<length (txsOf a L)]"

lemma reward_keeps_nonces:
  assumes "applyStateTransition P bh tx w = Some (Inr ret, w')" and "IsReward tx"
  shows "wNonce w' = wNonce w \<and> (exists w a \<longrightarrow> exists w' a)"
proof -
  have pay: "wNonce (fold (\<lambda>a v. w_AddBalance v a n) as v) = wNonce v" for n as v
    by (induction as arbitrary: v) simp_all
  have pay': "exists v a \<Longrightarrow> exists (fold (\<lambda>a v. w_AddBalance v a n) as v) a" for n as v
    by (induction as arbitrary: v) (simp_all add: exists_updates)
  show ?thesis using assms
    by (rule apply_reward) (auto simp: reward_Transition_def MarkBlockRewarded_def setRewardData_def pay exists_updates pay' split: option.splits if_splits)
qed

lemma apply_nonce_checked:
  assumes "applyStateTransition P bh tx w = Some (Inr ret, w')" and "\<not> IsReward tx" and "txSource tx = Some a"
  shows "txNonce tx = wNonce w a + 1"
  using assms(1,2)
proof (rule apply_paid)
  assume "checkState P w tx (bhHeight bh) = Some None"
  then show ?thesis
    using assms(2,3) by (auto simp: checkState_def validateNonce_def w_GetNonce_def IsReward_def split: option.splits bool.splits if_splits)
qed

lemma nonceInv_exec:
  assumes inv: "nonceInv P a n L w" and tx: "chainTx tx" and run: "applyStateTransition P bh tx w = Some (Inr ret, w1)"
  shows "nonceInv P a n (L @ [tx]) (nonceSet tx w1)"
proof -
  have same: "exists w1 a \<and> wNonce w1 a = wNonce w a"
  proof (cases "IsReward tx")
    case True
    with reward_keeps_nonces [OF run] inv show ?thesis by (simp add: nonceInv_def)
  next
    case False
    have "envSame P \<and> exists w1 a \<and> wNonce w1 a = wNonce w a"
      by (rule nonce_tx.keeps_apply [OF _ _ False run]) (use inv tx in \<open>simp_all add: nonceInv_def chainTx_def\<close>)
    then show ?thesis by simp
  qed
  have "txNonce tx = wNonce w a + 1" if "txSource tx = Some a"
    using apply_nonce_checked [OF run _ that] tx that by (auto simp: chainTx_def)
  with inv same show ?thesis
    by (auto simp: nonceInv_def txsOf_def nonceSet_def exists_updates algebra_simps split: option.splits)
qed

interpretation nonce_chain: chain_inv P chainTx "nonceInv P a n" for P a n
proof (rule chain_inv.intro)
  show "miner_frame (nonceInv P a n L)" for L
    by unfold_locales (auto simp: nonceInv_def exists_updates)
  show "nonceInv P a n L w \<Longrightarrow> chainTx tx \<Longrightarrow> applyStateTransition P bh tx w = Some (Inr ret, w1) \<Longrightarrow>
    nonceInv P a n (L @ [tx]) (nonceSet tx w1)" for L w tx bh ret w1
    by (rule nonceInv_exec)
  show "nonceInv P a n L w \<Longrightarrow> pDeployManager P w = Some w1 \<Longrightarrow> nonceInv P a n L w1" for L w w1
    using sameSystem_nonce [of w w1 a] by (auto simp: nonceInv_def envSame_def)
  show "nonceInv P a n L w \<Longrightarrow> p \<in> set (pProcs P) \<Longrightarrow> p bh w = Some w1 \<Longrightarrow> nonceInv P a n L w1" for L w p bh w1
    using sameSystem_nonce [of w w1 a] by (auto simp: nonceInv_def envSame_def)
qed

section \<open>Reward marks\<close>

interpretation mark_tx: tx_frame
  "\<lambda>w. envSame P \<and> (\<forall>k. length k = 32 \<longrightarrow> w_GetData w RewardStoreAddr k = w_GetData v RewardStoreAddr k)" P for P v
  by unfold_locales (auto simp: envSame_def sameSystem_def minerSlot_def)

text \<open>The blocks rewarded by a list of transactions.\<close>

definition rewarded :: "Transaction list \<Rightarrow> hash list" where
  "rewarded L = map parseRewardBlockHash (filter IsReward L)"

definition rewardInv :: "penv \<Rightarrow> world \<Rightarrow> Transaction list \<Rightarrow> world \<Rightarrow> bool" where
  "rewardInv P v L w \<longleftrightarrow> envSame P \<and> distinct (rewarded L) \<and>
    (\<forall>h. length h = 32 \<longrightarrow> HasRewardedOfBlock h w = (HasRewardedOfBlock h v \<or> h \<in> set (rewarded L))) \<and>
    (\<forall>h\<in>set (rewarded L). \<not> HasRewardedOfBlock h v)"

lemma parseRewardBlockHash_length [simp]: "length (parseRewardBlockHash tx) = 32"
  by (simp add: parseRewardBlockHash_def BytesToHash_def HashLength_def Let_def)

lemma rewarded_snoc: "rewarded (L @ [tx]) = rewarded L @ (if IsReward tx then [parseRewardBlockHash tx] else [])"
  by (simp add: rewarded_def)

lemma nonceSet_data [simp]: "w_GetData (nonceSet tx w) = w_GetData w"
  by (simp add: nonceSet_def split: option.splits)

lemma reward_marks:
  assumes "applyStateTransition P bh tx w = Some (Inr ret, w')" and "IsReward tx"
  shows "\<not> HasRewardedOfBlock (parseRewardBlockHash tx) w \<and>
    HasRewardedOfBlock h w' = (HasRewardedOfBlock h w \<or> h = parseRewardBlockHash tx)"
proof -
  have pay: "w_GetData (fold (\<lambda>a v. w_AddBalance v a n) as v) = w_GetData v" for n as v
    by (induction as arbitrary: v) simp_all
  from assms obtain r where r: "reward_ParseTransaction P tx w = Inr r" "reward_Transition bh tx r w = Some w'" by (rule apply_reward)
  have "reBlockHash r = parseRewardBlockHash tx" "\<not> HasRewardedOfBlock (reBlockHash r) w"
    using r(1) by (auto simp: reward_ParseTransaction_def ParseRewardTransaction_def Let_def
        split: sum.splits prod.splits if_splits list.splits option.splits)
  with r(2) show ?thesis
    by (auto simp: reward_Transition_def MarkBlockRewarded_def setRewardData_def HasRewardedOfBlock_def getRewardData_def pay
        split: option.splits if_splits)
qed

lemma rewardInv_exec:
  assumes inv: "rewardInv P v L w" and tx: "chainTx tx" and run: "applyStateTransition P bh tx w = Some (Inr ret, w1)"
  shows "rewardInv P v (L @ [tx]) (nonceSet tx w1)"
proof (cases "IsReward tx")
  case True
  with reward_marks [OF run] inv show ?thesis
    by (auto simp: rewardInv_def rewarded_snoc) (auto simp: HasRewardedOfBlock_def getRewardData_def)
next
  case False
  have "envSame P \<and> (\<forall>k. length k = 32 \<longrightarrow> w_GetData w1 RewardStoreAddr k = w_GetData w RewardStoreAddr k)"
    by (rule mark_tx.keeps_apply [OF _ _ False run]) (use inv tx in \<open>simp_all add: rewardInv_def chainTx_def\<close>)
  with inv False show ?thesis by (simp add: rewardInv_def rewarded_snoc HasRewardedOfBlock_def getRewardData_def)
qed

interpretation reward_chain: chain_inv P chainTx "rewardInv P v" for P v
proof (rule chain_inv.intro)
  show "miner_frame (rewardInv P v L)" for L
    by unfold_locales (auto simp: rewardInv_def minerSlot_def HasRewardedOfBlock_def getRewardData_def)
  show "rewardInv P v L w \<Longrightarrow> chainTx tx \<Longrightarrow> applyStateTransition P bh tx w = Some (Inr ret, w1) \<Longrightarrow>
    rewardInv P v (L @ [tx]) (nonceSet tx w1)" for L w tx bh ret w1
    by (rule rewardInv_exec)
  show "rewardInv P v L w \<Longrightarrow> pDeployManager P w = Some w1 \<Longrightarrow> rewardInv P v L w1" for L w w1
    by (auto simp: rewardInv_def envSame_def sameSystem_def HasRewardedOfBlock_def getRewardData_def)
  show "rewardInv P v L w \<Longrightarrow> p \<in> set (pProcs P) \<Longrightarrow> p bh w = Some w1 \<Longrightarrow> rewardInv P v L w1" for L w p bh w1
    by (auto simp: rewardInv_def envSame_def sameSystem_def HasRewardedOfBlock_def getRewardData_def)
qed

end
