(* ===== verification/Rewards_Props.thy ===== *)
theory Rewards_Props
  imports Rewards
begin

text \<open>
  The properties of the reward manager: no block mints more than its reward, the whole emission
  stays below the amount set aside for miners, and reward transactions are read back as generated.
\<close>

section \<open>What a block mints\<close>

definition period :: "u64 \<Rightarrow> nat" where "period h = unat h div 10000000"

lemma shift_nat: "unat (drop_bit k (62224000000 :: u64)) = 62224000000 div 2 ^ k"
proof -
  have "unat (drop_bit k (62224000000 :: u64)) = drop_bit k (unat (62224000000 :: u64))" by (rule unat_drop_bit_eq)
  then show ?thesis by (simp only: drop_bit_eq_div) simp
qed

lemma reward_nat:
  "unat (blockRewards h) =
    (if unat h > 120000000 then 0
     else 62224000000 div 2 ^ (unat h div 30000000 + (if unat h \<ge> 10000000 then 2 else 0)))"
proof (cases "unat h > 120000000")
  case False
  let ?k = "unat h div 30000000 + (if unat h \<ge> 10000000 then 2 else 0)"
  have "unat h div 30000000 \<le> 120000000 div 30000000" using False by (intro div_le_mono) simp
  then have k: "unat h div 30000000 \<le> 4" by simp
  have ge: "1 \<le> h div 10000000 \<longleftrightarrow> 10000000 \<le> unat h"
    by (simp add: word_le_iff_unat unat_div) linarith
  have "unat (h div 30000000 + (if 1 \<le> h div 10000000 then 2 else 0)) = ?k"
    using k by (auto simp: ge unat_word_ariths unat_div)
  moreover have "blockRewards h = drop_bit (unat (h div 30000000 + (if 1 \<le> h div 10000000 then 2 else 0))) 62224000000"
    using False by (simp add: blockRewards_def reward_consts Let_def word_less_iff_unat)
  ultimately show ?thesis using False by (simp only: shift_nat if_False)
qed (simp add: blockRewards_def reward_consts word_less_iff_unat)

lemma reward_le: "unat (blockRewards h) \<le> 62224000000"
  unfolding reward_nat by (auto intro: div_le_dividend)

lemma period_le: "blockRewards h \<noteq> 0 \<Longrightarrow> period h \<le> 12"
proof -
  assume "blockRewards h \<noteq> 0"
  then have "unat h \<le> 120000000" using reward_nat [of h] by (auto simp: unat_eq_0 split: if_splits)
  then have "unat h div 10000000 \<le> 120000000 div 10000000" by (intro div_le_mono)
  then show ?thesis by (simp add: period_def)
qed

lemma mul_div_nat:
  fixes x y :: u64
  assumes "unat x * unat y < 2 ^ 64"
  shows "unat (x * y div z) = unat x * unat y div unat z"
  using assms by (simp add: unat_div unat_word_ariths)

lemma weight_nat:
  assumes "period h \<le> 12"
  shows "unat (440 + h div 10000000 * 80) = 440 + 80 * period h" and "unat (6460 - h div 10000000 * 80) = 6460 - 80 * period h"
    and "\<not> 6460 - h div 10000000 * 80 > (7000 :: u64)"
proof -
  have p: "unat (h div 10000000) = period h" by (simp add: period_def unat_div)
  have m: "unat (h div 10000000 * 80) = 80 * period h" using assms p by (simp add: unat_word_ariths)
  then show "unat (440 + h div 10000000 * 80) = 440 + 80 * period h" using assms by (simp add: unat_word_ariths)
  have "h div 10000000 * 80 \<le> 6460" using assms m by (simp add: word_le_iff_unat)
  then show w: "unat (6460 - h div 10000000 * 80) = 6460 - 80 * period h" using m by (simp add: unat_sub_no_borrow)
  show "\<not> 6460 - h div 10000000 * 80 > (7000 :: u64)" using w by (simp add: word_less_iff_unat)
qed

lemma shares_nat:
  "unat (userNodesRewards h) = unat (blockRewards h) * 100 div 7000"
  "unat (daemonNodesRewards h) = unat (blockRewards h) * (440 + 80 * period h) div 7000 \<or> blockRewards h = 0"
  "unat (minerNodesRewards h) = unat (blockRewards h) * (6460 - 80 * period h) div 7000"
proof -
  have r: "unat (blockRewards h) * x < 2 ^ 64" if "x \<le> 7000" for x
    using mult_le_mono [OF reward_le [of h] that] by simp
  show "unat (userNodesRewards h) = unat (blockRewards h) * 100 div 7000"
    using r [of 100] by (simp add: userNodesRewards_def Let_def reward_consts mul_div_nat)
  show "unat (daemonNodesRewards h) = unat (blockRewards h) * (440 + 80 * period h) div 7000 \<or> blockRewards h = 0"
    using weight_nat(1) [OF period_le] r [of "440 + 80 * period h"] period_le [of h]
    by (auto simp: daemonNodesRewards_def Let_def reward_consts mul_div_nat)
  show "unat (minerNodesRewards h) = unat (blockRewards h) * (6460 - 80 * period h) div 7000"
    using weight_nat(2,3) [OF period_le] r [of "6460 - 80 * period h"]
    by (auto simp: minerNodesRewards_def Let_def reward_consts mul_div_nat)
qed

lemma miner_split:
  "unat (calculateCastorRewards h) = unat (minerNodesRewards h) * 8 div 10"
  "unat (calculatePackedRewards h) = unat (minerNodesRewards h) div 10"
  "unat (calculateVerifyRewards h) = unat (minerNodesRewards h) div 10"
proof -
  have "unat (minerNodesRewards h) \<le> unat (blockRewards h) * 6460" unfolding shares_nat
    by (rule order_trans [OF div_le_dividend]) simp
  then have "unat (minerNodesRewards h) \<le> 62224000000 * 6460" using reward_le [of h] by linarith
  then have "unat (minerNodesRewards h) * unat (8 :: u64) < 2 ^ 64" by simp
  from mul_div_nat [OF this, of 10] show "unat (calculateCastorRewards h) = unat (minerNodesRewards h) * 8 div 10"
    by (simp only: calculateCastorRewards_def reward_consts) simp
  show "unat (calculatePackedRewards h) = unat (minerNodesRewards h) div 10"
    "unat (calculateVerifyRewards h) = unat (minerNodesRewards h) div 10"
    by (simp_all add: calculatePackedRewards_def calculateVerifyRewards_def reward_consts unat_div)
qed

lemma miner_split_le:
  "unat (calculateCastorRewards h) + unat (calculatePackedRewards h) + unat (calculateVerifyRewards h) \<le> unat (minerNodesRewards h)"
proof -
  have split: "a + b + c \<le> m" if "a * 10 \<le> m * 8" "b * 10 \<le> m" "c * 10 \<le> m" for a b c m :: nat using that by linarith
  show ?thesis unfolding miner_split by (rule split) (rule div_times_less_eq_dividend)+
qed

lemma block_shares:
  "unat (calculateCastorRewards h) + unat (calculatePackedRewards h) + unat (calculateVerifyRewards h) +
   unat (daemonNodesRewards h) + unat (userNodesRewards h) \<le> unat (blockRewards h)"
proof (cases "blockRewards h = 0")
  case True
  then have "minerNodesRewards h = 0" "daemonNodesRewards h = 0" "userNodesRewards h = 0"
    by (simp_all add: minerNodesRewards_def daemonNodesRewards_def userNodesRewards_def)
  then show ?thesis by (simp add: miner_split)
next
  case False
  let ?r = "unat (blockRewards h)" and ?p = "period h"
  have "6460 - 80 * ?p + (440 + 80 * ?p) + 100 = 7000" using period_le [OF False] by simp
  then have "?r * (6460 - 80 * ?p) + ?r * (440 + 80 * ?p) + ?r * 100 = ?r * 7000"
    by (simp only: distrib_left [symmetric])
  moreover have "unat (minerNodesRewards h) * 7000 \<le> ?r * (6460 - 80 * ?p)" "unat (daemonNodesRewards h) * 7000 \<le> ?r * (440 + 80 * ?p)"
    "unat (userNodesRewards h) * 7000 \<le> ?r * 100"
    using shares_nat [of h] False by (metis div_times_less_eq_dividend)+
  ultimately have "(unat (minerNodesRewards h) + unat (daemonNodesRewards h) + unat (userNodesRewards h)) * 7000 \<le> ?r * 7000"
    unfolding add_mult_distrib by linarith
  then have "unat (minerNodesRewards h) + unat (daemonNodesRewards h) + unat (userNodesRewards h) \<le> ?r" by simp
  then show ?thesis using miner_split_le [of h] by linarith
qed


section \<open>The emission\<close>

definition emission :: "nat \<Rightarrow> nat" where
  "emission n = (\<Sum>h<n. unat (blockRewards (of_nat h)))"

definition rewardAt :: "nat \<Rightarrow> nat" where
  "rewardAt h = (if h > 120000000 then 0 else 62224000000 div 2 ^ (h div 30000000 + (if h \<ge> 10000000 then 2 else 0)))"

lemma rewardAt_eq: "h < 2 ^ 64 \<Longrightarrow> unat (blockRewards (of_nat h)) = rewardAt h"
  unfolding reward_nat rewardAt_def by (simp add: unsigned_of_nat take_bit_nat_eq_self)

lemma rewardAt_const:
  "(\<Sum>h\<in>{0..<10000000}. rewardAt h) = 622240000000000000"
  "(\<Sum>h\<in>{10000000..<30000000}. rewardAt h) = 311120000000000000"
  "(\<Sum>h\<in>{30000000..<60000000}. rewardAt h) = 233340000000000000"
  "(\<Sum>h\<in>{60000000..<90000000}. rewardAt h) = 116670000000000000"
  "(\<Sum>h\<in>{90000000..<120000000}. rewardAt h) = 58335000000000000"
  "(\<Sum>h\<in>{120000000..<120000001}. rewardAt h) = 972250000"
proof -
  have const: "(\<Sum>h\<in>{a..<b}. rewardAt h) = (b - a) * c" if "\<And>h. a \<le> h \<Longrightarrow> h < b \<Longrightarrow> rewardAt h = c" for a b c
    using that by simp
  have q: "h div 30000000 = k" if "k * 30000000 \<le> h" "h < Suc k * 30000000" for h k :: nat
    using that by (intro div_nat_eqI) (simp_all add: mult.commute)
  show "(\<Sum>h\<in>{0..<10000000}. rewardAt h) = 622240000000000000"
    by (subst const [of _ _ 62224000000]) (simp_all add: rewardAt_def)
  show "(\<Sum>h\<in>{10000000..<30000000}. rewardAt h) = 311120000000000000"
    by (subst const [of _ _ 15556000000]) (simp_all add: rewardAt_def)
  show "(\<Sum>h\<in>{30000000..<60000000}. rewardAt h) = 233340000000000000"
    by (subst const [of _ _ 7778000000]) (simp_all add: rewardAt_def q [of 1])
  show "(\<Sum>h\<in>{60000000..<90000000}. rewardAt h) = 116670000000000000"
    by (subst const [of _ _ 3889000000]) (simp_all add: rewardAt_def q [of 2])
  show "(\<Sum>h\<in>{90000000..<120000000}. rewardAt h) = 58335000000000000"
    by (subst const [of _ _ 1944500000]) (simp_all add: rewardAt_def q [of 3])
  show "(\<Sum>h\<in>{120000000..<120000001}. rewardAt h) = 972250000"
    by (subst const [of _ _ 972250000]) (simp_all add: rewardAt_def q [of 4])
qed

lemma rewardAt_total: "(\<Sum>h<120000001. rewardAt h) = 1341705000972250000"
proof -
  have cat: "(\<Sum>h\<in>{0..<b}. rewardAt h) + (\<Sum>h\<in>{b..<c}. rewardAt h) = (\<Sum>h\<in>{0..<c}. rewardAt h)" if "b \<le> c" for b c
    using that by (simp add: sum.atLeastLessThan_concat)
  show ?thesis unfolding lessThan_atLeast0
    using rewardAt_const cat [of 10000000 30000000] cat [of 30000000 60000000] cat [of 60000000 90000000]
      cat [of 90000000 120000000] cat [of 120000000 120000001] by simp
qed

text \<open>
  The emission (C30): the block rewards of all heights below any bound add up to at most
  \<open>1341705000972250000\<close> units, which is less than the tokens set aside for miners, and past the last
  rewarded height they add up to exactly that.
\<close>

theorem emission_bounded:
  assumes "n \<le> 2 ^ 64"
  shows "emission n \<le> 1341705000972250000 \<and> emission n < unat tokensOfMiners \<and>
    (120000000 < n \<longrightarrow> emission n = 1341705000972250000)"
proof -
  have e: "emission n = (\<Sum>h<n. rewardAt h)"
    unfolding emission_def using assms by (intro sum.cong) (auto simp: rewardAt_eq)
  have exact: "emission n = 1341705000972250000" if "120000000 < n"
  proof -
    have "(\<Sum>h<n. rewardAt h) = (\<Sum>h<120000001. rewardAt h)"
      using that by (intro sum.mono_neutral_right) (auto simp: rewardAt_def)
    then show ?thesis using e rewardAt_total by simp
  qed
  have le: "emission n \<le> 1341705000972250000"
  proof (cases "120000000 < n")
    case False
    then have "(\<Sum>h<n. rewardAt h) \<le> (\<Sum>h<120000001. rewardAt h)" by (intro sum_mono2) auto
    then show ?thesis using e rewardAt_total by simp
  qed (simp add: exact)
  then show ?thesis using exact by (auto simp: tokensOfMiners_def ZVC_def)
qed

theorem emission_bounded_witness: "emission 120000001 = 1341705000972250000"
  using emission_bounded [of 120000001] by simp

section \<open>Reward transactions\<close>

lemma goRead_exact [simp]: "length a = length buf \<Longrightarrow> a \<noteq> [] \<Longrightarrow> goRead buf (a @ r) = Some (a, r)"
  by (simp add: goRead_def)

lemma readIdxs_encoded:
  "length buf = 2 \<Longrightarrow> readIdxs buf (concat (map UInt16ToByte xs)) = xs"
proof (induction xs arbitrary: buf)
  case Nil
  show ?case by (simp add: readIdxs.simps [of buf "[]"] goRead_def)
next
  case (Cons x xs)
  have len: "length (UInt16ToByte x) = 2" "UInt16ToByte x \<noteq> []" by (simp_all add: UInt16ToByte_def)
  have "readIdxs buf (UInt16ToByte x @ concat (map UInt16ToByte xs)) = x # readIdxs (UInt16ToByte x) (concat (map UInt16ToByte xs))"
    using Cons.prems len by (subst readIdxs.simps) simp
  with Cons.IH [OF len(1)] show ?case by simp
qed

lemma pickTargets_ok:
  "length members < 2 ^ 16 \<Longrightarrow> list_all (\<lambda>i. unat i < length members) idxs \<Longrightarrow>
    pickTargets members idxs = Inr (map (\<lambda>i. members ! unat i) idxs)"
  by (induction idxs) (auto simp: word_le_iff_unat unsigned_of_nat take_bit_nat_eq_self)

lemma pickTargets_Inr:
  "pickTargets members idxs = Inr ids \<Longrightarrow> length ids = length idxs \<and> set ids \<subseteq> set members"
proof (induction idxs arbitrary: ids)
  case (Cons i idxs)
  then obtain ids' where i: "\<not> of_nat (length members) \<le> i" and p: "pickTargets members idxs = Inr ids'"
    and ids: "ids = members ! unat i # ids'" by (auto split: if_splits sum.splits)
  have "unat i < unat (of_nat (length members) :: u16)" using i by (simp add: word_le_iff_unat)
  also have "\<dots> \<le> length members" by (simp add: unsigned_of_nat take_bit_eq_mod)
  finally show ?case using Cons.IH [OF p] ids by simp
qed simp

text \<open>
  Reward transactions (C32): for a non-empty list of target indexes, the generated transaction is
  read back as the group, the members at these indexes, the block and the pack fee, and what it pays
  all targets together is at most the total; an empty list is an error.
\<close>

theorem reward_roundtrip:
  assumes "fixed32 blockHash" and "fixed32 gSeed" and "GetGroupBySeed gSeed = Some members" and "length members < 2 ^ 16"
    and "list_all (\<lambda>i. unat (ucast i :: u16) < length members) ids"
  shows "(ids = [] \<longrightarrow> (\<exists>e. GenerateReward sha ids blockHash gSeed totalVal packFee = Inl e)) \<and>
    (ids \<noteq> [] \<longrightarrow> (\<exists>rw tx v. GenerateReward sha ids blockHash gSeed totalVal packFee = Inr (rw, tx) \<and>
       ParseRewardTransaction GetGroupBySeed tx =
         Inr (gSeed, map (\<lambda>i. members ! unat (ucast i :: u16)) ids, blockHash, uint packFee) \<and>
       txValue tx = Some v \<and> (length ids < 2 ^ 64 \<longrightarrow> int (length ids) * v \<le> uint totalVal)))"
proof (cases "ids = []")
  case False
  let ?idxs = "map ucast ids :: u16 list"
  obtain rw tx where gen: "GenerateReward sha ids blockHash gSeed totalVal packFee = Inr (rw, tx)"
    and tx: "txData tx = blockHash" "txValue tx = Some (uint (totalVal div of_nat (length ids)))"
      "txExtraData tx = rewardVersion # gSeed @ Uint64ToByte packFee @ concat (map UInt16ToByte ?idxs)"
    using False by (simp add: GenerateReward_def Let_def comp_def)
  have seed: "length gSeed = length (replicate HashLength (0 :: byte))" "gSeed \<noteq> []"
    using assms(2) by (auto simp: fixed32_def HashLength_def)
  have pick: "pickTargets members ?idxs = Inr (map (\<lambda>i. members ! unat i) ?idxs)"
    by (rule pickTargets_ok [OF assms(4)]) (use assms(5) in \<open>simp add: list_all_iff\<close>)
  have parse: "ParseRewardTransaction GetGroupBySeed tx =
      Inr (gSeed, map (\<lambda>i. members ! unat (ucast i :: u16)) ids, blockHash, uint packFee)"
    using seed pick assms(1-3) readIdxs_encoded [of "replicate 2 0" ?idxs]
    by (simp add: ParseRewardTransaction_def tx parseRewardBlockHash_def comp_def)
  have "int (length ids) * uint (totalVal div of_nat (length ids)) \<le> uint totalVal" if "length ids < 2 ^ 64"
  proof -
    have "uint (totalVal div of_nat (length ids)) = uint totalVal div int (length ids)"
      using that by (simp add: uint_div unsigned_of_nat take_bit_nat_eq_self)
    have "length ids > 0" using False by simp
    then show ?thesis unfolding \<open>uint (totalVal div of_nat (length ids)) = uint totalVal div int (length ids)\<close>
      using pos_mod_sign [of "int (length ids)" "uint totalVal"] by (simp add: minus_mod_eq_mult_div [symmetric])
  qed
  then show ?thesis using False gen parse tx(2) by auto
qed (simp add: GenerateReward_def)

theorem reward_roundtrip_witness:
  "\<exists>rw tx. GenerateReward (\<lambda>b. b) [1, 0] (numAddress 7) (numAddress 8) 1001 30 = Inr (rw, tx) \<and>
     ParseRewardTransaction (\<lambda>g. if g = numAddress 8 then Some [[5], [6]] else None) tx =
       Inr (numAddress 8, [[6], [5]], numAddress 7, 30)"
  using reward_roundtrip [of "numAddress 7" "numAddress 8" "\<lambda>g. if g = numAddress 8 then Some [[5], [6]] else None"
      "[[5], [6]]" "[1, 0]" "\<lambda>b. b" 1001 30]
  by (auto simp: numAddress_def)

end
