(* ===== verification/Process_Value.thy ===== *)
theory Process_Value
  imports Process_Loop Rewards_Props
begin

text \<open>
  Where the coins of a block come from and go to. The worth of a set of accounts, stakes and frozen
  value included, falls by exactly the gas fees of the executed transactions, and paying the rewards
  of the block raises it by at most the block reward over what it was before.
\<close>

section \<open>Changes of the worth\<close>

lemma ledgerOf_balance:
  assumes "w_GetData w' = w_GetData w"
  shows "ledgerOf E w' = (ledgerOf E w)\<lparr>lBal := wBalance w'\<rparr>"
proof -
  note obs = observers_cong [of w' w, OF fun_cong [OF fun_cong [OF assms]]]
  have "minerStake E w' = minerStake E w" "detailVal E w' = detailVal E w"
    by (auto simp: fun_eq_iff minerStake_def detailVal_def obs)
  then show ?thesis by (simp add: ledgerOf_def cong: if_cong)
qed

lemma valueOf_bal:
  "valueOf A (l\<lparr>lBal := f\<rparr>) = (\<Sum>a\<in>A. f a) + int (lockedVal A l)"
  by (simp add: valueOf_def lockedVal_def)

lemma poolInv_data:
  assumes "w_GetData w' = w_GetData w"
  shows "poolInv E w' = poolInv E w"
proof -
  have "quiet E w w'" "quiet E w' w"
    using observers_cong [of w' w, OF fun_cong [OF fun_cong [OF assms]]] by (simp_all add: quiet_def)
  then show ?thesis using quiet_inv by blast
qed

lemma valueInv_same:
  assumes "w_GetData w' = w_GetData w" and "wBalance w' = wBalance w"
  shows "valueInv E A V w' = valueInv E A V w"
proof -
  have "ledgerOf E w' = ledgerOf E w" using ledgerOf_balance [OF assms(1), of E] assms(2) by (simp add: ledgerOf_def)
  then show ?thesis using poolInv_data [OF assms(1), of E] assms(2) by (simp add: valueInv_def)
qed

lemma valueInv_balance:
  assumes "finite A" and "a \<in> A" and "valueInv E A V w" and "0 \<le> wBalance w a + n"
  shows "valueInv E A (V + n) (w_AddBalance w a n)"
proof -
  have d: "w_GetData (w_AddBalance w a n) = w_GetData w" by simp
  have "(\<Sum>x\<in>A. wBalance (w_AddBalance w a n) x) = (\<Sum>x\<in>A. wBalance w x) + n"
    unfolding wBalance_AddBalance by (rule coins_update [OF assms(1,2)])
  then have "valueOf A (ledgerOf E (w_AddBalance w a n)) = valueOf A (ledgerOf E w) + n"
    unfolding ledgerOf_balance [OF d] valueOf_bal by (simp add: valueOf_def)
  then show ?thesis using assms poolInv_data [OF d, of E] by (simp add: valueInv_def)
qed

lemma w_SubBalance_Add: "w_SubBalance w a n = w_AddBalance w a (- n)"
  by (simp add: w_SubBalance_def w_AddBalance_def)

lemma valueInv_sub:
  "finite A \<Longrightarrow> a \<in> A \<Longrightarrow> valueInv E A V w \<Longrightarrow> n \<le> wBalance w a \<Longrightarrow> valueInv E A (V - n) (w_SubBalance w a n)"
  using valueInv_balance [of A a E V w "- n"] by (simp add: w_SubBalance_Add)

lemma valueInv_nonneg: "valueInv E A V w \<Longrightarrow> a \<in> A \<Longrightarrow> 0 \<le> wBalance w a"
  by (simp add: valueInv_def)

lemma valueInv_transfer:
  assumes "finite A" and "a \<in> A" and "b \<in> A" and "valueInv E A V w" and "n \<le> wBalance w a"
  shows "valueInv E A V (w_Transfer w a b n)"
proof (cases "n \<le> 0")
  case False
  have sub: "valueInv E A (V - n) (w_SubBalance w a n)" using assms valueInv_sub by blast
  have "valueInv E A (V - n + n) (w_AddBalance (w_SubBalance w a n) b n)"
    by (rule valueInv_balance [OF assms(1,3) sub]) (use valueInv_nonneg [OF sub assms(3)] False in simp)
  then show ?thesis using False by (simp add: w_Transfer_def)
qed (use assms in \<open>simp add: w_Transfer_def\<close>)

lemma valueInv_black:
  assumes "valueInv E A V w" and "blackUpdate_Transition b w = Some (err, w')"
  shows "valueInv E A V w'"
proof -
  have keys: "genKey a \<noteq> getMinerKey t" "genKey a \<noteq> getDetailKey s t r" "genKey a \<noteq> KeyPoolProposalTotalStake"
    "genKey a \<noteq> poolKey MinerTypeProposal s" for a t s r
    by (auto simp: genKey_def blackPrefix_def getMinerKey_def getDetailKey_def poolKey_def getPoolKey_def key_defs IsProposalRole_def)
  have one: "valueInv E A V (w_SetData v c (genKey a) x)" if "valueInv E A V v" for v c a x
  proof -
    have q: "quiet E v (w_SetData v c (genKey a) x)" by (simp add: quiet_def keys)
    have "sameDetails E v (w_SetData v c (genKey a) x)" by (rule sameDetails_SetData) (rule keys)
    then have "ledgerOf E (w_SetData v c (genKey a) x) = ledgerOf E v" using quiet_sameStakes [OF q] by (rule sameLedger)
    then show ?thesis using that quiet_inv [OF q] by (simp add: valueInv_def)
  qed
  have "valueInv E A V v \<Longrightarrow> valueInv E A V (addBlacks v as) \<and> valueInv E A V (removeBlacks v as)" for v as
    unfolding addBlacks_def removeBlacks_def w_RemoveData_def using one by (induction as arbitrary: v) auto
  with assms show ?thesis by (auto simp: blackUpdate_Transition_def split: if_splits)
qed

section \<open>One transaction\<close>

text \<open>Successful runs of the virtual machine and group operations move coins within the accounts only.\<close>

definition envValue :: "penv \<Rightarrow> address set \<Rightarrow> bool" where
  "envValue P A \<longleftrightarrow>
    (\<forall>V w. valueInv (pMiner P) A V w \<longrightarrow>
      (\<forall>bh tx a gas. (tvmError (pDeploy P bh tx a gas w) = None \<longrightarrow> valueInv (pMiner P) A V (tvmWorld (pDeploy P bh tx a gas w))) \<and>
         (tvmError (pCall P bh tx a gas w) = None \<longrightarrow> valueInv (pMiner P) A V (tvmWorld (pCall P bh tx a gas w)))) \<and>
      (\<forall>tx h. fst (pGroupExec P tx h w) = None \<longrightarrow> valueInv (pMiner P) A V (snd (pGroupExec P tx h w))))"

text \<open>The accounts a transaction names, that of a new contract included, are among those counted.\<close>

definition txWithin :: "penv \<Rightarrow> address set \<Rightarrow> Transaction \<Rightarrow> bool" where
  "txWithin P A tx \<longleftrightarrow> pred_option (\<lambda>a. fixed32 a \<and> a \<in> A) (txSource tx) \<and> pred_option (\<lambda>a. fixed32 a \<and> a \<in> A) (txTarget tx) \<and>
    (txType tx = TransactionTypeContractCreate \<longrightarrow>
      pred_option (\<lambda>a. BytesToAddress (pSha256 P (a @ Uint64ToByte (txNonce tx))) \<in> A) (txSource tx))"

lemma runContract_value:
  assumes "finite A" and "s \<in> A" and "c \<in> A" and inv: "valueInv E A V w"
    and vm: "\<And>v. valueInv E A V v \<Longrightarrow> tvmError (vm gas v) = None \<Longrightarrow> valueInv E A V (tvmWorld (vm gas v))"
    and run: "runContract isCall vm tx s c gas w = Some (ret, left, w')" and ok: "rErr ret = None"
  shows "valueInv E A V w'"
proof -
  from run ok obtain n w1 where t: "transfer w s c n = (True, w1)" and "tvmError (vm gas w1) = None" and "w' = tvmWorld (vm gas w1)"
    by (auto simp: runContract_def setError_def Let_def split: option.splits prod.splits bool.splits)
  moreover have "valueInv E A V w1"
    using t inv valueInv_transfer [OF assms(1-3) inv, of n]
    by (auto simp: transfer_def w_CanTransfer_def w_GetBalance_def split: if_splits)
  ultimately show ?thesis using vm by simp
qed

lemma mTransition_value:
  assumes "codecsOk E" and "finite A" and "V < 2 ^ 64" and "txWithin P A tx" and "parseMinerOp (messageOf tx) h = Some (Inr op)"
    and "valueInv E A V w" and "mTransition E op w = Some (None, w')"
  shows "valueInv E A V w'"
proof (rule valueInv_step [OF assms(1-3) _ assms(6,7)])
  show "valueOp A op"
    using parse_addrs [OF assms(5)] assms(4)
    by (cases "txSource tx"; cases "txTarget tx") (auto simp: valueOp_def opOk_def list_all_iff txWithin_def)
qed

lemma contracts_value:
  assumes A: "finite A" and env: "envValue P A" and within: "txWithin P A tx" and inv: "valueInv (pMiner P) A V w" and ok: "rErr ret = None"
  shows "txType tx = TransactionTypeContractCreate \<Longrightarrow> txSource tx = Some s \<Longrightarrow>
      contractCreate_Transition P bh tx s w = Some (ret, left, w') \<Longrightarrow> valueInv (pMiner P) A V w'"
    and "contractCall_Transition P bh tx w = Some (ret, left, w') \<Longrightarrow> valueInv (pMiner P) A V w'"
proof -
  assume "txType tx = TransactionTypeContractCreate" and src: "txSource tx = Some s"
    and run: "contractCreate_Transition P bh tx s w = Some (ret, left, w')"
  let ?c = "BytesToAddress (pSha256 P (s @ Uint64ToByte (txNonce tx)))"
  let ?w1 = "w_SetNonce (w_SetCode (pCodeHash P (txData tx)) w ?c (txData tx)) ?c 1"
  have in_A: "s \<in> A" "?c \<in> A" using within src \<open>txType tx = _\<close> by (simp_all add: txWithin_def)
  from run ok obtain gas ret1 where run1: "runContract False (pDeploy P bh tx ?c) tx s ?c gas ?w1 = Some (ret1, left, w')" and "rErr ret1 = None"
    by (auto simp: contractCreate_Transition_def createContract_def Let_def setError_def split: option.splits if_splits)
  have "valueInv (pMiner P) A V ?w1 = valueInv (pMiner P) A V w"
    by (rule valueInv_same) (simp_all add: w_SetCode_def w_SetNonce_def w_GetData_def fun_eq_iff)
  then have "valueInv (pMiner P) A V ?w1" using inv by simp
  from A in_A this _ run1 \<open>rErr ret1 = None\<close> show "valueInv (pMiner P) A V w'"
    by (rule runContract_value) (use env in \<open>simp add: envValue_def\<close>)
next
  assume "contractCall_Transition P bh tx w = Some (ret, left, w')"
  with ok obtain gas s c where run: "runContract True (pCall P bh tx c) tx s c gas w = Some (ret, left, w')" and "txSource tx = Some s" "txTarget tx = Some c"
    by (auto simp: contractCall_Transition_def setError_def split: option.splits if_splits)
  then have "s \<in> A" "c \<in> A" using within by (simp_all add: txWithin_def)
  from A this inv _ run ok show "valueInv (pMiner P) A V w'"
    by (rule runContract_value) (use env in \<open>simp add: envValue_def\<close>)
qed

lemma ofOutcome_ok:
  assumes "ofOutcome o1 = (ret, w')" and "rErr ret = None"
  shows "o1 = (None, w')"
proof (cases o1)
  case (Pair err v)
  with assms show ?thesis by (cases err) (auto simp: ofOutcome_def setError_def)
qed

lemma getOpByType_cases:
  assumes "getOpByType P bh tx w = Some (Inr ss)"
  shows "case ss of
      TxTransfer target source v \<Rightarrow> txTarget tx = Some target \<and> txSource tx = Some source
    | ContractCreator source \<Rightarrow> txType tx = TransactionTypeContractCreate \<and> txSource tx = Some source
    | MinerOperator op \<Rightarrow> parseMinerOp (messageOf tx) (bhHeight bh) = Some (Inr op)
    | _ \<Rightarrow> True"
  using assms by (auto simp: getOpByType_def Let_def map_sum_Inr split: if_splits option.splits)

lemma run_value:
  assumes E: "codecsOk (pMiner P)" and A: "finite A" and V: "V < 2 ^ 64" and env: "envValue P A" and within: "txWithin P A tx"
    and op: "getOpByType P bh tx w0 = Some (Inr ss)" and run: "runTransition P bh tx ss w = Some (ret, gas, w')"
    and ok: "rErr ret = None" and inv: "valueInv (pMiner P) A V w"
  shows "valueInv (pMiner P) A V w'"
proof -
  have plain: "r = Some (None, w')" if "plainGas tx r = Some (ret, gas, w')" for r
    using that ok by (auto simp: plainGas_Some dest: ofOutcome_ok)
  show ?thesis
  proof (cases ss)
    case (TxTransfer target source v)
    then have "target \<in> A" "source \<in> A"
      using getOpByType_cases [OF op] within by (auto simp: txWithin_def)
    with plain [of "transfer_Transition target source v w"] run TxTransfer inv show ?thesis
      by (auto simp: transfer_Transition_def w_CanTransfer_def w_GetBalance_def split: option.splits if_splits
          intro: valueInv_transfer [OF A])
  next
    case (ContractCreator source)
    then have "txType tx = TransactionTypeContractCreate" "txSource tx = Some source"
      using getOpByType_cases [OF op] by auto
    with ContractCreator run show ?thesis
      using contracts_value(1) [OF A env within inv ok] by (auto simp: contractGas_def split: option.splits prod.splits)
  next
    case ContractCaller
    with run show ?thesis
      using contracts_value(2) [OF A env within inv ok] by (auto simp: contractGas_def split: option.splits prod.splits)
  next
    case (MinerOperator mop)
    then have "parseMinerOp (messageOf tx) (bhHeight bh) = Some (Inr mop)"
      using getOpByType_cases [OF op] by auto
    then show ?thesis using plain run MinerOperator by (auto intro: mTransition_value [OF E A V within _ inv])
  next
    case GroupOperator
    with plain [of "case pGroupExec P tx (bhHeight bh) w of (None, w1) \<Rightarrow> succeeds w1 | (Some e, w1) \<Rightarrow> fails e RSFail w1"] run
    have "fst (pGroupExec P tx (bhHeight bh) w) = None" "snd (pGroupExec P tx (bhHeight bh) w) = w'"
      by (auto split: option.splits prod.splits)
    then show ?thesis using env inv by (auto simp: envValue_def)
  next
    case (BlackUpdateTx b)
    then show ?thesis using plain run by (auto intro: valueInv_black [OF inv])
  qed
qed

lemma stateValidate_gas:
  assumes "checkState P w tx h = Some None" and "txGasLimit tx = Some limit" and "txGasPrice tx = Some price" and "txSource tx = Some s"
  shows "limit * price \<le> wBalance w s"
  using assms by (auto simp: checkState_def stateValidate_def Let_def w_GetBalance_def mult.commute not_less
      split: option.splits bool.splits if_splits)

lemma apply_value:
  assumes E: "codecsOk (pMiner P)" and A: "finite A" and V: "V < 2 ^ 64" and env: "envValue P A" and gas: "vmGasOk P"
    and within: "txWithin P A tx" and gv: "gasValidate tx = None" and nr: "\<not> IsReward tx" and inv: "valueInv (pMiner P) A V w"
    and run: "applyStateTransition P bh tx w = Some (Inr ret, w')" and price: "txGasPrice tx = Some price"
  shows "valueInv (pMiner P) A (V - cumulativeGasUsed ret * price) w'"
  using run nr
proof (rule apply_paid)
  fix limit price' source w1 w2
  let ?g = "cumulativeGasUsed ret"
  assume tx: "txGasLimit tx = Some limit" "txGasPrice tx = Some price'" "txSource tx = Some source"
    and chk: "checkState P w tx (bhHeight bh) = Some None" and w1: "w1 = w_SubBalance w source (limit * price')"
    and w': "w' = refunded source limit price' ?g w2"
    and step: "(\<exists>e. getOpByType P bh tx w1 = Some (Inl e) \<and> rErr ret = Some e \<and> w2 = w1 \<and>
        ?g = (if supported tx then intrinsicGas tx else 0)) \<or>
     (\<exists>ss ret1 w3. getOpByType P bh tx w1 = Some (Inr ss) \<and> runTransition P bh tx ss w1 = Some (ret1, ?g, w3) \<and>
        rErr ret = rErr ret1 \<and> w2 = (if rErr ret \<noteq> None then w1 else w3))"
  have p: "price' = price" using tx price by simp
  have s: "source \<in> A" using within tx by (simp add: txWithin_def)
  have g: "?g \<le> limit" "0 \<le> limit * price" "0 \<le> (limit - ?g) * price"
    using apply_gas [OF gas gv tx(1) run] gasValidate_price(1) [OF gv price] gasValidate_bounds(3) [OF gv tx(1)] by simp_all
  have i1: "valueInv (pMiner P) A (V - limit * price) w1"
    unfolding w1 p using stateValidate_gas [OF chk tx(1) price tx(3)] by (rule valueInv_sub [OF A s inv])
  have V1: "V - limit * price < 2 ^ 64" using V g(2) by simp
  have i2: "valueInv (pMiner P) A (V - limit * price) w2"
    using step i1 run_value [OF E A V1 env within _ _ _ i1] by (auto split: if_splits)
  have "valueInv (pMiner P) A (V - limit * price + (limit - ?g) * price) (w_AddBalance w2 source ((limit - ?g) * price))"
    by (rule valueInv_balance [OF A s i2]) (use valueInv_nonneg [OF i2 s] g(3) in simp)
  then show ?thesis using w' p i2 g(1) by (auto simp: refunded_def algebra_simps)
qed

section \<open>The loop over a block\<close>

definition paidTx :: "penv \<Rightarrow> address set \<Rightarrow> Transaction \<Rightarrow> bool" where
  "paidTx P A tx \<longleftrightarrow> \<not> IsReward tx \<and> gasValidate tx = None \<and> txWithin P A tx"

definition feeOf :: "Transaction \<Rightarrow> Receipt \<Rightarrow> int" where
  "feeOf tx r = uint (rcGasUsed r) * (case txGasPrice tx of None \<Rightarrow> 0 | Some price \<Rightarrow> price)"

definition feesOf :: "procState \<Rightarrow> int" where
  "feesOf s = sum_list (map2 feeOf (psExecuted s) (psReceipts s))"

definition laws :: "penv \<Rightarrow> address set \<Rightarrow> bool" where
  "laws P A \<longleftrightarrow> codecsOk (pMiner P) \<and> finite A \<and> envValue P A \<and> vmGasOk P"

definition loopValue :: "penv \<Rightarrow> address set \<Rightarrow> int \<Rightarrow> procState \<Rightarrow> bool" where
  "loopValue P A V s \<longleftrightarrow> laws P A \<and> V < 2 ^ 64 \<and> length (psReceipts s) = length (psExecuted s) \<and>
    valueInv (pMiner P) A (V - feesOf s) (psWorld s) \<and> uint (psGasFee s) \<le> feesOf s"

lemma uint_add_le: "uint (a + b :: u64) \<le> uint a + uint b"
  by (simp add: uint_word_ariths zmod_le_nonneg_dividend)

lemma uint_bigUint64_le: "0 \<le> z \<Longrightarrow> uint (bigUint64 z) \<le> z"
  by (simp add: bigUint64_def unsigned_of_int take_bit_eq_mod zmod_le_nonneg_dividend)

lemma gasUsed_exact: "0 \<le> g \<Longrightarrow> g \<le> 500000 \<Longrightarrow> uint (bigUint64 g) = g"
  by (simp add: bigUint64_def unsigned_of_int take_bit_int_eq_self)

lemma loopValue_exec:
  assumes inv: "loopValue P A V s" and tx: "paidTx P A tx"
    and run: "applyStateTransition P bh tx (psWorld s) = Some (Inr ret, w1)" and price: "txGasPrice tx = Some price"
  shows "loopValue P A V (executedState bh tx ret price w1 s)"
proof -
  let ?g = "cumulativeGasUsed ret" and ?s = "executedState bh tx ret price w1 s"
  obtain limit where lim: "txGasLimit tx = Some limit" using tx by (auto simp: paidTx_def elim: accepted_gas)
  have gv: "gasValidate tx = None" using tx by (simp add: paidTx_def)
  have law: "codecsOk (pMiner P)" "finite A" "envValue P A" "vmGasOk P" "V < 2 ^ 64" using inv by (simp_all add: loopValue_def laws_def)
  have g: "0 \<le> ?g" "?g \<le> 500000"
    using apply_gas [OF law(4) gv lim run] gasValidate_bounds(2) [OF gv lim] by linarith+
  have p: "0 \<le> price" using gasValidate_price(1) [OF gv price] .
  have fee: "feeOf tx (newReceipt bh tx ret n) = ?g * price" for n
    using gasUsed_exact [OF g] price by (simp add: feeOf_def newReceipt_def)
  have fees: "feesOf ?s = feesOf s + ?g * price"
    using inv by (simp add: feesOf_def executedState_def loopValue_def fee)
  have F: "0 \<le> uint (psGasFee s)" "uint (psGasFee s) \<le> feesOf s" using inv by (simp_all add: loopValue_def)
  have "V - feesOf s < 2 ^ 64" using law(5) F by linarith
  then have "valueInv (pMiner P) A (V - feesOf s - ?g * price) w1"
    by (rule apply_value [OF law(1,2) _ law(3,4) _ gv _ _ run price])
      (use inv tx in \<open>auto simp: loopValue_def paidTx_def\<close>)
  then have "valueInv (pMiner P) A (V - feesOf ?s) (nonceSet tx w1)"
    using valueInv_same [of "nonceSet tx w1" w1] by (simp add: fees nonceSet_def algebra_simps split: option.splits)
  moreover have "uint (psGasFee s + bigUint64 (?g * price)) \<le> feesOf s + ?g * price"
    using uint_add_le [of "psGasFee s" "bigUint64 (?g * price)"] uint_bigUint64_le [of "?g * price"] g p F by simp
  ultimately show ?thesis using inv fees by (simp add: loopValue_def executedState_def nonceSet_def)
qed

interpretation value_loop: block_loop P bh "paidTx P A" "loopValue P A V" "loopValue P A V" for P bh A V
  by unfold_locales (auto intro: loopValue_exec, (simp add: loopValue_def feesOf_def)+)

section \<open>Rewards\<close>

lemma calculateGasFeeCastorRewards_le: "uint (calculateGasFeeCastorRewards fee) \<le> uint fee"
proof -
  have "unat (fee * 9) \<le> unat fee * 9" by (simp add: unat_word_ariths)
  then have "unat (fee * 9) div 10 \<le> unat fee * 9 div 10" by (rule div_le_mono)
  also have "\<dots> \<le> unat fee" by simp
  finally have le: "unat (fee * 9) div 10 \<le> unat fee" .
  have "unat (calculateGasFeeCastorRewards fee) = unat (fee * 9) div 10"
    by (simp only: calculateGasFeeCastorRewards_def gasFeeCastorRewardsWeight_def gasFeeTotalRewardsWeight_def unat_div) simp
  with le have "unat (calculateGasFeeCastorRewards fee) \<le> unat fee" by (simp only:)
  then show ?thesis by (simp only: uint_nat of_nat_le_iff)
qed

text \<open>What the processor adds after the transactions of a block.\<close>

definition minted :: "u64 \<Rightarrow> u64 \<Rightarrow> int" where
  "minted height fee = uint (calculateGasFeeCastorRewards fee + calculateCastorRewards height) +
    uint (daemonNodesRewards height) + uint (userNodesRewards height)"

lemma minted_bounds: "0 \<le> minted h fee" "minted h fee \<le> uint fee + uint (blockRewards h)"
proof -
  have "uint (calculateCastorRewards h) + uint (daemonNodesRewards h) + uint (userNodesRewards h) \<le> uint (blockRewards h)"
    using block_shares [of h] unfolding uint_nat by linarith
  then show "minted h fee \<le> uint fee + uint (blockRewards h)"
    using uint_add_le [of "calculateGasFeeCastorRewards fee" "calculateCastorRewards h"] calculateGasFeeCastorRewards_le [of fee]
    unfolding minted_def by linarith
qed (simp add: minted_def)

lemma payRewards_value:
  assumes A: "finite A" and in_A: "BytesToAddress (bhCastor bh) \<in> A" "pDaemon P \<in> A" "pUser P \<in> A" and inv: "valueInv E A V w"
  shows "valueInv E A (V + minted (bhHeight bh) fee) (payRewards P bh fee w)"
proof -
  have add: "valueInv E A (U + uint n) (w_AddBalance v a (uint n))" if "valueInv E A U v" "a \<in> A" for U v a and n :: u64
    using valueInv_balance [OF A that(2,1), of "uint n"] valueInv_nonneg [OF that] by simp
  define w1 where "w1 = (if daemonNodesRewards (bhHeight bh) \<noteq> 0 then w_AddBalance w (pDaemon P) (uint (daemonNodesRewards (bhHeight bh))) else w)"
  define w2 where "w2 = (if userNodesRewards (bhHeight bh) \<noteq> 0 then w_AddBalance w1 (pUser P) (uint (userNodesRewards (bhHeight bh))) else w1)"
  have "valueInv E A (V + uint (daemonNodesRewards (bhHeight bh))) w1"
    using add [OF inv in_A(2), of "daemonNodesRewards (bhHeight bh)"] inv by (auto simp: w1_def)
  then have "valueInv E A (V + uint (daemonNodesRewards (bhHeight bh)) + uint (userNodesRewards (bhHeight bh))) w2"
    using add [OF _ in_A(3), of _ w1 "userNodesRewards (bhHeight bh)"] by (auto simp: w2_def)
  from add [OF this in_A(1), of "calculateGasFeeCastorRewards fee + calculateCastorRewards (bhHeight bh)"] show ?thesis
    unfolding payRewards_def Let_def w1_def [symmetric] w2_def [symmetric] minted_def by (simp only: ac_simps)
qed

end
