(* ===== verification/Process_Props.thy ===== *)
theory Process_Props
  imports Process_Chain Process_Value Miner_Example "HOL-Library.Sublist"
begin

text \<open>
  Properties of applying transactions, processing blocks and running chains, with a concrete
  environment on which they are evaluated.
\<close>

section \<open>A concrete environment\<close>

text \<open>The virtual machine of the example burns 100 units of gas when it has them.\<close>

definition exVm :: "u64 \<Rightarrow> world \<Rightarrow> tvmResult" where
  "exVm gas w = \<lparr>tvmError = None, tvmGasLeft = (if gas \<ge> 100 then gas - 100 else gas), tvmLogs = [[1]], tvmWorld = w\<rparr>"

definition exP :: penv where
  "exP = \<lparr>pMiner = exEnv, pV = exVenv, pSha256 = (\<lambda>bs. replicate 32 3), pCodeHash = (\<lambda>bs. replicate 32 9),
     pGroups = (\<lambda>seed. Some [numAddress 61, numAddress 62]), pHeaderHeight = (\<lambda>h. Some 5), pHasCode = (\<lambda>w a. True),
     pDeploy = (\<lambda>bh tx a. exVm), pCall = (\<lambda>bh tx a. exVm), pGroupParse = (\<lambda>tx h w. None), pGroupExec = (\<lambda>tx h w. (None, w)),
     pDaemon = numAddress 51, pUser = numAddress 52, pBusiness = numAddress 53, pTeam = numAddress 54, pDeployManager = Some,
     pProcs = [\<lambda>bh w. Some w], pElapsed = (\<lambda>i. 0), pGasLimitForPackage = 2000000, pProposerPackageTime = 2\<rparr>"

definition exBh :: "u64 \<Rightarrow> BlockHeader" where
  "exBh h = \<lparr>bhHeight = h, bhCastor = [55]\<rparr>"

definition richWorld :: world where
  "richWorld = \<lparr>wBalance = (\<lambda>a. if a = numAddress 50 then 10000000 else 0), wNonce = (\<lambda>_. 0),
     wCodeHash = (\<lambda>_. replicate 32 1), wCode = (\<lambda>_. None), wData = (\<lambda>_ _. None), wExists = (\<lambda>_. True)\<rparr>"

text \<open>A transfer, a contract call, a stake that cannot be paid for, and a reward.\<close>

definition exPay :: "int \<Rightarrow> u64 \<Rightarrow> bigint \<Rightarrow> bytes \<Rightarrow> Transaction" where
  "exPay t nonce v d = (exTx t d)\<lparr>txNonce := nonce, txValue := Some v, txHash := replicate 32 (of_int t)\<rparr>"

definition exReward :: Transaction where
  "exReward = (case GenerateReward (\<lambda>bs. replicate 32 6) [1, 0] (replicate 32 4) (replicate 32 5) 100 3 of
     Inl e \<Rightarrow> exTx 0 [] | Inr (rw, tx) \<Rightarrow> tx)"

lemma exP_laws: "vmGasOk exP" "envSame exP" "envValue exP A"
  by (simp_all add: vmGasOk_def envSame_def sameSystem_def envValue_def exP_def exVm_def word_sub_le)

text \<open>Gas computed over the integers, for evaluation.\<close>

lemma intrinsicGas_code [code]:
  "intrinsicGas tx = uint (TransactionGasCost + of_int (int (length (txData tx) + length (txExtraData tx)) * 19073 div 10000))"
proof -
  have "(of_nat n :: u64) = of_int (int n)" for n by simp
  then show ?thesis unfolding intrinsicGas_def CodeBytePrice_def CodeBytePricePrecision_def by (simp only: zdiv_int of_nat_mult of_nat_numeral)
qed

lemma exPay_ok [simp]: "gasValidate (exPay t n v []) = None" "gasValidate (exPay t n v [d]) = None" "t \<noteq> TransactionTypeReward \<Longrightarrow> chainTx (exPay t n v ds)"
  "txSource (exPay t n v ds) = Some (numAddress 50)"
  by (simp_all add: exPay_def exTx_def gasValidate_def isUint64_def intrinsicGas_def gas_consts bigUint64_def
      chainTx_def txTyped_def IsReward_def fixed32_def) (simp_all add: numAddress_def fixed32_def [symmetric])

lemma exReward_ok [simp]: "chainTx exReward" "IsReward exReward"
  by (simp_all add: exReward_def GenerateReward_def Let_def chainTx_def txTyped_def IsReward_def GenHash_def)

definition exChain :: "(BlockHeader \<times> Transaction list \<times> bool \<times> u64) list" where
  "exChain = [(exBh 100, [exPay TransactionTypeTransfer 1 7 [], exReward], False, 99),
     (exBh 101, [exReward, exPay TransactionTypeTransfer 2 7 []], True, 100)]"

lemma ex_chain: "map_option (\<lambda>(ex, w). map txNonce ex) (runChain exP exChain richWorld) = Some [1, 0, 2]"
  by code_simp

lemma ex_chain_ok: "list_all (\<lambda>(bh, txs, pack, pre). list_all chainTx txs) exChain"
  by (simp add: exChain_def) (simp add: tx_type_defs)

section \<open>One transaction\<close>

text \<open>
  Failed transactions (C13): a transaction that is dropped leaves the state as it was. One that is
  executed and ends with an error leaves the state as it was except that its source pays for the gas
  used, which is between zero and the gas limit and never overdraws the source.
\<close>

theorem failed_tx_pays_gas:
  assumes "vmGasOk P" and "gasValidate tx = None" and "applyStateTransition P bh tx w = Some (r, w')"
  shows "case r of
      Inl e \<Rightarrow> w' = w
    | Inr ret \<Rightarrow> rErr ret \<noteq> None \<longrightarrow>
        (\<exists>source price limit. txSource tx = Some source \<and> txGasPrice tx = Some price \<and> txGasLimit tx = Some limit \<and>
           w' = w_SubBalance w source (cumulativeGasUsed ret * price) \<and> 0 \<le> cumulativeGasUsed ret \<and> cumulativeGasUsed ret \<le> limit \<and>
           0 \<le> wBalance w' source)"
proof (cases r)
  case (Inl e)
  with assms(3) apply_dropped show ?thesis by simp
next
  case (Inr ret)
  have "\<exists>source price limit. txSource tx = Some source \<and> txGasPrice tx = Some price \<and> txGasLimit tx = Some limit \<and>
      w' = w_SubBalance w source (cumulativeGasUsed ret * price) \<and> 0 \<le> cumulativeGasUsed ret \<and> cumulativeGasUsed ret \<le> limit \<and>
      0 \<le> wBalance w' source" if err: "rErr ret \<noteq> None"
  proof -
    have run: "applyStateTransition P bh tx w = Some (Inr ret, w')" using assms(3) Inr by simp
    have nr: "\<not> IsReward tx"
    proof
      assume "IsReward tx"
      with run show False by (rule apply_reward) (use err in \<open>simp add: newResult_def\<close>)
    qed
    from run nr obtain limit price source w2 where tx: "txGasLimit tx = Some limit" "txGasPrice tx = Some price" "txSource tx = Some source"
      and chk: "checkState P w tx (bhHeight bh) = Some None"
      and w': "w' = refunded source limit price (cumulativeGasUsed ret) w2" and w2: "w2 = w_SubBalance w source (limit * price)"
      by (rule apply_paid) (use err in \<open>auto split: if_splits\<close>)
    have g: "0 \<le> cumulativeGasUsed ret" "cumulativeGasUsed ret \<le> limit" using apply_gas [OF assms(1,2) tx(1) run] by simp_all
    have eq: "w' = w_SubBalance w source (cumulativeGasUsed ret * price)"
      using w' w2 g(2) by (auto simp: refunded_def w_AddBalance_def w_SubBalance_def algebra_simps)
    have "cumulativeGasUsed ret * price \<le> limit * price"
      using g(2) gasValidate_price(1) [OF assms(2) tx(2)] by (rule mult_right_mono)
    then have "0 \<le> wBalance w' source" using stateValidate_gas [OF chk tx] by (simp add: eq)
    with tx eq g show ?thesis by blast
  qed
  with Inr show ?thesis by simp
qed

theorem failed_tx_pays_gas_witness:
  "\<exists>ret w'. applyStateTransition exP (exBh 100) (exPay TransactionTypeStakeAdd 1 8 [2]) richWorld = Some (Inr ret, w') \<and>
     rErr ret \<noteq> None \<and> w' = w_SubBalance richWorld (numAddress 50) (cumulativeGasUsed ret * 500)"
proof -
  let ?run = "applyStateTransition exP (exBh 100) (exPay TransactionTypeStakeAdd 1 8 [2]) richWorld"
  have "map_option (\<lambda>(r, w). case r of Inl e \<Rightarrow> False | Inr ret \<Rightarrow> rErr ret \<noteq> None) ?run = Some True" by code_simp
  then obtain r w' where "?run = Some (r, w')" "case r of Inl e \<Rightarrow> False | Inr ret \<Rightarrow> rErr ret \<noteq> None" by fastforce
  then obtain ret where run: "?run = Some (Inr ret, w')" "rErr ret \<noteq> None" by (cases r) auto
  with failed_tx_pays_gas [OF exP_laws(1) _ run(1)] have "w' = w_SubBalance richWorld (numAddress 50) (cumulativeGasUsed ret * 500)"
    by (auto simp: exPay_def exTx_def gasValidate_def isUint64_def intrinsicGas_def gas_consts bigUint64_def)
  with run show ?thesis by blast
qed

section \<open>The receipts of a block\<close>

definition gasTx :: "Transaction \<Rightarrow> bool" where
  "gasTx tx \<longleftrightarrow> IsReward tx \<or> gasValidate tx = None"

definition receiptsOk :: "BlockHeader \<Rightarrow> procState \<Rightarrow> bool" where
  "receiptsOk bh s \<longleftrightarrow> map rcTxHash (psReceipts s) = map txHash (psExecuted s) \<and>
    map rcTxIndex (psReceipts s) = map of_nat [0..<length (psExecuted s)] \<and> list_all (\<lambda>r. rcHeight r = bhHeight bh) (psReceipts s) \<and>
    sum_list (map (unat \<circ> rcGasUsed) (psReceipts s)) \<le> 2000000"

definition receiptsInv :: "penv \<Rightarrow> BlockHeader \<Rightarrow> procState \<Rightarrow> bool" where
  "receiptsInv P bh s \<longleftrightarrow> vmGasOk P \<and> receiptsOk bh s \<and> unat (psTotalGas s) = sum_list (map (unat \<circ> rcGasUsed) (psReceipts s))"

lemma receiptsInv_exec:
  assumes inv: "receiptsInv P bh s" and tx: "gasTx tx" and run: "applyStateTransition P bh tx (psWorld s) = Some (Inr ret, w1)"
    and gas: "psTotalGas s + bigUint64 (cumulativeGasUsed ret) \<le> GasLimitPerBlock"
  shows "receiptsInv P bh (executedState bh tx ret price w1 s)"
proof -
  let ?g = "bigUint64 (cumulativeGasUsed ret)"
  have "0 \<le> cumulativeGasUsed ret \<and> cumulativeGasUsed ret \<le> 500000"
  proof (cases "IsReward tx")
    case True
    then show ?thesis using run by (auto elim!: apply_reward simp: newResult_def)
  next
    case False
    then have gv: "gasValidate tx = None" using tx by (simp add: gasTx_def)
    from gv obtain limit where lim: "txGasLimit tx = Some limit" by (rule accepted_gas)
    show ?thesis
      using apply_gas [OF _ gv lim run] gasValidate_bounds(2) [OF gv lim] inv by (simp add: receiptsInv_def)
  qed
  then have "uint ?g \<le> 500000" using gasUsed_exact by simp
  then have g: "unat ?g \<le> 500000" unfolding uint_nat by linarith
  have t: "unat (psTotalGas s) \<le> 2000000" using inv by (simp add: receiptsInv_def receiptsOk_def)
  have "unat (psTotalGas s + ?g) = unat (psTotalGas s) + unat ?g" using g t by (simp add: unat_word_ariths)
  moreover have "unat (psTotalGas s + ?g) \<le> 2000000" using gas by (simp add: word_le_nat_alt GasLimitPerBlock_def)
  ultimately show ?thesis using inv
    by (simp add: receiptsInv_def receiptsOk_def executedState_def newReceipt_def)
qed

interpretation receipts_loop: block_loop P bh gasTx "receiptsInv P bh" "receiptsOk bh" for P bh
  by unfold_locales (auto intro: receiptsInv_exec, (simp add: receiptsInv_def receiptsOk_def)+)

lemma processLoop_subseq:
  "processLoop P bh pack i txs s = Some s' \<Longrightarrow> \<exists>ex. psExecuted s' = psExecuted s @ ex \<and> subseq ex txs"
proof (induction txs arbitrary: i s)
  case (Cons tx txs)
  from Cons.prems consider s1 where "processTx P bh pack i tx s = Some (Inl s1)" "s' = s1"
    | s1 where "processTx P bh pack i tx s = Some (Inr s1)" "processLoop P bh pack (Suc i) txs s1 = Some s'"
    by (auto split: option.splits sum.splits)
  then show ?case
  proof cases
    case 1
    then show ?thesis using processTx_stop by fastforce
  next
    case 2
    from Cons.IH [OF 2(2)] obtain ex where ex: "psExecuted s' = psExecuted s1 @ ex" "subseq ex txs" by blast
    from 2(1) show ?thesis
    proof (rule processTx_next)
      assume "s1 = s\<lparr>psEvicted := psEvicted s @ [txHash tx]\<rparr>"
      then show ?thesis using ex by auto
    next
      fix ret w1 price
      assume "s1 = executedState bh tx ret price w1 s"
      then have "psExecuted s' = psExecuted s @ tx # ex" using ex by (simp add: executedState_def)
      then show ?thesis using ex by blast
    qed
  qed
qed simp

text \<open>
  Blocks and receipts (C14): the transactions a block executes are a subsequence of those offered, in
  their order, each with the receipt at the same position carrying its hash, its index and the height;
  and the gas of all receipts together is at most 2000000.
\<close>

theorem block_receipts:
  assumes "vmGasOk P" and "list_all gasTx txs" and "process P bh txs pack pre w = Some s"
  shows "subseq (psExecuted s) txs \<and> map rcTxHash (psReceipts s) = map txHash (psExecuted s) \<and>
    map rcTxIndex (psReceipts s) = map of_nat [0..<length (psExecuted s)] \<and> list_all (\<lambda>r. rcHeight r = bhHeight bh) (psReceipts s) \<and>
    sum_list (map (unat \<circ> rcGasUsed) (psReceipts s)) \<le> 2000000"
  using assms(3)
proof (rule process_Some)
  fix s0
  assume loop: "processLoop P bh pack 0 txs (startState w) = Some s0" and s: "s = s0\<lparr>psWorld := psWorld s\<rparr>"
  have same: "psExecuted s = psExecuted s0" "psReceipts s = psReceipts s0" by (subst s, simp)+
  have "receiptsInv P bh (startState w)" using assms(1) by (simp add: receiptsInv_def receiptsOk_def startState_def)
  then have "receiptsOk bh s0" by (rule receipts_loop.after_loop [OF assms(2) _ loop])
  moreover have "subseq (psExecuted s0) txs" using processLoop_subseq [OF loop] by (auto simp: startState_def)
  ultimately show ?thesis unfolding same by (simp add: receiptsOk_def)
qed

theorem block_receipts_witness:
  "\<exists>s. process exP (exBh 100) [exPay TransactionTypeStakeAdd 9 8 [], exReward] False 99 richWorld = Some s \<and>
     psExecuted s = [exReward] \<and> map rcTxHash (psReceipts s) = [txHash exReward]"
proof -
  let ?run = "process exP (exBh 100) [exPay TransactionTypeStakeAdd 9 8 [], exReward] False 99 richWorld"
  have "map_option (\<lambda>s. map txType (psExecuted s)) ?run = Some [104]" by code_simp
  then obtain s where s: "?run = Some s" "map txType (psExecuted s) = [104]" by auto
  have ok: "list_all gasTx [exPay TransactionTypeStakeAdd 9 8 [], exReward]" by (simp add: gasTx_def)
  note r = block_receipts [OF exP_laws(1) ok s(1)]
  from s(2) obtain z where z: "psExecuted s = [z]" "txType z = 104" by auto
  from r have "subseq (psExecuted s) [exPay TransactionTypeStakeAdd 9 8 [], exReward]" by (rule conjunct1)
  then have "z \<in> set [exPay TransactionTypeStakeAdd 9 8 [], exReward]" unfolding z(1) subseq_singleton_left .
  then have "psExecuted s = [exReward]" using z by (auto simp: exPay_def exTx_def tx_type_defs)
  with r s(1) show ?thesis by auto
qed

section \<open>Chains\<close>

text \<open>
  No replay (C2): over a whole chain, the executed transactions of an existing account carry the
  nonces that follow its nonce, one after the other, and the account ends with the last of them.
\<close>

theorem chain_nonces:
  assumes "envSame P" and "list_all (\<lambda>(bh, txs, pack, pre). list_all chainTx txs) bs" and "runChain P bs w = Some (executed, w')"
    and "exists w a"
  shows "map txNonce (txsOf a executed) = map (\<lambda>i. wNonce w a + of_nat (Suc i)) [0..<length (txsOf a executed)] \<and>
    wNonce w' a = wNonce w a + of_nat (length (txsOf a executed))"
proof -
  have "nonceInv P a (wNonce w a) [] w" using assms(1,4) by (simp add: nonceInv_def txsOf_def)
  from nonce_chain.after_chain [OF assms(2) this assms(3)] show ?thesis by (simp add: nonceInv_def)
qed

theorem chain_nonces_witness:
  "\<exists>executed w'. runChain exP exChain richWorld = Some (executed, w') \<and> map txNonce executed = [1, 0, 2] \<and>
     wNonce w' (numAddress 50) = of_nat (length (txsOf (numAddress 50) executed))"
proof -
  obtain executed w' where run: "runChain exP exChain richWorld = Some (executed, w')" "map txNonce executed = [1, 0, 2]"
    using ex_chain by (auto split: prod.splits)
  have "exists richWorld (numAddress 50)" by (simp add: exists_iff richWorld_def)
  from chain_nonces [OF exP_laws(2) ex_chain_ok run(1) this] run show ?thesis by (auto simp: richWorld_def)
qed

text \<open>
  Rewards (C3): over a whole chain, no two executed reward transactions are for the same block, and
  none is for a block already rewarded before.
\<close>

theorem chain_rewards_once:
  assumes "envSame P" and "list_all (\<lambda>(bh, txs, pack, pre). list_all chainTx txs) bs" and "runChain P bs w = Some (executed, w')"
  shows "distinct (map parseRewardBlockHash (filter IsReward executed)) \<and>
    list_all (\<lambda>tx. \<not> HasRewardedOfBlock (parseRewardBlockHash tx) w \<and> HasRewardedOfBlock (parseRewardBlockHash tx) w') (filter IsReward executed)"
proof -
  have "rewardInv P w [] w" using assms(1) by (simp add: rewardInv_def rewarded_def)
  from reward_chain.after_chain [OF assms(2) this assms(3)] show ?thesis
    by (auto simp: rewardInv_def rewarded_def list_all_iff)
qed

theorem chain_rewards_once_witness:
  "\<exists>executed w'. runChain exP exChain richWorld = Some (executed, w') \<and> length executed = 3 \<and>
     distinct (map parseRewardBlockHash (filter IsReward executed))"
proof -
  obtain executed w' where run: "runChain exP exChain richWorld = Some (executed, w')" "map txNonce executed = [1, 0, 2]"
    using ex_chain by (auto split: prod.splits)
  have "length (map txNonce executed) = 3" unfolding run(2) by simp
  then have "length executed = 3" by simp
  with chain_rewards_once [OF exP_laws(2) ex_chain_ok run(1)] run show ?thesis by blast
qed

section \<open>Coins\<close>

text \<open>
  Coins of a block (C1): for a block without reward transactions, the worth of a set of accounts that
  contains every account the block names falls by exactly the gas fees in the receipts; paying the
  rewards raises it by at most the fees and the block reward, so a block adds at most its reward to
  what there was. No balance becomes negative.
\<close>

theorem block_value:
  assumes "laws P A" and "poolInv (pMiner P) w" and "\<forall>a\<in>A. 0 \<le> wBalance w a" and "valueOf A (ledgerOf (pMiner P) w) < 2 ^ 64"
    and "list_all (paidTx P A) txs" and "processLoop P bh pack 0 txs (startState w) = Some s"
    and "BytesToAddress (bhCastor bh) \<in> A" "pDaemon P \<in> A" "pUser P \<in> A"
  shows "valueOf A (ledgerOf (pMiner P) (psWorld s)) = valueOf A (ledgerOf (pMiner P) w) - feesOf s \<and>
    valueOf A (ledgerOf (pMiner P) (payRewards P bh (psGasFee s) (psWorld s))) \<le>
      valueOf A (ledgerOf (pMiner P) w) + uint (blockRewards (bhHeight bh)) \<and>
    (\<forall>a\<in>A. 0 \<le> wBalance (payRewards P bh (psGasFee s) (psWorld s)) a)"
proof -
  let ?V = "valueOf A (ledgerOf (pMiner P) w)"
  have "loopValue P A ?V (startState w)"
    using assms(1-4) by (simp add: loopValue_def valueInv_def startState_def feesOf_def)
  then have loop: "loopValue P A ?V s" by (rule value_loop.after_loop [OF assms(5) _ assms(6)])
  then have "finite A" and inv: "valueInv (pMiner P) A (?V - feesOf s) (psWorld s)" and "uint (psGasFee s) \<le> feesOf s"
    by (simp_all add: loopValue_def laws_def)
  moreover from payRewards_value [OF this(1) assms(7-9) inv]
  have "valueInv (pMiner P) A (?V - feesOf s + minted (bhHeight bh) (psGasFee s)) (payRewards P bh (psGasFee s) (psWorld s))" .
  ultimately show ?thesis using minted_bounds(2) [of "bhHeight bh" "psGasFee s"] by (simp add: valueInv_def)
qed

definition exAccounts :: "address set" where
  "exAccounts = {numAddress 50, numAddress 51, numAddress 52, numAddress 55, numAddress 60}"

theorem block_value_witness:
  "\<exists>s. processLoop exP (exBh 100) False 0 [exPay TransactionTypeTransfer 1 7 []] (startState richWorld) = Some s \<and>
     valueOf exAccounts (ledgerOf exEnv (psWorld s)) = 10000000 - feesOf s \<and>
     valueOf exAccounts (ledgerOf exEnv (payRewards exP (exBh 100) (psGasFee s) (psWorld s))) \<le> 10000000 + uint (blockRewards 100)"
proof -
  let ?run = "processLoop exP (exBh 100) False 0 [exPay TransactionTypeTransfer 1 7 []] (startState richWorld)"
  have "map_option (\<lambda>s. ()) ?run = Some ()" by code_simp
  then obtain s where s: "?run = Some s" by auto
  have data: "w_GetData richWorld = w_GetData exWorld" by (simp add: fun_eq_iff) (simp add: w_GetData_def richWorld_def)
  have law: "laws exP exAccounts" using exP_laws by (simp add: laws_def exAccounts_def) (simp add: exP_def)
  have "lockedVal exAccounts (ledgerOf exEnv exWorld) = 0"
    by (auto simp: lockedVal_def ledgerOf_def intro!: sum.neutral)
  then have v: "valueOf exAccounts (ledgerOf exEnv richWorld) = 10000000"
    unfolding ledgerOf_balance [OF data] valueOf_bal by (simp add: richWorld_def exAccounts_def)
  have pool: "poolInv exEnv richWorld" using poolInv_data [OF data, of exEnv] by simp
  have tx: "list_all (paidTx exP exAccounts) [exPay TransactionTypeTransfer 1 7 []]"
    by (simp add: paidTx_def txWithin_def) (simp add: exPay_def exTx_def IsReward_def tx_type_defs exAccounts_def, simp add: numAddress_def)
  have E: "pMiner exP = exEnv" "pDaemon exP \<in> exAccounts" "pUser exP \<in> exAccounts" "BytesToAddress (bhCastor (exBh 100)) \<in> exAccounts"
    by (simp_all add: exP_def exBh_def exAccounts_def numAddress_def)
  have "\<forall>a\<in>exAccounts. 0 \<le> wBalance richWorld a" by (simp add: richWorld_def)
  from block_value [OF law _ this _ tx s E(4,2,3)] pool v s show ?thesis by (auto simp: E exBh_def)
qed

end
