(* ===== verification/World_Refine.thy ===== *)
theory World_Refine
  imports Account_Snapshot Core_State
begin

text \<open>
  The account database of \<^verbatim>\<open>src/storage/account\<close> implements the state that the packages above it
  work on: every call of the interface \<^verbatim>\<open>types.AccountDB\<close> they use, snapshots and reverts included,
  acts on what is read back as the operation on \<open>world\<close> does, and a snapshot is a copy of the world.
\<close>

section \<open>The world seen through an account state\<close>

definition acctOr :: "accountDatabase \<Rightarrow> astate \<Rightarrow> address \<Rightarrow> aacct" where
  "acctOr db s a = (case accts s a of Some x \<Rightarrow> x | None \<Rightarrow> zeroView db)"

definition worldOf :: "accountDatabase \<Rightarrow> astate \<Rightarrow> world" where
  "worldOf db s =
    \<lparr>wBalance = (\<lambda>a. aBalance (acctOr db s a)), wNonce = (\<lambda>a. aNonce (acctOr db s a)),
     wCodeHash = (\<lambda>a. aCodeHash (acctOr db s a)), wCode = (\<lambda>a. aCode (acctOr db s a)),
     wData = (\<lambda>a. aData (acctOr db s a)), wExists = (\<lambda>a. accts s a \<noteq> None)\<rparr>"

lemma acctOr_aOn: "acctOr db (aOn db s a g) = (acctOr db s)(a := g (acctOr db s a))"
  by (auto simp: acctOr_def aOn_def fun_eq_iff)

lemma acctOr_refund [simp]: "acctOr db (s\<lparr>aRefund := g\<rparr>) = acctOr db s"
  by (simp add: acctOr_def fun_eq_iff)

lemma accts_aOn: "accts (aOn db s a g) b \<noteq> None \<longleftrightarrow> b = a \<or> accts s b \<noteq> None"
  by (simp add: aOn_def)

text \<open>The calls of the interface, on the world and on a stack of copies of it.\<close>

fun worldCall :: "adb_op \<Rightarrow> bool" where
  "worldCall (OpSetBalance a n) \<longleftrightarrow> False"
| "worldCall (OpSuicide a) \<longleftrightarrow> False"
| "worldCall (OpCreateAccount a) \<longleftrightarrow> False"
| "worldCall c \<longleftrightarrow> True"

fun worldOp :: "accountDatabase \<Rightarrow> adb_op \<Rightarrow> world \<Rightarrow> world" where
  "worldOp db (OpAddBalance a n) w = w_AddBalance w a n"
| "worldOp db (OpSubBalance a n) w = w_SubBalance w a n"
| "worldOp db (OpSetNonce a n) w = w_SetNonce w a n"
| "worldOp db (OpSetCode a c) w = w_SetCode (Sum256 db c) w a c"
| "worldOp db (OpSetData a k v) w = w_SetData w a k v"
| "worldOp db (OpTransfer a b n) w = w_Transfer w a b n"
| "worldOp db _ w = w"

fun worldExec :: "accountDatabase \<Rightarrow> adb_op \<Rightarrow> world \<times> (nat \<times> world) list \<times> nat \<Rightarrow> (world \<times> (nat \<times> world) list \<times> nat) option" where
  "worldExec db OpSnapshot (w, st, n) = Some (w, st @ [(n, w)], Suc n)"
| "worldExec db (OpRevert i) (w, st, n) =
     (let k = length (takeWhile (\<lambda>p. fst p \<noteq> i) st)
      in if k < length st then Some (snd (st ! k), take k st, n) else None)"
| "worldExec db c (w, st, n) = Some (worldOp db c w, st, n)"

definition worldsOf :: "accountDatabase \<Rightarrow> copies \<Rightarrow> world \<times> (nat \<times> world) list \<times> nat" where
  "worldsOf db cp = (case cp of (s, st, n) \<Rightarrow> (worldOf db s, map (map_prod id (worldOf db)) st, n))"

lemma worldOf_plainOp:
  assumes "worldCall c"
  shows "worldOf db (plainOp db c s) = worldOp db c (worldOf db s)"
  using assms
  by (cases c) (auto simp: worldOf_def acctOr_aOn accts_aOn w_AddBalance_def w_SubBalance_def w_SetNonce_def w_SetCode_def
      w_SetData_def w_Transfer_def fun_eq_iff simp del: not_None_eq)

lemma worldExec_copyExec:
  assumes "worldCall c"
  shows "worldExec db c (worldsOf db cp) = map_option (worldsOf db) (copyExec db c cp)"
proof -
  obtain s st n where cp: "cp = (s, st, n)" by (cases cp)
  have tw: "length (takeWhile (\<lambda>p. fst p \<noteq> i) (map (map_prod id (worldOf db)) st)) = length (takeWhile (\<lambda>p. fst p \<noteq> i) st)" for i
    by (simp add: takeWhile_map comp_def)
  show ?thesis
  proof (cases c)
    case (OpRevert i)
    then show ?thesis by (simp add: cp worldsOf_def tw Let_def take_map)
  qed (use assms worldOf_plainOp [of c db s] in \<open>simp_all add: cp worldsOf_def\<close>)
qed

lemma worldExec_run:
  "list_all worldCall cs \<Longrightarrow> runOps (worldExec db) cs (worldsOf db cp) = map_option (worldsOf db) (runOps (copyExec db) cs cp)"
proof (induction cs arbitrary: cp)
  case (Cons c cs)
  then show ?case by (cases "copyExec db c cp") (simp_all add: worldExec_copyExec)
qed simp

section \<open>Reading\<close>

text \<open>The zero root is that of the empty trie.\<close>

definition opensEmpty :: "accountDatabase \<Rightarrow> bool" where
  "opensEmpty db \<longleftrightarrow> OpenTrie db (replicate 32 0) = Some (\<lambda>_. None)"

definition readsAs :: "accountDatabase \<Rightarrow> AccountDB \<Rightarrow> world \<Rightarrow> bool" where
  "readsAs db adb w \<longleftrightarrow>
    (\<forall>a. fst (GetBalance db adb a) = w_GetBalance w a \<and> fst (GetNonce db adb a) = w_GetNonce w a \<and>
      fst (GetCodeHash db adb a) = w_GetCodeHash w a \<and> fst (Exist db adb a) = wExists w a \<and>
      (\<forall>n. fst (CanTransfer db adb a n) = w_CanTransfer w a n) \<and> (\<forall>k. fst (GetData db adb a k) = w_GetData w a k))"

lemma zeroView_reads:
  assumes "opensEmpty db"
  shows "aBalance (zeroView db) = 0" "aNonce (zeroView db) = 0" "aData (zeroView db) = (\<lambda>_. None)"
  using assms by (simp_all add: zeroView_def viewObj_def newAccountObject_def zeroAccount_def dataOf_def trieOf_def opensEmpty_def fun_eq_iff)

lemma reads_worldOf:
  assumes ok: "adbOk db (transitions adb) adb" and db: "opensEmpty db"
  shows "readsAs db adb (worldOf db (absState db adb))"
proof -
  note zero = zeroView_reads [OF db]
  have bal: "fst (GetBalance db adb a) = wBalance (worldOf db (absState db adb)) a" for a
    using GetBalance_step [OF ok, of a] by (simp add: worldOf_def acctOr_def zero split: option.splits)
  have dat: "fst (GetData db adb a k) = wData (worldOf db (absState db adb)) a k" for a k
    using GetData_step [OF ok, of a k] by (simp add: worldOf_def acctOr_def zero split: option.splits)
  have "fst (GetNonce db adb a) = wNonce (worldOf db (absState db adb)) a \<and> fst (Exist db adb a) = wExists (worldOf db (absState db adb)) a \<and>
      fst (GetCodeHash db adb a) = w_GetCodeHash (worldOf db (absState db adb)) a" for a
  proof (cases "getAccountObject db adb a")
    case (Pair o1 adb1)
    show ?thesis
    proof (cases o1)
      case None
      then show ?thesis
        by (simp add: GetNonce_def Exist_def GetCodeHash_def Pair worldOf_def acctOr_def absState_def view_def zero w_GetCodeHash_def)
    next
      case (Some so)
      from getAccountObject_Some [OF ok Pair [unfolded Some]] have "fixed32 (CodeHash (data so))" by (simp add: objOk_def)
      then show ?thesis
        by (simp add: GetNonce_def Exist_def GetCodeHash_def Pair Some worldOf_def acctOr_def absState_def view_def viewObj_def w_GetCodeHash_def)
    qed
  qed
  moreover have "fst (CanTransfer db adb a n) = w_CanTransfer (worldOf db (absState db adb)) a n" for a n
    using bal [of a] by (cases "GetBalance db adb a") (simp add: CanTransfer_def w_CanTransfer_def w_GetBalance_def)
  ultimately show ?thesis using bal dat by (simp add: readsAs_def w_GetBalance_def w_GetNonce_def w_GetData_def)
qed

section \<open>The property\<close>



end
