(* ===== verification/Go_Heap.thy ===== *)
theory Go_Heap
  imports Main "HOL-Library.Multiset"
begin

text \<open>
  The package \<^verbatim>\<open>container/heap\<close> of the Go library, as \<^verbatim>\<open>src/core/simple_container.go\<close> and
  \<^verbatim>\<open>src/common/prque\<close> use it: a binary heap in a slice, ordered by the method \<^verbatim>\<open>Less\<close> of the client.
  For every strict weak order, pushing and popping keep the heap order and the elements, and a pop
  takes out an element that no other is less than.
\<close>

section \<open>The operations\<close>

definition heap_swap :: "nat \<Rightarrow> nat \<Rightarrow> 'a list \<Rightarrow> 'a list" where
  "heap_swap i j h = h[i := h ! j, j := h ! i]"

function heap_up :: "('a \<Rightarrow> 'a \<Rightarrow> bool) \<Rightarrow> nat \<Rightarrow> 'a list \<Rightarrow> 'a list" where
  "heap_up lt j h =
    (let i = (j - 1) div 2
     in if i = j \<or> \<not> lt (h ! j) (h ! i) then h else heap_up lt i (heap_swap i j h))"
  by pat_completeness auto

termination
  by (relation "measure (\<lambda>(lt, j, h). j)") auto

function heap_down :: "('a \<Rightarrow> 'a \<Rightarrow> bool) \<Rightarrow> nat \<Rightarrow> nat \<Rightarrow> 'a list \<Rightarrow> 'a list" where
  "heap_down lt i n h =
    (let j1 = 2 * i + 1
     in if j1 \<ge> n then h
        else let j = (if j1 + 1 < n \<and> lt (h ! (j1 + 1)) (h ! j1) then j1 + 1 else j1)
             in if \<not> lt (h ! j) (h ! i) then h else heap_down lt j n (heap_swap i j h))"
  by pat_completeness auto

termination
  by (relation "measure (\<lambda>(lt, i, n, h). n - i)") (auto split: if_splits)

declare heap_up.simps [simp del] heap_down.simps [simp del]

definition heap_Push :: "('a \<Rightarrow> 'a \<Rightarrow> bool) \<Rightarrow> 'a \<Rightarrow> 'a list \<Rightarrow> 'a list" where
  "heap_Push lt x h = heap_up lt (length h) (h @ [x])"

definition heap_Pop :: "('a \<Rightarrow> 'a \<Rightarrow> bool) \<Rightarrow> 'a list \<Rightarrow> 'a \<times> 'a list" where
  "heap_Pop lt h =
    (let n = length h - 1; h1 = heap_down lt 0 n (heap_swap 0 n h)
     in (h1 ! n, take n h1))"

section \<open>Elements\<close>

lemma heap_swap_simps [simp]:
  "length (heap_swap i j h) = length h"
  "i < length h \<Longrightarrow> j < length h \<Longrightarrow> heap_swap i j h ! k = (if k = j then h ! i else if k = i then h ! j else h ! k)"
  "i < length h \<Longrightarrow> j < length h \<Longrightarrow> mset (heap_swap i j h) = mset h"
  by (auto simp: heap_swap_def nth_list_update mset_swap)

lemma heap_up_mset: "j < length h \<Longrightarrow> mset (heap_up lt j h) = mset h"
proof (induction lt j h rule: heap_up.induct)
  case (1 lt j h)
  then show ?case by (subst heap_up.simps) (auto simp: Let_def)
qed

lemma heap_down_mset: "n \<le> length h \<Longrightarrow> i < length h \<Longrightarrow> mset (heap_down lt i n h) = mset h"
proof (induction lt i n h rule: heap_down.induct)
  case (1 lt i n h)
  then show ?case by (subst heap_down.simps) (auto simp: Let_def)
qed

lemma heap_down_above: "n \<le> length h \<Longrightarrow> i < n \<Longrightarrow> heap_down lt i n h ! n = h ! n"
proof (induction lt i n h rule: heap_down.induct)
  case (1 lt i n h)
  then show ?case by (subst heap_down.simps) (auto simp: Let_def)
qed

lemma heap_Push_mset [simp]: "mset (heap_Push lt x h) = add_mset x (mset h)"
  by (simp add: heap_Push_def heap_up_mset)

lemma heap_Push_length [simp]: "length (heap_Push lt x h) = Suc (length h)"
  by (metis heap_Push_mset size_add_mset size_mset)

lemma heap_Pop_mset:
  assumes "heap_Pop lt h = (x, h')" and "h \<noteq> []"
  shows "mset h = add_mset x (mset h')" and "length h = Suc (length h')"
proof -
  let ?n = "length h - 1"
  let ?h1 = "heap_down lt 0 ?n (heap_swap 0 ?n h)"
  have n: "0 < length h" "?n < length h" using assms(2) by (cases h; simp)+
  have "mset ?h1 = mset h" using n by (subst heap_down_mset) simp_all
  moreover from this have len: "length ?h1 = length h" by (rule mset_eq_length)
  then have "?h1 = take ?n ?h1 @ [?h1 ! ?n]" using n by (subst take_Suc_conv_app_nth [symmetric]) auto
  then have "mset ?h1 = add_mset (?h1 ! ?n) (mset (take ?n ?h1))" by (metis mset_append mset.simps(1,2) add_mset_add_single)
  ultimately show "mset h = add_mset x (mset h')" using assms(1) by (auto simp: heap_Pop_def Let_def)
  then show "length h = Suc (length h')" by (metis size_add_mset size_mset)
qed

section \<open>Order\<close>

definition heapOk :: "('a \<Rightarrow> 'a \<Rightarrow> bool) \<Rightarrow> nat \<Rightarrow> 'a list \<Rightarrow> bool" where
  "heapOk lt n h \<longleftrightarrow> (\<forall>k. 0 < k \<longrightarrow> k < n \<longrightarrow> \<not> lt (h ! k) (h ! ((k - 1) div 2)))"

text \<open>A heap but for the element at one position, which may be too small or too large.\<close>

definition upOk :: "('a \<Rightarrow> 'a \<Rightarrow> bool) \<Rightarrow> nat \<Rightarrow> 'a list \<Rightarrow> bool" where
  "upOk lt j h \<longleftrightarrow>
    (\<forall>k. 0 < k \<longrightarrow> k < length h \<longrightarrow> k \<noteq> j \<longrightarrow> \<not> lt (h ! k) (h ! ((k - 1) div 2))) \<and>
    (\<forall>k. 0 < k \<longrightarrow> k < length h \<longrightarrow> (k - 1) div 2 = j \<longrightarrow> 0 < j \<longrightarrow> \<not> lt (h ! k) (h ! ((j - 1) div 2)))"

definition downOk :: "('a \<Rightarrow> 'a \<Rightarrow> bool) \<Rightarrow> nat \<Rightarrow> nat \<Rightarrow> 'a list \<Rightarrow> bool" where
  "downOk lt i n h \<longleftrightarrow>
    (\<forall>k. 0 < k \<longrightarrow> k < n \<longrightarrow> (k - 1) div 2 \<noteq> i \<longrightarrow> \<not> lt (h ! k) (h ! ((k - 1) div 2))) \<and>
    (\<forall>k. 0 < k \<longrightarrow> k < n \<longrightarrow> (k - 1) div 2 = i \<longrightarrow> 0 < i \<longrightarrow> \<not> lt (h ! k) (h ! ((i - 1) div 2)))"

lemma parent_less: "0 < k \<Longrightarrow> (k - 1) div 2 < (k::nat)"
  by linarith

lemma parent_eq: "0 < k \<Longrightarrow> (k - 1) div 2 = i \<longleftrightarrow> k = 2 * i + 1 \<or> k = 2 * i + (2::nat)"
  by presburger

locale heap_order =
  fixes lt :: "'a \<Rightarrow> 'a \<Rightarrow> bool"
  assumes lt_asym: "lt x y \<Longrightarrow> \<not> lt y x"
    and lt_negtrans: "\<not> lt x y \<Longrightarrow> \<not> lt y z \<Longrightarrow> \<not> lt x z"
begin

lemma upOk_step:
  assumes ok: "upOk lt j h" and j: "0 < j" "j < length h" and l: "lt (h ! j) (h ! ((j - 1) div 2))"
  shows "upOk lt ((j - 1) div 2) (heap_swap ((j - 1) div 2) j h)"
proof -
  define i where "i = (j - 1) div 2"
  have i: "i < j" "(j - Suc 0) div 2 = i" using parent_less [OF j(1)] by (simp_all add: i_def)
  let ?h = "heap_swap i j h"
  have sw: "?h ! k = (if k = j then h ! i else if k = i then h ! j else h ! k)" for k using i j by simp
  have ok1: "\<not> lt (h ! k) (h ! ((k - 1) div 2))" if "0 < k" "k < length h" "k \<noteq> j" for k using ok that by (simp add: upOk_def)
  have ok2: "\<not> lt (h ! k) (h ! i)" if "0 < k" "k < length h" "(k - 1) div 2 = j" for k
    using ok that j by (simp add: upOk_def i_def)
  have ji: "\<not> lt (h ! i) (h ! j)" using l lt_asym by (simp add: i_def)
  have "\<not> lt (?h ! k) (?h ! ((k - 1) div 2))" if k: "0 < k" "k < length h" "k \<noteq> i" for k
  proof (cases "k = j")
    case True
    then show ?thesis using ji i by (auto simp: sw)
  next
    case kj: False
    have p: "(k - 1) div 2 < k" using parent_less [OF k(1)] .
    show ?thesis
    proof (cases "(k - 1) div 2 = j")
      case True
      with ok2 [OF k(1,2)] k kj show ?thesis by (simp add: sw)
    next
      case False
      then show ?thesis using ok1 [OF k(1,2) kj] k kj lt_negtrans [OF _ ji, of "h ! k"] by (auto simp: sw)
    qed
  qed
  moreover have "\<not> lt (?h ! k) (?h ! ((i - 1) div 2))" if k: "0 < k" "k < length h" "(k - 1) div 2 = i" "0 < i" for k
  proof -
    have p: "(i - 1) div 2 < i" using parent_less [OF k(4)] .
    have up: "\<not> lt (h ! i) (h ! ((i - 1) div 2))" using ok1 [OF k(4)] i j by simp
    have "k \<noteq> i" using k parent_less [OF k(1)] by simp
    then show ?thesis using p i up ok1 [OF k(1,2)] k lt_negtrans [OF _ up, of "h ! k"] by (auto simp: sw)
  qed
  ultimately show ?thesis by (simp add: upOk_def i_def)
qed

lemma heap_up_ok: "upOk lt j h \<Longrightarrow> j < length h \<Longrightarrow> heapOk lt (length h) (heap_up lt j h)"
proof (induction lt\<equiv>lt j h rule: heap_up.induct)
  case (1 j h)
  show ?case
  proof (cases "(j - 1) div 2 = j \<or> \<not> lt (h ! j) (h ! ((j - 1) div 2))")
    case True
    then have "heap_up lt j h = h" by (subst heap_up.simps) (simp add: Let_def)
    moreover have "heapOk lt (length h) h"
      unfolding heapOk_def
    proof (intro allI impI)
      fix k :: nat
      assume "0 < k" "k < length h"
      then show "\<not> lt (h ! k) (h ! ((k - 1) div 2))"
        using True 1(2) parent_less [of k] by (cases "k = j") (auto simp: upOk_def)
    qed
    ultimately show ?thesis by simp
  next
    case False
    then have "0 < j" by (cases j) auto
    moreover have "heap_up lt j h = heap_up lt ((j - 1) div 2) (heap_swap ((j - 1) div 2) j h)"
      using False by (subst heap_up.simps) (simp add: Let_def)
    ultimately show ?thesis
      using 1(1) [OF refl False] upOk_step [OF 1(2) _ 1(3)] False 1(3) parent_less [of j] by simp
  qed
qed

lemma downOk_step:
  assumes ok: "downOk lt i n h" and n: "n \<le> length h" and j: "0 < j" "j < n" "(j - 1) div 2 = i" and l: "lt (h ! j) (h ! i)"
    and min: "\<And>k. 0 < k \<Longrightarrow> k < n \<Longrightarrow> (k - 1) div 2 = i \<Longrightarrow> \<not> lt (h ! k) (h ! j)"
  shows "downOk lt j n (heap_swap i j h)"
proof -
  let ?h = "heap_swap i j h"
  have i: "i < j" using parent_less [OF j(1)] j(3) by simp
  have sw: "?h ! k = (if k = j then h ! i else if k = i then h ! j else h ! k)" for k using i j n by simp
  have ok1: "\<not> lt (h ! k) (h ! ((k - 1) div 2))" if "0 < k" "k < n" "(k - 1) div 2 \<noteq> i" for k using ok that by (simp add: downOk_def)
  have ok2: "\<not> lt (h ! k) (h ! ((i - 1) div 2))" if "0 < k" "k < n" "(k - 1) div 2 = i" "0 < i" for k
    using ok that by (simp add: downOk_def)
  have ji: "\<not> lt (h ! i) (h ! j)" using l lt_asym by simp
  have "\<not> lt (?h ! k) (?h ! ((k - 1) div 2))" if k: "0 < k" "k < n" "(k - 1) div 2 \<noteq> j" for k
  proof -
    have p: "(k - 1) div 2 < k" using parent_less [OF k(1)] .
    show ?thesis
    proof (cases "(k - 1) div 2 = i")
      case True
      then show ?thesis using ji min [OF k(1,2)] i p by (auto simp: sw)
    next
      case False
      moreover have "k \<noteq> j" using False j(3) by auto
      ultimately show ?thesis using ok1 [OF k(1,2)] k(3) ok2 [OF j(1,2,3)] by (auto simp: sw k(1))
    qed
  qed
  moreover have "\<not> lt (?h ! k) (?h ! ((j - 1) div 2))" if k: "0 < k" "k < n" "(k - 1) div 2 = j" for k
  proof -
    have "j < k" using parent_less [OF k(1)] k(3) by simp
    then show ?thesis using ok1 [OF k(1,2)] k(3) i j(3) by (auto simp: sw)
  qed
  ultimately show ?thesis by (simp add: downOk_def)
qed

lemma heap_down_ok: "downOk lt i n h \<Longrightarrow> n \<le> length h \<Longrightarrow> heapOk lt n (heap_down lt i n h)"
proof (induction lt\<equiv>lt i n h rule: heap_down.induct)
  case (1 i n h)
  define j where "j = (if 2 * i + 2 < n \<and> lt (h ! (2 * i + 2)) (h ! (2 * i + 1)) then 2 * i + 2 else 2 * i + 1)"
  have eq: "heap_down lt i n h = (if n \<le> 2 * i + 1 \<or> \<not> lt (h ! j) (h ! i) then h else heap_down lt j n (heap_swap i j h))"
    by (subst heap_down.simps) (auto simp: Let_def j_def)
  have min: "\<not> lt (h ! k) (h ! j)" if "0 < k" "k < n" "(k - 1) div 2 = i" for k
  proof -
    from that consider "k = 2 * i + 1" | "k = 2 * i + 2" using parent_eq by blast
    then show ?thesis using that lt_asym by cases (auto simp: j_def)
  qed
  show ?case
  proof (cases "n \<le> 2 * i + 1 \<or> \<not> lt (h ! j) (h ! i)")
    case True
    have "heapOk lt n h"
      unfolding heapOk_def
    proof (intro allI impI)
      fix k :: nat
      assume k: "0 < k" "k < n"
      show "\<not> lt (h ! k) (h ! ((k - 1) div 2))"
      proof (cases "(k - 1) div 2 = i")
        case pk: True
        then have "\<not> n \<le> 2 * i + 1" using k parent_eq [OF k(1), of i] by auto
        with True pk lt_negtrans [OF min [OF k pk]] show ?thesis by simp
      next
        case False
        with 1(2) k show ?thesis by (simp add: downOk_def)
      qed
    qed
    with True show ?thesis by (simp add: eq)
  next
    case False
    then have j: "0 < j" "j < n" "(j - 1) div 2 = i" by (auto simp: j_def)
    have j': "j = (if 2 * i + 1 + 1 < n \<and> lt (h ! (2 * i + 1 + 1)) (h ! (2 * i + 1)) then 2 * i + 1 + 1 else 2 * i + 1)"
      by (simp add: j_def)
    have "heapOk lt n (heap_down lt j n (heap_swap i j h))"
      by (rule 1(1) [OF refl _ j']) (use False 1(3) downOk_step [OF 1(2,3) j _ min] in simp_all)
    with False show ?thesis by (simp add: eq)
  qed
qed

lemma root_least: "heapOk lt (length h) h \<Longrightarrow> k < length h \<Longrightarrow> \<not> lt (h ! k) (h ! 0)"
proof (induction k rule: less_induct)
  case (less k)
  show ?case
  proof (cases "k = 0")
    case True
    then show ?thesis using lt_asym by auto
  next
    case False
    then show ?thesis
      using less.IH [of "(k - 1) div 2"] less.prems parent_less [of k] lt_negtrans [of "h ! k" "h ! ((k - 1) div 2)" "h ! 0"]
      by (simp add: heapOk_def)
  qed
qed

lemma Push_ok:
  assumes "heapOk lt (length h) h"
  shows "heapOk lt (length (heap_Push lt x h)) (heap_Push lt x h)"
proof -
  have "upOk lt (length h) (h @ [x])"
    unfolding upOk_def
  proof (intro conjI allI impI)
    fix k :: nat
    assume k: "0 < k" "k < length (h @ [x])" "k \<noteq> length h"
    with assms parent_less [of k] show "\<not> lt ((h @ [x]) ! k) ((h @ [x]) ! ((k - 1) div 2))"
      by (simp add: nth_append heapOk_def)
  next
    fix k :: nat
    assume k: "0 < k" "k < length (h @ [x])" "(k - 1) div 2 = length h"
    with parent_less [of k] show "\<not> lt ((h @ [x]) ! k) ((h @ [x]) ! ((length h - 1) div 2))" by simp
  qed
  from heap_up_ok [OF this] show ?thesis by (simp add: heap_Push_def heap_Push_length [unfolded heap_Push_def])
qed

lemma Pop_ok:
  assumes "heapOk lt (length h) h" and "heap_Pop lt h = (x, h')" and "h \<noteq> []"
  shows "heapOk lt (length h') h' \<and> (\<forall>y\<in>set h. \<not> lt y x)"
proof -
  let ?n = "length h - 1"
  let ?h0 = "heap_swap 0 ?n h" and ?h1 = "heap_down lt 0 ?n (heap_swap 0 ?n h)"
  have n: "0 < length h" "?n < length h" using assms(3) by (cases h; simp)+
  have h': "x = ?h1 ! ?n" "h' = take ?n ?h1" using assms(2) by (simp_all add: heap_Pop_def Let_def)
  have "downOk lt 0 ?n ?h0"
    unfolding downOk_def
  proof (intro conjI allI impI)
    fix k :: nat
    assume k: "0 < k" "k < ?n" "(k - 1) div 2 \<noteq> 0"
    with assms(1) n parent_less [of k] show "\<not> lt (?h0 ! k) (?h0 ! ((k - 1) div 2))" by (simp add: heapOk_def)
  qed simp
  then have "heapOk lt ?n ?h1" using n by (intro heap_down_ok) auto
  moreover have len: "length ?h1 = length h" using heap_down_mset [of ?n ?h0 0 lt] n by (intro mset_eq_length) simp
  moreover have "heapOk lt ?n (take ?n ?h1)" if "heapOk lt ?n ?h1"
    using that parent_less by (fastforce simp: heapOk_def)
  ultimately have "heapOk lt (length h') h'" by (simp add: h')
  moreover have "?h1 ! ?n = h ! 0"
  proof (cases "?n = 0")
    case True
    then have "?h1 = ?h0" by (subst heap_down.simps) simp
    with True n show ?thesis by simp
  next
    case False
    then show ?thesis using heap_down_above [of ?n ?h0 0 lt] n by simp
  qed
  moreover have "\<forall>y\<in>set h. \<not> lt y (h ! 0)" using root_least [OF assms(1)] by (auto simp: in_set_conv_nth)
  ultimately show ?thesis by (simp add: h')
qed

end

end
