(* ===== verification/Tx_Container.thy ===== *)
theory Tx_Container
  imports Transaction Go_Heap "HOL-Library.AList"
begin

text \<open>
  The container of the transaction pool, \<^verbatim>\<open>src/core/simple_container.go\<close>: the transactions that can
  be packed now, one list per source ordered by nonce (\<open>pendingContainer\<close>), and a queue for those
  whose predecessors are missing.

  The lists are skip lists of \<^verbatim>\<open>github.com/Workiva/go-datastructures\<close>, a parameter of the model
  together with what the runtime chooses: the order in which it ranges over a map. A Go map is an
  association list; a panic is \<open>None\<close>. The transactions of the pool have passed validation (or come
  from a block), so that their source and gas price are present. Counters and positions stay below
  the number of transactions held and are natural numbers or integers; nonces are 64-bit.
\<close>

section \<open>Ordering\<close>

definition sourceOf :: "Transaction \<Rightarrow> address" where
  "sourceOf tx = (case txSource tx of Some a \<Rightarrow> a | None \<Rightarrow> [])"

definition priceOf :: "Transaction \<Rightarrow> bigint" where
  "priceOf tx = (case txGasPrice tx of Some p \<Rightarrow> p | None \<Rightarrow> 0)"

definition Compare :: "Transaction \<Rightarrow> Transaction \<Rightarrow> int" where
  "Compare tx tx2 =
    (if txHash tx = txHash tx2 then 0
     else if txNonce tx > txNonce tx2 then 1
     else if txNonce tx < txNonce tx2 then - 1
     else 0)"

definition priceLess :: "Transaction \<Rightarrow> Transaction \<Rightarrow> bool" where
  "priceLess x y \<longleftrightarrow> priceOf x > priceOf y"

record TransactionWithTime =
  twItem :: Transaction
  twBegin :: int

text \<open>The skip list package and the iteration orders.\<close>

record 's cenv =
  skNew :: 's
  skGet :: "'s \<Rightarrow> Transaction \<Rightarrow> Transaction option"
  skInsert :: "'s \<Rightarrow> Transaction \<Rightarrow> 's"
  skDelete :: "'s \<Rightarrow> Transaction \<Rightarrow> 's \<times> Transaction list"
  skLen :: "'s \<Rightarrow> nat"
  skByPosition :: "'s \<Rightarrow> nat \<Rightarrow> Transaction option"
  skIter :: "'s \<Rightarrow> Transaction list"
  rangeWaiting :: "(address \<times> 's) list \<Rightarrow> (address \<times> 's) list"
  rangeQueue :: "(hash \<times> Transaction) list \<Rightarrow> (hash \<times> Transaction) list"
  rangeTxs :: "(hash \<times> TransactionWithTime) list \<Rightarrow> (hash \<times> TransactionWithTime) list"

definition skipGetLast :: "'s cenv \<Rightarrow> 's \<Rightarrow> Transaction option" where
  "skipGetLast E l = (if skLen E l = 0 then None else skByPosition E l (skLen E l - 1))"

section \<open>Pending transactions\<close>

record 's pendingContainer =
  pcLimit :: int
  pcSize :: int
  waitingMap :: "(address \<times> 's) list"

definition newPendingContainer :: "int \<Rightarrow> 's pendingContainer" where
  "newPendingContainer limit = \<lparr>pcLimit = limit, pcSize = 0, waitingMap = []\<rparr>"

text \<open>The result is the container, the evicted and the conflicting transaction.\<close>

type_synonym 's pushed = "'s pendingContainer \<times> Transaction option \<times> Transaction option"

definition doInsertOrReplace :: "'s cenv \<Rightarrow> Transaction \<Rightarrow> 's pendingContainer \<Rightarrow> 's pushed option" where
  "doInsertOrReplace E tx s =
    (case map_of (waitingMap s) (sourceOf tx) of
       None \<Rightarrow> None
     | Some l \<Rightarrow>
         (case skGet E l tx of
            Some existSource \<Rightarrow>
              if priceOf existSource < priceOf tx then
                (let (l1, deleted) = skDelete E l existSource
                 in Some (s\<lparr>pcSize := pcSize s - int (length deleted) + 1,
                            waitingMap := AList.update (sourceOf tx) (skInsert E l1 tx) (waitingMap s)\<rparr>, Some existSource, Some tx))
              else Some (s, Some tx, Some existSource)
          | None \<Rightarrow>
              Some (s\<lparr>pcSize := pcSize s + 1, waitingMap := AList.update (sourceOf tx) (skInsert E l tx) (waitingMap s)\<rparr>, None, None)))"

definition pending_remove :: "'s cenv \<Rightarrow> Transaction \<Rightarrow> 's pendingContainer \<Rightarrow> 's pendingContainer" where
  "pending_remove E tx s =
    (case map_of (waitingMap s) (sourceOf tx) of
       None \<Rightarrow> s
     | Some l \<Rightarrow>
         (let (l1, deleted) = skDelete E l tx
          in s\<lparr>pcSize := pcSize s - int (length deleted),
               waitingMap := (if skLen E l1 = 0 then AList.delete (sourceOf tx) (waitingMap s)
                              else AList.update (sourceOf tx) l1 (waitingMap s))\<rparr>))"

text \<open>The cheapest of the last transactions of all sources; an empty list makes the code panic.\<close>

fun lowestPrice :: "'s cenv \<Rightarrow> (address \<times> 's) list \<Rightarrow> Transaction option \<Rightarrow> Transaction option option" where
  "lowestPrice E [] low = Some low"
| "lowestPrice E ((a, l) # ls) low =
    (case skipGetLast E l of
       None \<Rightarrow> None
     | Some lastTx \<Rightarrow>
         lowestPrice E ls
           (case low of None \<Rightarrow> Some lastTx | Some t \<Rightarrow> if priceOf t > priceOf lastTx then Some lastTx else Some t))"

definition evictLowest :: "'s cenv \<Rightarrow> Transaction \<Rightarrow> 's pushed \<Rightarrow> (bool \<times> 's pushed) option" where
  "evictLowest E tx r =
    (case r of (s, evicted, conflicted) \<Rightarrow>
       if evicted = None \<and> pcSize s \<ge> pcLimit s then
         (case lowestPrice E (rangeWaiting E (waitingMap s)) None of
            None \<Rightarrow> None
          | Some None \<Rightarrow> Some (True, r)
          | Some (Some low) \<Rightarrow> Some (True, pending_remove E low s, Some low, Some tx))
       else Some (True, r))"

definition pending_push :: "'s cenv \<Rightarrow> Transaction \<Rightarrow> u64 \<Rightarrow> 's pendingContainer \<Rightarrow> (bool \<times> 's pushed) option" where
  "pending_push E tx stateNonce s =
    (let waiting = map_of (waitingMap s) (sourceOf tx)
     in if txNonce tx = stateNonce + 1 then
          (let s1 = (if waiting = None then s\<lparr>waitingMap := AList.update (sourceOf tx) (skNew E) (waitingMap s)\<rparr> else s)
           in Option.bind (doInsertOrReplace E tx s1) (evictLowest E tx))
        else
          (case waiting of
             None \<Rightarrow> Some (False, s, None, None)
           | Some l \<Rightarrow>
               (case skipGetLast E l of
                  None \<Rightarrow> evictLowest E tx (s, None, None)
                | Some big \<Rightarrow>
                    if txNonce tx > txNonce big + 1 then Some (False, s, None, None)
                    else Option.bind (doInsertOrReplace E tx s) (evictLowest E tx))))"

definition pending_asSlice :: "'s cenv \<Rightarrow> nat \<Rightarrow> 's pendingContainer \<Rightarrow> Transaction list" where
  "pending_asSlice E limit s =
    fold (\<lambda>(a, l) slice. slice @ take (max 1 (limit - length slice)) (skIter E l)) (rangeWaiting E (waitingMap s)) []"

section \<open>Packing by price\<close>

text \<open>
  The callback of \<open>peek\<close> works on captured variables, here a state it takes and returns. The loop
  ends because every round either shortens the heap or advances the position in one list.
\<close>

type_synonym 'a visitor = "Transaction \<Rightarrow> 'a \<Rightarrow> bool \<times> 'a"

definition peekRounds :: "'s cenv \<Rightarrow> 's pendingContainer \<Rightarrow> Transaction list \<Rightarrow> (address \<Rightarrow> nat) \<Rightarrow> nat" where
  "peekRounds E s h pos = length h + sum_list (map (\<lambda>(a, l). skLen E l - pos a) (waitingMap s))"

lemma peekRounds_next:
  assumes "map_of (waitingMap s) a = Some l" and "pos a + 1 < skLen E l" and "length h' \<le> length h"
  shows "peekRounds E s h' (pos(a := pos a + 1)) < peekRounds E s h pos"
proof -
  let ?f = "\<lambda>p (b, l). skLen E l - p b"
  have "sum_list (map (?f (pos(a := pos a + 1))) xs) < sum_list (map (?f pos) xs)" if "map_of xs a = Some l" for xs
    using that
  proof (induction xs)
    case (Cons x xs)
    obtain b m where x: "x = (b, m)" by force
    have le: "sum_list (map (?f (pos(a := pos a + 1))) xs) \<le> sum_list (map (?f pos) xs)" by (rule sum_list_mono) auto
    show ?case
    proof (cases "b = a")
      case True
      then have "m = l" using Cons.prems x by simp
      then have "skLen E m - (pos a + 1) < skLen E m - pos a" using assms(2) by simp
      with True le show ?thesis by (simp add: x)
    next
      case False
      then show ?thesis using Cons x by simp
    qed
  qed simp
  from this [OF assms(1)] assms(3) show ?thesis unfolding peekRounds_def by linarith
qed

function peekLoop :: "'s cenv \<Rightarrow> 'a visitor \<Rightarrow> 's pendingContainer \<Rightarrow> Transaction list \<Rightarrow> (address \<Rightarrow> nat) \<Rightarrow> 'a \<Rightarrow> 'a option" where
  "peekLoop E f s packingList noncePosition acc =
    (if packingList = [] then Some acc
     else
       (let (tx, rest) = heap_Pop priceLess packingList; (go, acc1) = f tx acc
        in if \<not> go then Some acc1
           else
             (let nxt = noncePosition (sourceOf tx) + 1
              in case map_of (waitingMap s) (sourceOf tx) of
                   None \<Rightarrow> peekLoop E f s rest noncePosition acc1
                 | Some l \<Rightarrow>
                     if skLen E l > nxt then
                       (case skByPosition E l nxt of
                          None \<Rightarrow> None
                        | Some nextTx \<Rightarrow>
                            peekLoop E f s (heap_Push priceLess nextTx rest) (noncePosition(sourceOf tx := nxt)) acc1)
                     else peekLoop E f s rest noncePosition acc1)))"
  by pat_completeness auto

termination
proof (relation "measure (\<lambda>(E, f, s, h, pos, acc). peekRounds E s h pos)", goal_cases)
  case 1
  then show ?case by simp
next
  case (2 E f s h pos acc pr tx rest pr2 go acc1 nxt)
  then show ?case using heap_Pop_mset(2) [of priceLess h tx rest] by (auto simp: peekRounds_def)
next
  case (3 E f s h pos acc pr tx rest pr2 go acc1 nxt l nextTx)
  have "length (heap_Push priceLess nextTx rest) \<le> length h" using 3 heap_Pop_mset(2) [of priceLess h tx rest] by simp
  then show ?case using 3 peekRounds_next [of s "sourceOf tx" l pos E "heap_Push priceLess nextTx rest" h] by simp
next
  case (4 E f s h pos acc pr tx rest pr2 go acc1 nxt l)
  then show ?case using heap_Pop_mset(2) [of priceLess h tx rest] by (auto simp: peekRounds_def)
qed

declare peekLoop.simps [simp del]

fun peekStart :: "'s cenv \<Rightarrow> (address \<times> 's) list \<Rightarrow> Transaction list \<Rightarrow> Transaction list option" where
  "peekStart E [] h = Some h"
| "peekStart E ((a, l) # ls) h =
    (case skByPosition E l 0 of None \<Rightarrow> None | Some tx \<Rightarrow> peekStart E ls (heap_Push priceLess tx h))"

definition peek :: "'s cenv \<Rightarrow> 'a visitor \<Rightarrow> 's pendingContainer \<Rightarrow> 'a \<Rightarrow> 'a option" where
  "peek E f s acc =
    (if pcSize s = 0 then Some acc
     else Option.bind (peekStart E (rangeWaiting E (waitingMap s)) []) (\<lambda>h. peekLoop E f s h (\<lambda>_. 0) acc))"

section \<open>Synchronisation\<close>

definition maxSyncCountPreSource :: nat where
  "maxSyncCountPreSource = 50"

text \<open>The flag says whether the callback asked to stop.\<close>

fun syncList :: "'a visitor \<Rightarrow> Transaction list \<Rightarrow> (address \<Rightarrow> nat) \<Rightarrow> 'a \<Rightarrow> bool \<times> (address \<Rightarrow> nat) \<times> 'a" where
  "syncList f [] countMap acc = (False, countMap, acc)"
| "syncList f (tx # txs) countMap acc =
    (let count = countMap (sourceOf tx)
     in if count \<ge> maxSyncCountPreSource then syncList f txs countMap acc
        else
          (let countMap1 = countMap(sourceOf tx := count + 1); (go, acc1) = f tx acc
           in if \<not> go then (True, countMap1, acc1) else syncList f txs countMap1 acc1))"

fun syncAll :: "'s cenv \<Rightarrow> 'a visitor \<Rightarrow> (address \<times> 's) list \<Rightarrow> (address \<Rightarrow> nat) \<Rightarrow> 'a \<Rightarrow> 'a" where
  "syncAll E f [] countMap acc = acc"
| "syncAll E f ((a, l) # ls) countMap acc =
    (case syncList f (skIter E l) countMap acc of
       (stop, countMap1, acc1) \<Rightarrow> if stop then acc1 else syncAll E f ls countMap1 acc1)"

definition pending_eachForSync :: "'s cenv \<Rightarrow> 'a visitor \<Rightarrow> 's pendingContainer \<Rightarrow> 'a \<Rightarrow> 'a" where
  "pending_eachForSync E f s acc = syncAll E f (rangeWaiting E (waitingMap s)) (\<lambda>_. 0) acc"

section \<open>The container\<close>

record 's simpleContainer =
  txsMap :: "(hash \<times> TransactionWithTime) list"
  pending :: "'s pendingContainer"
  queue :: "(hash \<times> Transaction) list"
  queueLimit :: int
  txTimeout :: int

definition newSimpleContainer :: "int \<Rightarrow> int \<Rightarrow> int \<Rightarrow> 's simpleContainer" where
  "newSimpleContainer pendingLimit qLimit timeout =
    \<lparr>txsMap = [], pending = newPendingContainer pendingLimit, queue = [], queueLimit = qLimit, txTimeout = timeout\<rparr>"

definition container_Len :: "'s simpleContainer \<Rightarrow> int" where
  "container_Len c = pcSize (pending c) + int (length (queue c))"

definition container_contains :: "'s simpleContainer \<Rightarrow> hash \<Rightarrow> bool" where
  "container_contains c key \<longleftrightarrow> map_of (txsMap c) key \<noteq> None"

definition container_get :: "'s simpleContainer \<Rightarrow> hash \<Rightarrow> Transaction option" where
  "container_get c key = map_option twItem (map_of (txsMap c) key)"

definition container_asSlice :: "'s cenv \<Rightarrow> nat \<Rightarrow> 's simpleContainer \<Rightarrow> Transaction list" where
  "container_asSlice E limit c =
    pending_asSlice E (if pcSize (pending c) < int limit then nat (pcSize (pending c)) else limit) (pending c)"

definition eachForPack :: "'s cenv \<Rightarrow> 'a visitor \<Rightarrow> 's simpleContainer \<Rightarrow> 'a \<Rightarrow> 'a option" where
  "eachForPack E f c acc = peek E f (pending c) acc"

definition eachForSync :: "'s cenv \<Rightarrow> 'a visitor \<Rightarrow> 's simpleContainer \<Rightarrow> 'a \<Rightarrow> 'a" where
  "eachForSync E f c acc = pending_eachForSync E f (pending c) acc"

text \<open>The queue holds at most one transaction of a source for a nonce, the one with the highest price.\<close>

fun queueLoop :: "Transaction \<Rightarrow> (hash \<times> Transaction) list \<Rightarrow> (hash \<times> Transaction) list \<Rightarrow> Transaction option \<Rightarrow>
    bool \<times> (hash \<times> Transaction) list \<times> Transaction option" where
  "queueLoop tx [] q evicted = (False, q, evicted)"
| "queueLoop tx ((h, old) # rest) q evicted =
    (if txNonce old = txNonce tx \<and> sourceOf old = sourceOf tx then
       (if priceOf old \<ge> priceOf tx then (True, q, Some tx)
        else queueLoop tx rest (AList.delete (txHash old) q) (Some old))
     else queueLoop tx rest q evicted)"

definition addToQueue :: "'s cenv \<Rightarrow> Transaction \<Rightarrow> 's simpleContainer \<Rightarrow> error + Transaction option \<times> 's simpleContainer" where
  "addToQueue E tx c =
    (if int (length (queue c)) > queueLimit c then Inl ''tx_pool's queue is full''
     else
       (case queueLoop tx (rangeQueue E (queue c)) (queue c) None of
          (returned, q, evicted) \<Rightarrow>
            if returned then Inr (evicted, c\<lparr>queue := q\<rparr>)
            else Inr (evicted, c\<lparr>queue := AList.update (txHash tx) tx q\<rparr>)))"

definition ErrNonce :: error where
  "ErrNonce = ''nonce error''"

definition container_push :: "'s cenv \<Rightarrow> (address \<Rightarrow> u64) \<Rightarrow> int \<Rightarrow> Transaction \<Rightarrow> 's simpleContainer \<Rightarrow>
    (error option \<times> 's simpleContainer) option" where
  "container_push E getNonce now tx c =
    (if map_of (txsMap c) (txHash tx) \<noteq> None then Some (None, c)
     else
       (let stateNonce = getNonce (sourceOf tx)
        in if txNonce tx \<le> stateNonce \<or> txNonce tx > stateNonce + 1000 then Some (Some ErrNonce, c)
           else
             (case pending_push E tx stateNonce (pending c) of
                None \<Rightarrow> None
              | Some (success, p, evicted, conflicted) \<Rightarrow>
                  (let c1 = c\<lparr>pending := p\<rparr>
                   in case (if success then Inr (evicted, c1) else addToQueue E tx c1) of
                        Inl err \<Rightarrow> Some (Some err, c1)
                      | Inr (ev, c2) \<Rightarrow>
                          (let c3 = c2\<lparr>txsMap := AList.update (txHash tx) \<lparr>twItem = tx, twBegin = now\<rparr> (txsMap c2)\<rparr>
                           in case ev of
                                None \<Rightarrow> Some (None, c3)
                              | Some e \<Rightarrow>
                                  Some (if txHash e = txHash tx then Some ''existing a transaction with same nonce'' else None,
                                    c3\<lparr>txsMap := AList.delete (txHash e) (txsMap c3)\<rparr>))))))"

definition removeWithoutLock :: "'s cenv \<Rightarrow> Transaction \<Rightarrow> 's simpleContainer \<Rightarrow> 's simpleContainer" where
  "removeWithoutLock E tx c =
    c\<lparr>txsMap := AList.delete (txHash tx) (txsMap c), pending := pending_remove E tx (pending c),
      queue := AList.delete (txHash tx) (queue c)\<rparr>"

definition container_remove :: "'s cenv \<Rightarrow> hash \<Rightarrow> 's simpleContainer \<Rightarrow> 's simpleContainer" where
  "container_remove E key c =
    (case map_of (txsMap c) key of None \<Rightarrow> c | Some tw \<Rightarrow> removeWithoutLock E (twItem tw) c)"

text \<open>The nonce cache: a cached zero counts as absent.\<close>

definition getNonceWithCache :: "(address \<Rightarrow> u64) \<Rightarrow> (address \<Rightarrow> u64) \<Rightarrow> Transaction \<Rightarrow> u64 \<times> (address \<Rightarrow> u64)" where
  "getNonceWithCache getNonce cache tx =
    (if cache (sourceOf tx) \<noteq> 0 then (cache (sourceOf tx), cache)
     else (let nonce = getNonce (sourceOf tx) in (nonce, cache(sourceOf tx := nonce))))"

definition mapToNonceTxSlice :: "'s cenv \<Rightarrow> (hash \<times> Transaction) list \<Rightarrow> Transaction list" where
  "mapToNonceTxSlice E txMap = sort_key txNonce (map snd (rangeQueue E txMap))"

fun promoteLoop :: "'s cenv \<Rightarrow> (address \<Rightarrow> u64) \<Rightarrow> Transaction list \<Rightarrow> (address \<Rightarrow> u64) \<Rightarrow> 's simpleContainer \<Rightarrow> 's simpleContainer option" where
  "promoteLoop E getNonce [] cache c = Some c"
| "promoteLoop E getNonce (tx # txs) cache c =
    (case getNonceWithCache getNonce cache tx of
       (stateNonce, cache1) \<Rightarrow>
         if txNonce tx \<le> stateNonce then
           promoteLoop E getNonce txs cache1
             (c\<lparr>txsMap := AList.delete (txHash tx) (txsMap c), queue := AList.delete (txHash tx) (queue c)\<rparr>)
         else
           (case pending_push E tx stateNonce (pending c) of
              None \<Rightarrow> None
            | Some (success, p, evicted, conflicted) \<Rightarrow>
                (let c1 = c\<lparr>pending := p\<rparr>;
                     c2 = (case evicted of
                             None \<Rightarrow> c1
                           | Some e \<Rightarrow> c1\<lparr>txsMap := AList.delete (txHash e) (txsMap c1), queue := AList.delete (txHash e) (queue c1)\<rparr>);
                     c3 = (if success then c2\<lparr>queue := AList.delete (txHash tx) (queue c2)\<rparr> else c2)
                 in promoteLoop E getNonce txs cache1 c3)))"

definition promoteQueueToPending :: "'s cenv \<Rightarrow> (address \<Rightarrow> u64) \<Rightarrow> 's simpleContainer \<Rightarrow> 's simpleContainer option" where
  "promoteQueueToPending E getNonce c = promoteLoop E getNonce (mapToNonceTxSlice E (queue c)) (\<lambda>_. 0) c"

definition maxPendingSize :: nat where
  "maxPendingSize = 40000"

fun evictLoop :: "'s cenv \<Rightarrow> (address \<Rightarrow> u64) \<Rightarrow> Transaction list \<Rightarrow> (address \<Rightarrow> u64) \<Rightarrow> 's simpleContainer \<Rightarrow> 's simpleContainer" where
  "evictLoop E getNonce [] cache c = c"
| "evictLoop E getNonce (tx # txs) cache c =
    (case getNonceWithCache getNonce cache tx of
       (stateNonce, cache1) \<Rightarrow>
         evictLoop E getNonce txs cache1 (if txNonce tx \<le> stateNonce then container_remove E (txHash tx) c else c))"

definition evictPending :: "'s cenv \<Rightarrow> (address \<Rightarrow> u64) \<Rightarrow> 's simpleContainer \<Rightarrow> 's simpleContainer" where
  "evictPending E getNonce c = evictLoop E getNonce (container_asSlice E maxPendingSize c) (\<lambda>_. 0) c"

definition evictTimeout :: "'s cenv \<Rightarrow> int \<Rightarrow> 's simpleContainer \<Rightarrow> 's simpleContainer" where
  "evictTimeout E now c =
    fold (\<lambda>(h, tw) c. if now - twBegin tw > txTimeout c then removeWithoutLock E (twItem tw) c else c) (rangeTxs E (txsMap c)) c"

definition clearRoute :: "'s cenv \<Rightarrow> (address \<Rightarrow> u64) \<Rightarrow> int \<Rightarrow> 's simpleContainer \<Rightarrow> 's simpleContainer" where
  "clearRoute E getNonce now c = evictTimeout E now (evictPending E getNonce c)"

end
