(* ===== verification/Container_Inv.thy ===== *)
theory Container_Inv
  imports Tx_Container
begin

text \<open>
  What the pending lists hold. Under the documented behaviour of the skip list package the lists of
  the container are lists of transactions sorted by nonce, and every operation of
  \<open>pendingContainer\<close> is an update of one of them; the size counter is the number of transactions.
\<close>

section \<open>The skip list package\<close>

definition nonceSorted :: "Transaction list \<Rightarrow> bool" where
  "nonceSorted xs \<longleftrightarrow> sorted_wrt (<) (map txNonce xs)"

text \<open>A transaction fits a list when no other transaction of the list has its hash.\<close>

definition fits :: "Transaction \<Rightarrow> Transaction list \<Rightarrow> bool" where
  "fits t xs \<longleftrightarrow> (\<forall>x\<in>set xs. txHash x = txHash t \<longrightarrow> txNonce x = txNonce t)"

definition without :: "Transaction \<Rightarrow> Transaction list \<Rightarrow> Transaction list" where
  "without t xs = filter (\<lambda>x. txNonce x \<noteq> txNonce t) xs"

definition skipOk :: "'s cenv \<Rightarrow> ('s \<Rightarrow> Transaction list) \<Rightarrow> bool" where
  "skipOk E items \<longleftrightarrow>
    items (skNew E) = [] \<and>
    (\<forall>l. skLen E l = length (items l) \<and> skIter E l = items l \<and>
      (\<forall>i. skByPosition E l i = (if i < length (items l) then Some (items l ! i) else None)) \<and>
      (\<forall>t. nonceSorted (items l) \<longrightarrow> fits t (items l) \<longrightarrow>
        skGet E l t = find (\<lambda>x. Compare x t = 0) (items l) \<and>
        items (fst (skDelete E l t)) = filter (\<lambda>x. Compare x t \<noteq> 0) (items l) \<and>
        snd (skDelete E l t) = filter (\<lambda>x. Compare x t = 0) (items l) \<and>
        (skGet E l t = None \<longrightarrow> items (skInsert E l t) = insort_key txNonce t (items l)))) \<and>
    (\<forall>m. mset (rangeWaiting E m) = mset m) \<and> (\<forall>m. mset (rangeQueue E m) = mset m) \<and> (\<forall>m. mset (rangeTxs E m) = mset m)"

lemma Compare_zero:
  assumes "fits t xs" and "x \<in> set xs"
  shows "Compare x t = 0 \<longleftrightarrow> txNonce x = txNonce t"
proof -
  have "txHash x = txHash t \<Longrightarrow> txNonce x = txNonce t" using assms unfolding fits_def by blast
  then show ?thesis by (simp add: Compare_def neq_iff)
qed

lemma skipOk_plain:
  assumes "skipOk E items"
  shows "items (skNew E) = []" "skLen E l = length (items l)" "skIter E l = items l"
    "skByPosition E l i = (if i < length (items l) then Some (items l ! i) else None)"
    "mset (rangeWaiting E m) = mset m" "mset (rangeQueue E q) = mset q" "mset (rangeTxs E x) = mset x"
  using assms unfolding skipOk_def by blast+

lemma skip_range:
  assumes "skipOk E items"
  shows "set (rangeWaiting E m) = set m" "set (rangeQueue E q) = set q" "set (rangeTxs E x) = set x"
  using skipOk_plain(5-7) [OF assms] by (metis set_mset_mset)+

lemma skip_last:
  assumes "skipOk E items"
  shows "skipGetLast E l = (if items l = [] then None else Some (last (items l)))"
  by (simp add: skipGetLast_def skipOk_plain [OF assms] last_conv_nth)

lemma skip_ops:
  assumes E: "skipOk E items" and l: "nonceSorted (items l)" "fits t (items l)"
  shows "skGet E l t = find (\<lambda>x. txNonce x = txNonce t) (items l)"
    and "items (fst (skDelete E l t)) = without t (items l)"
    and "length (snd (skDelete E l t)) + length (without t (items l)) = length (items l)"
    and "skGet E l t = None \<Longrightarrow> items (skInsert E l t) = insort_key txNonce t (items l)"
proof -
  note z = Compare_zero [OF l(2)]
  have laws: "skGet E l t = find (\<lambda>x. Compare x t = 0) (items l)" "items (fst (skDelete E l t)) = filter (\<lambda>x. Compare x t \<noteq> 0) (items l)"
    "snd (skDelete E l t) = filter (\<lambda>x. Compare x t = 0) (items l)"
    "skGet E l t = None \<longrightarrow> items (skInsert E l t) = insort_key txNonce t (items l)"
    using E l unfolding skipOk_def by blast+
  show "skGet E l t = find (\<lambda>x. txNonce x = txNonce t) (items l)" unfolding laws(1) by (rule find_cong) (simp_all add: z)
  show wo: "items (fst (skDelete E l t)) = without t (items l)"
    unfolding laws(2) without_def by (rule filter_cong) (simp_all add: z)
  show "length (snd (skDelete E l t)) + length (without t (items l)) = length (items l)"
    unfolding laws(3) wo [symmetric] laws(2) by (rule sum_length_filter_compl)
  show "skGet E l t = None \<Longrightarrow> items (skInsert E l t) = insort_key txNonce t (items l)" using laws(4) by simp
qed

section \<open>Lists sorted by nonce\<close>

lemma nonceSorted_Cons: "nonceSorted (x # xs) \<longleftrightarrow> (\<forall>y\<in>set xs. txNonce x < txNonce y) \<and> nonceSorted xs"
  by (simp add: nonceSorted_def)

lemma nonceSorted_unique: "nonceSorted xs \<Longrightarrow> x \<in> set xs \<Longrightarrow> y \<in> set xs \<Longrightarrow> txNonce x = txNonce y \<Longrightarrow> x = y"
  by (induction xs) (auto simp: nonceSorted_Cons)

lemma nonceSorted_distinct: "nonceSorted xs \<Longrightarrow> distinct xs"
  by (induction xs) (auto simp: nonceSorted_Cons)

lemma nonceSorted_without: "nonceSorted xs \<Longrightarrow> nonceSorted (without t xs)"
  by (induction xs) (auto simp: nonceSorted_Cons without_def)

lemma set_without: "nonceSorted xs \<Longrightarrow> t \<in> set xs \<Longrightarrow> set (without t xs) = set xs - {t}"
  by (auto simp: without_def dest: nonceSorted_unique)

lemma nonceSorted_insort:
  "nonceSorted xs \<Longrightarrow> \<forall>x\<in>set xs. txNonce x \<noteq> txNonce t \<Longrightarrow> nonceSorted (insort_key txNonce t xs)"
  by (induction xs) (auto simp: nonceSorted_Cons set_insort_key)

lemma nonceSorted_find: "find (\<lambda>x. txNonce x = txNonce t) xs = Some y \<Longrightarrow> y \<in> set xs \<and> txNonce y = txNonce t"
  by (induction xs) (auto split: if_splits)

lemma find_none: "find (\<lambda>x. txNonce x = txNonce t) xs = None \<longleftrightarrow> (\<forall>x\<in>set xs. txNonce x \<noteq> txNonce t)"
  by (auto simp: find_None_iff)

section \<open>The pending container as a function from sources to lists\<close>

definition pend :: "('s \<Rightarrow> Transaction list) \<Rightarrow> 's pendingContainer \<Rightarrow> address \<Rightarrow> Transaction list" where
  "pend items s a = (case map_of (waitingMap s) a of None \<Rightarrow> [] | Some l \<Rightarrow> items l)"

definition pendSet :: "('s \<Rightarrow> Transaction list) \<Rightarrow> 's pendingContainer \<Rightarrow> Transaction set" where
  "pendSet items s = {t. t \<in> set (pend items s (sourceOf t))}"

definition pendCount :: "('s \<Rightarrow> Transaction list) \<Rightarrow> (address \<times> 's) list \<Rightarrow> nat" where
  "pendCount items m = sum_list (map (\<lambda>(a, l). length (items l)) m)"

text \<open>Lists that may be empty: the state in the middle of a push.\<close>

definition listsOk :: "('s \<Rightarrow> Transaction list) \<Rightarrow> 's pendingContainer \<Rightarrow> bool" where
  "listsOk items s \<longleftrightarrow> distinct (map fst (waitingMap s)) \<and> pcSize s = int (pendCount items (waitingMap s)) \<and>
    (\<forall>a. nonceSorted (pend items s a) \<and> (\<forall>t\<in>set (pend items s a). sourceOf t = a))"

definition nonEmpty :: "('s \<Rightarrow> Transaction list) \<Rightarrow> (address \<times> 's) list \<Rightarrow> bool" where
  "nonEmpty items m \<longleftrightarrow> (\<forall>(a, l)\<in>set m. items l \<noteq> [])"

definition pendInv :: "('s \<Rightarrow> Transaction list) \<Rightarrow> 's pendingContainer \<Rightarrow> bool" where
  "pendInv items s \<longleftrightarrow> listsOk items s \<and> nonEmpty items (waitingMap s)"

lemma pendCount_Cons [simp]: "pendCount items [] = 0" "pendCount items ((a, l) # m) = length (items l) + pendCount items m"
  by (simp_all add: pendCount_def)

lemma pendCount_update:
  "map_of m a = Some l \<Longrightarrow> pendCount items (AList.update a l' m) + length (items l) = pendCount items m + length (items l')"
  by (induction m) (auto split: if_splits)

lemma pendCount_new: "map_of m a = None \<Longrightarrow> pendCount items (AList.update a l m) = pendCount items m + length (items l)"
  by (induction m) (auto split: if_splits)

lemma pendCount_delete:
  "distinct (map fst m) \<Longrightarrow> map_of m a = Some l \<Longrightarrow> pendCount items (AList.delete a m) + length (items l) = pendCount items m"
proof (induction m)
  case (Cons x m)
  obtain b k where x: "x = (b, k)" by force
  show ?case
  proof (cases "b = a")
    case True
    then have "AList.delete a m = m" using Cons.prems x by (intro delete_id) (auto simp: dom_map_of_conv_image_fst)
    with True Cons.prems x show ?thesis by simp
  next
    case False
    with Cons x show ?thesis by auto
  qed
qed simp

text \<open>The two ways in which a list changes.\<close>

lemma put_list:
  assumes ok: "listsOk items s" and l: "map_of (waitingMap s) a = Some l"
    and new: "nonceSorted (items l')" "\<forall>t\<in>set (items l'). sourceOf t = a" and n: "n = pcSize s - int (length (items l)) + int (length (items l'))"
  shows "listsOk items (s\<lparr>pcSize := n, waitingMap := AList.update a l' (waitingMap s)\<rparr>)"
    and "pend items (s\<lparr>pcSize := n, waitingMap := AList.update a l' (waitingMap s)\<rparr>) = (pend items s)(a := items l')"
proof -
  show p: "pend items (s\<lparr>pcSize := n, waitingMap := AList.update a l' (waitingMap s)\<rparr>) = (pend items s)(a := items l')"
    by (auto simp: pend_def fun_eq_iff update_conv')
  show "listsOk items (s\<lparr>pcSize := n, waitingMap := AList.update a l' (waitingMap s)\<rparr>)"
    using ok new pendCount_update [OF l, of items l'] unfolding listsOk_def p by (auto simp: n distinct_update)
qed

lemma drop_list:
  assumes ok: "listsOk items s" and l: "map_of (waitingMap s) a = Some l" and n: "n = pcSize s - int (length (items l))"
  shows "listsOk items (s\<lparr>pcSize := n, waitingMap := AList.delete a (waitingMap s)\<rparr>)"
    and "pend items (s\<lparr>pcSize := n, waitingMap := AList.delete a (waitingMap s)\<rparr>) = (pend items s)(a := [])"
proof -
  show p: "pend items (s\<lparr>pcSize := n, waitingMap := AList.delete a (waitingMap s)\<rparr>) = (pend items s)(a := [])"
    by (auto simp: pend_def fun_eq_iff delete_conv')
  show "listsOk items (s\<lparr>pcSize := n, waitingMap := AList.delete a (waitingMap s)\<rparr>)"
    using ok pendCount_delete [OF _ l, of items] unfolding listsOk_def p by (auto simp: n distinct_delete nonceSorted_def)
qed

lemma pend_list: "map_of (waitingMap s) a = Some l \<Longrightarrow> pend items s a = items l"
  by (simp add: pend_def)

lemma listsOkD:
  assumes "listsOk items s"
  shows "nonceSorted (pend items s a)" "t \<in> set (pend items s a) \<Longrightarrow> sourceOf t = a" "distinct (map fst (waitingMap s))"
  using assms by (auto simp: listsOk_def)

lemma nonEmpty_update: "nonEmpty items m \<Longrightarrow> items l \<noteq> [] \<Longrightarrow> nonEmpty items (AList.update a l m)"
  unfolding nonEmpty_def by (induction m) auto

lemma nonEmpty_delete: "nonEmpty items m \<Longrightarrow> nonEmpty items (AList.delete a m)"
  unfolding nonEmpty_def by (auto simp: AList.delete_eq)

text \<open>What removing a transaction makes of the lists.\<close>

definition removedFrom :: "('s \<Rightarrow> Transaction list) \<Rightarrow> Transaction \<Rightarrow> 's pendingContainer \<Rightarrow> 's pendingContainer \<Rightarrow> bool" where
  "removedFrom items t s s' \<longleftrightarrow> (let xs = pend items s (sourceOf t) in
     listsOk items s' \<and> pend items s' = (pend items s)(sourceOf t := without t xs) \<and> (pendInv items s \<longrightarrow> pendInv items s') \<and>
     pcLimit s' = pcLimit s \<and> pcSize s' = pcSize s - int (length xs) + int (length (without t xs)))"

lemma remove_pend:
  assumes E: "skipOk E items" and ok: "listsOk items s" and t: "fits t (pend items s (sourceOf t))"
  shows "removedFrom items t s (pending_remove E t s)"
proof (cases "map_of (waitingMap s) (sourceOf t)")
  case None
  then have "pend items s (sourceOf t) = []" by (simp add: pend_def)
  with None ok show ?thesis
    by (simp add: removedFrom_def pending_remove_def without_def fun_upd_idem)
next
  case (Some l)
  note pl = pend_list [OF Some, of items]
  have srt: "nonceSorted (items l)" "\<And>x. x \<in> set (items l) \<Longrightarrow> sourceOf x = sourceOf t" using listsOkD(1,2) [OF ok] pl by metis+
  note ops = skip_ops [OF E srt(1) t [unfolded pl]]
  obtain l1 del where d: "skDelete E l t = (l1, del)" by force
  have l1: "items l1 = without t (items l)" "length del + length (items l1) = length (items l)" using ops(2,3) by (simp_all add: d)
  have sz: "pcSize s - int (length del) = pcSize s - int (length (items l)) + int (length (items l1))" using l1(2) by simp
  have new: "nonceSorted (items l1)" "\<forall>x\<in>set (items l1). sourceOf x = sourceOf t"
    using nonceSorted_without [OF srt(1)] srt(2) by (auto simp: l1(1) without_def)
  have rm: "pending_remove E t s = s\<lparr>pcSize := pcSize s - int (length del), waitingMap :=
      (if items l1 = [] then AList.delete (sourceOf t) (waitingMap s) else AList.update (sourceOf t) l1 (waitingMap s))\<rparr>"
    by (simp add: pending_remove_def Some d skipOk_plain [OF E])
  show ?thesis
  proof (cases "items l1 = []")
    case True
    then have "pcSize s - int (length del) = pcSize s - int (length (items l))" using sz by simp
    from drop_list [OF ok Some this] True show ?thesis
      unfolding rm removedFrom_def pl Let_def l1(1) [symmetric] by (auto simp: pendInv_def nonEmpty_delete sz)
  next
    case False
    from put_list [OF ok Some new sz] False show ?thesis
      unfolding rm removedFrom_def pl Let_def l1(1) [symmetric] by (auto simp: pendInv_def nonEmpty_update sz)
  qed
qed

section \<open>Pushing\<close>

text \<open>What inserting or replacing makes of the lists, by the transaction with the same nonce.\<close>

definition insertedInto :: "('s \<Rightarrow> Transaction list) \<Rightarrow> Transaction \<Rightarrow> 's pendingContainer \<Rightarrow> 's pendingContainer \<Rightarrow> Transaction option \<Rightarrow> bool" where
  "insertedInto items t s s' ev \<longleftrightarrow> (let a = sourceOf t; xs = pend items s a in
     listsOk items s' \<and> pcLimit s' = pcLimit s \<and> (nonEmpty items (AList.delete a (waitingMap s)) \<longrightarrow> nonEmpty items (waitingMap s')) \<and>
     (case find (\<lambda>x. txNonce x = txNonce t) xs of
        None \<Rightarrow> ev = None \<and> pend items s' = (pend items s)(a := insort_key txNonce t xs) \<and> pcSize s' = pcSize s + 1
      | Some ex \<Rightarrow>
          if priceOf ex < priceOf t then
            ev = Some ex \<and> pend items s' = (pend items s)(a := insort_key txNonce t (without t xs)) \<and> pcSize s' = pcSize s
          else ev = Some t \<and> s' = s))"

lemma nonEmpty_put:
  assumes "nonEmpty items (AList.delete a m)" and "items l \<noteq> []" and "distinct (map fst m)"
  shows "nonEmpty items (AList.update a l m)"
proof -
  have "set (AList.update a l m) \<subseteq> insert (a, l) (set (AList.delete a m))"
    using assms(3)
  proof (induction m)
    case (Cons x m)
    show ?case
    proof (cases "fst x = a")
      case True
      then have "AList.delete a m = m" using Cons.prems by (intro delete_id) auto
      with True show ?thesis by (auto simp: AList.delete_eq)
    next
      case False
      with Cons show ?thesis by (cases x) auto
    qed
  qed simp
  with assms show ?thesis by (auto simp: nonEmpty_def)
qed

lemma nonEmpty_same:
  assumes "nonEmpty items (AList.delete a m)" and "map_of m a = Some l" and "items l \<noteq> []" and "distinct (map fst m)"
  shows "nonEmpty items m"
proof -
  have "AList.update a l m = m" using assms(2) by (induction m) auto
  with nonEmpty_put [OF assms(1,3,4)] show ?thesis by simp
qed

lemma length_without_one:
  assumes "nonceSorted xs" and "x \<in> set xs"
  shows "length xs = Suc (length (without x xs))"
proof -
  have "card (set xs) = Suc (card (set xs - {x}))" using assms(2) by (intro card.remove) simp_all
  then show ?thesis
    using nonceSorted_distinct [OF assms(1)] nonceSorted_distinct [OF nonceSorted_without [OF assms(1)], of x] set_without [OF assms]
    by (metis distinct_card)
qed

lemma insert_pend:
  assumes E: "skipOk E items" and ok: "listsOk items s" and l: "map_of (waitingMap s) (sourceOf t) = Some l"
    and inj: "inj_on txHash (insert t (set (items l)))"
  shows "\<exists>s' ev cf. doInsertOrReplace E t s = Some (s', ev, cf) \<and> insertedInto items t s s' ev"
proof -
  let ?a = "sourceOf t" and ?same = "\<lambda>x. txNonce x = txNonce t"
  note pl = pend_list [OF l, of items]
  have srt: "nonceSorted (items l)" "\<And>x. x \<in> set (items l) \<Longrightarrow> sourceOf x = ?a" using listsOkD(1,2) [OF ok] pl by metis+
  have fit: "fits x (items l)" if "x \<in> insert t (set (items l))" for x
    using that inj unfolding fits_def inj_on_def by blast
  have get: "skGet E l t = find ?same (items l)" using skip_ops(1) [OF E srt(1) fit] by simp
  have dist: "distinct (map fst (waitingMap s))" using ok by (simp add: listsOk_def)
  show ?thesis
  proof (cases "find ?same (items l)")
    case None
    let ?l' = "skInsert E l t"
    have ins: "items ?l' = insort_key txNonce t (items l)" using skip_ops(4) [OF E srt(1) fit, of t] get None by simp
    have new: "nonceSorted (items ?l')" "\<forall>x\<in>set (items ?l'). sourceOf x = ?a" "items ?l' \<noteq> []"
      using nonceSorted_insort [OF srt(1)] None srt(2) by (auto simp: ins find_none set_insort_key)
    have n: "pcSize s + 1 = pcSize s - int (length (items l)) + int (length (items ?l'))" by (simp add: ins)
    from put_list [OF ok l new(1,2) n] new(3) show ?thesis
      by (simp add: doInsertOrReplace_def l get None insertedInto_def Let_def pl ins nonEmpty_put dist)
  next
    case (Some ex)
    then have ex: "ex \<in> set (items l)" "txNonce ex = txNonce t" using nonceSorted_find by blast+
    then have wo: "without ex xs = without t xs" for xs by (simp add: without_def)
    show ?thesis
    proof (cases "priceOf ex < priceOf t")
      case True
      obtain l1 del where d: "skDelete E l ex = (l1, del)" by force
      have l1: "items l1 = without t (items l)" "length del + length (items l1) = length (items l)"
        using skip_ops(2,3) [OF E srt(1) fit, of ex] ex(1) by (simp_all add: d wo)
      let ?l' = "skInsert E l1 t"
      have srt1: "nonceSorted (items l1)" using nonceSorted_without [OF srt(1)] by (simp add: l1)
      have fit1: "fits t (items l1)" using fit [of t] by (auto simp: fits_def l1 without_def)
      have none: "find ?same (items l1) = None" by (simp add: find_none l1 without_def)
      have ins: "items ?l' = insort_key txNonce t (items l1)" using skip_ops(1,4) [OF E srt1 fit1] none by simp
      have new: "nonceSorted (items ?l')" "\<forall>x\<in>set (items ?l'). sourceOf x = ?a" "items ?l' \<noteq> []"
        using nonceSorted_insort [OF srt1] none srt(2) by (auto simp: ins find_none set_insort_key l1(1) without_def)
      have n: "pcSize s - int (length del) + 1 = pcSize s - int (length (items l)) + int (length (items ?l'))"
        using l1(2) by (simp add: ins)
      have "length (items l) = Suc (length (items l1))" using length_without_one [OF srt(1) ex(1)] by (simp add: wo l1)
      then have "pcSize s - int (length del) + 1 = pcSize s" using l1(2) by simp
      with put_list [OF ok l new(1,2) n] new(3) True show ?thesis
        by (simp add: doInsertOrReplace_def l get Some d insertedInto_def Let_def pl ins l1(1) nonEmpty_put dist)
    next
      case False
      have "nonEmpty items (waitingMap s)" if "nonEmpty items (AList.delete ?a (waitingMap s))"
        using nonEmpty_same [OF that l] ex(1) dist by (cases "items l") auto
      with False ok show ?thesis by (simp add: doInsertOrReplace_def l get Some insertedInto_def Let_def pl)
    qed
  qed
qed

lemma lowestPrice_spec:
  assumes "skipOk E items"
  shows "nonEmpty items ls \<Longrightarrow> \<exists>r. lowestPrice E ls low = Some r \<and> (r = None \<longleftrightarrow> ls = [] \<and> low = None) \<and>
    (\<forall>t. r = Some t \<longrightarrow> (low = Some t \<or> t \<in> (\<lambda>p. last (items (snd p))) ` set ls) \<and>
       (\<forall>u. low = Some u \<longrightarrow> priceOf t \<le> priceOf u) \<and> (\<forall>p\<in>set ls. priceOf t \<le> priceOf (last (items (snd p)))))"
proof (induction ls arbitrary: low)
  case (Cons x ls)
  obtain a l where x: "x = (a, l)" by force
  have ne: "items l \<noteq> []" "nonEmpty items ls" using Cons.prems by (auto simp: nonEmpty_def x)
  let ?low = "case low of None \<Rightarrow> Some (last (items l)) | Some t \<Rightarrow> if priceOf t > priceOf (last (items l)) then Some (last (items l)) else Some t"
  have eq: "lowestPrice E (x # ls) low = lowestPrice E ls ?low" using ne by (simp add: x skip_last [OF assms])
  have some: "?low \<noteq> None" by (auto split: option.splits)
  show ?case unfolding eq using Cons.IH [OF ne(2), of ?low] some
    by (auto simp: x split: option.splits if_splits)
qed simp

lemma pendSet_eq: "listsOk items s \<Longrightarrow> pendSet items s = (\<Union>a. set (pend items s a))"
  using listsOkD(2) by (fastforce simp: pendSet_def)

lemma pendSet_sub: "listsOk items s \<Longrightarrow> set (pend items s a) \<subseteq> pendSet items s"
  by (auto simp: pendSet_eq)

lemma pendSet_upd:
  assumes "pend items s' = (pend items s)(a := xs)"
  shows "pendSet items s' = {t \<in> pendSet items s. sourceOf t \<noteq> a} \<union> {t \<in> set xs. sourceOf t = a}"
  by (auto simp: pendSet_def assms)

lemma removed_set:
  assumes "removedFrom items t s s'" and "listsOk items s" and "t \<in> pendSet items s"
  shows "pendSet items s' = pendSet items s - {t}" and "pcSize s' = pcSize s - 1"
proof -
  have p: "pend items s' = (pend items s)(sourceOf t := without t (pend items s (sourceOf t)))"
    and n: "pcSize s' = pcSize s - int (length (pend items s (sourceOf t))) + int (length (without t (pend items s (sourceOf t))))"
    using assms(1) by (simp_all add: removedFrom_def Let_def)
  have t: "t \<in> set (pend items s (sourceOf t))" and srt: "nonceSorted (pend items s (sourceOf t))"
    using assms(2,3) listsOkD(1) by (auto simp: pendSet_def)
  show "pendSet items s' = pendSet items s - {t}"
    unfolding pendSet_upd [OF p] set_without [OF srt t] by (auto simp: pendSet_def)
  show "pcSize s' = pcSize s - 1" using n length_without_one [OF srt t] by simp
qed

lemma fits_set:
  assumes "inj_on txHash A" and "t \<in> A" and "set xs \<subseteq> A"
  shows "fits t xs"
  using assms unfolding fits_def inj_on_def by blast

text \<open>The contract of a push that is accepted.\<close>

definition pushedInto :: "('s \<Rightarrow> Transaction list) \<Rightarrow> Transaction \<Rightarrow> 's pendingContainer \<Rightarrow> 's pendingContainer \<Rightarrow> Transaction option \<Rightarrow> bool" where
  "pushedInto items t s s' ev \<longleftrightarrow> pendInv items s' \<and> pcLimit s' = pcLimit s \<and>
     pendSet items s' = insert t (pendSet items s) - set_option ev \<and> set_option ev \<subseteq> insert t (pendSet items s) \<and>
     (pcSize s < max 1 (pcLimit s) \<longrightarrow> pcSize s' < max 1 (pcLimit s))"

lemma inserted_set:
  assumes ins: "insertedInto items t s s' ev" and ok: "listsOk items s" and t: "t \<notin> pendSet items s"
  shows "pendSet items s' = insert t (pendSet items s) - set_option ev \<and> set_option ev \<subseteq> insert t (pendSet items s) \<and>
    pcSize s' = (if ev = None then pcSize s + 1 else pcSize s)"
proof (cases "find (\<lambda>x. txNonce x = txNonce t) (pend items s (sourceOf t))")
  case None
  with ins have p: "ev = None" "pend items s' = (pend items s)(sourceOf t := insort_key txNonce t (pend items s (sourceOf t)))" "pcSize s' = pcSize s + 1"
    by (auto simp: insertedInto_def Let_def)
  show ?thesis unfolding pendSet_upd [OF p(2)] using p(1,3) by (auto simp: pendSet_def set_insort_key)
next
  case (Some ex)
  let ?xs = "pend items s (sourceOf t)"
  have ex: "ex \<in> set ?xs" "txNonce ex = txNonce t" using nonceSorted_find [OF Some] by auto
  then have exs: "ex \<in> pendSet items s" "sourceOf ex = sourceOf t" using listsOkD(2) [OF ok] by (auto simp: pendSet_def)
  have wo: "without t ?xs = without ex ?xs" using ex(2) by (simp add: without_def)
  show ?thesis
  proof (cases "priceOf ex < priceOf t")
    case True
    with ins Some have p: "ev = Some ex" "pend items s' = (pend items s)(sourceOf t := insort_key txNonce t (without t ?xs))" "pcSize s' = pcSize s"
      by (auto simp: insertedInto_def Let_def)
    have xs: "set (insort_key txNonce t (without t ?xs)) = insert t (set ?xs - {ex})"
      unfolding set_insort_key wo set_without [OF listsOkD(1) [OF ok] ex(1)] ..
    have in_xs: "x \<in> set ?xs \<longleftrightarrow> x \<in> pendSet items s" if "sourceOf x = sourceOf t" for x using that by (simp add: pendSet_def)
    have "pendSet items s' = insert t (pendSet items s) - {ex}"
      unfolding pendSet_upd [OF p(2)] xs using exs t in_xs by blast
    with p(1,3) exs(1) show ?thesis by simp
  next
    case False
    with ins Some have "ev = Some t" "s' = s" by (auto simp: insertedInto_def Let_def)
    with t show ?thesis by auto
  qed
qed

lemma evict_pend:
  assumes E: "skipOk E items" and ok: "pendInv items s" and t: "t \<in> pendSet items s" and inj: "inj_on txHash (pendSet items s)"
    and full: "pcSize s \<ge> pcLimit s"
  shows "\<exists>s' low. evictLowest E t (s, None, None) = Some (True, s', Some low, Some t) \<and> low \<in> pendSet items s \<and> pendInv items s' \<and>
    pcLimit s' = pcLimit s \<and> pendSet items s' = pendSet items s - {low} \<and> pcSize s' = pcSize s - 1"
proof -
  let ?ls = "rangeWaiting E (waitingMap s)"
  have lo: "listsOk items s" using ok by (simp add: pendInv_def)
  have ne: "nonEmpty items ?ls" using ok skip_range [OF E] by (simp add: pendInv_def nonEmpty_def)
  have "waitingMap s \<noteq> []" using t by (auto simp: pendSet_def pend_def)
  then have "?ls \<noteq> []" using skip_range(1) [OF E, of "waitingMap s"] by auto
  with lowestPrice_spec [OF E ne, of None] obtain low where low: "lowestPrice E ?ls None = Some (Some low)" "low \<in> (\<lambda>p. last (items (snd p))) ` set ?ls"
    by auto
  then obtain a l where l: "(a, l) \<in> set (waitingMap s)" "low = last (items l)" using skip_range [OF E] by auto
  then have al: "map_of (waitingMap s) a = Some l" using lo by (intro map_of_is_SomeI) (auto simp: listsOk_def)
  have "items l \<noteq> []" using l(1) ok by (auto simp: pendInv_def nonEmpty_def)
  then have "low \<in> set (pend items s a)" using l(2) pend_list [OF al, of items] by simp
  then have lowin: "low \<in> pendSet items s" using pendSet_sub [OF lo] by blast
  have "fits low (pend items s (sourceOf low))" by (rule fits_set [OF inj lowin pendSet_sub [OF lo]])
  note rm = remove_pend [OF E lo this]
  show ?thesis using removed_set [OF rm lo lowin] rm ok low(1) full lowin
    by (simp add: evictLowest_def removedFrom_def Let_def)
qed

lemma insert_evict:
  assumes E: "skipOk E items" and ok: "listsOk items s" and ne: "nonEmpty items (AList.delete (sourceOf t) (waitingMap s))"
    and l: "map_of (waitingMap s) (sourceOf t) = Some l" and inj: "inj_on txHash (insert t (pendSet items s))" and t: "t \<notin> pendSet items s"
  shows "\<exists>s' ev cf. Option.bind (doInsertOrReplace E t s) (evictLowest E t) = Some (True, s', ev, cf) \<and> pushedInto items t s s' ev"
proof -
  have "set (items l) \<subseteq> pendSet items s" using pendSet_sub [OF ok, of "sourceOf t"] pend_list [OF l, of items] by simp
  then have "inj_on txHash (insert t (set (items l)))" by (intro inj_on_subset [OF inj]) auto
  from insert_pend [OF E ok l this] obtain s1 ev cf where ins: "doInsertOrReplace E t s = Some (s1, ev, cf)" "insertedInto items t s s1 ev" by blast
  note set1 = inserted_set [OF ins(2) ok t]
  have ok1: "pendInv items s1" "pcLimit s1 = pcLimit s" using ins(2) ne by (simp_all add: insertedInto_def Let_def pendInv_def)
  have cf: "cf = None" if "ev = None"
    using ins(1) that l by (auto simp: doInsertOrReplace_def split: option.splits prod.splits if_splits)
  show ?thesis
  proof (cases "ev = None \<and> pcSize s1 \<ge> pcLimit s1")
    case True
    then have s1: "pendSet items s1 = insert t (pendSet items s)" "pcSize s1 = pcSize s + 1" "cf = None" using set1 cf by auto
    have "inj_on txHash (pendSet items s1)" using inj by (simp add: s1)
    from evict_pend [OF E ok1(1) _ this] True s1 ins(1) show ?thesis by (fastforce simp: pushedInto_def ok1)
  next
    case False
    then have "evictLowest E t (s1, ev, cf) = Some (True, s1, ev, cf)" by (auto simp: evictLowest_def)
    moreover have "pcSize s < max 1 (pcLimit s) \<longrightarrow> pcSize s1 < max 1 (pcLimit s)" using False set1 ok1(2) by auto
    ultimately show ?thesis using ins(1) set1 ok1 by (simp add: pushedInto_def)
  qed
qed

lemma push_pend:
  assumes E: "skipOk E items" and ok: "pendInv items s" and inj: "inj_on txHash (insert t (pendSet items s))" and t: "t \<notin> pendSet items s"
  shows "\<exists>added s' ev cf. pending_push E t n s = Some (added, s', ev, cf) \<and> (if added then pushedInto items t s s' ev else s' = s \<and> ev = None)"
proof (cases "map_of (waitingMap s) (sourceOf t)")
  case None
  have lo: "listsOk items s" "nonEmpty items (waitingMap s)" using ok by (simp_all add: pendInv_def)
  let ?s1 = "s\<lparr>waitingMap := AList.update (sourceOf t) (skNew E) (waitingMap s)\<rparr>"
  have p1: "pend items ?s1 = pend items s" using None by (auto simp: pend_def fun_eq_iff update_conv' skipOk_plain [OF E])
  have l1: "listsOk items ?s1"
    using lo(1) pendCount_new [OF None, of items "skNew E"] unfolding listsOk_def p1 by (simp add: distinct_update skipOk_plain [OF E])
  have "AList.delete (sourceOf t) (AList.update (sourceOf t) (skNew E) (waitingMap s)) = AList.delete (sourceOf t) (waitingMap s)"
    by (simp add: delete_update_same)
  then have ne1: "nonEmpty items (AList.delete (sourceOf t) (waitingMap ?s1))" using nonEmpty_delete [OF lo(2)] by simp
  have set1: "pendSet items ?s1 = pendSet items s" by (simp add: pendSet_def p1)
  have m1: "map_of (waitingMap ?s1) (sourceOf t) = Some (skNew E)" by (simp add: update_conv')
  have "\<exists>s' ev cf. Option.bind (doInsertOrReplace E t ?s1) (evictLowest E t) = Some (True, s', ev, cf) \<and> pushedInto items t ?s1 s' ev"
    by (rule insert_evict [OF E l1 ne1 m1]) (simp_all only: set1 inj t not_False_eq_True)
  then show ?thesis using None by (auto simp: pending_push_def Let_def pushedInto_def set1)
next
  case (Some l)
  have lo: "listsOk items s" "nonEmpty items (waitingMap s)" using ok by (simp_all add: pendInv_def)
  have "items l \<noteq> []" using lo(2) map_of_SomeD [OF Some] by (auto simp: nonEmpty_def)
  moreover have "\<exists>s' ev cf. Option.bind (doInsertOrReplace E t s) (evictLowest E t) = Some (True, s', ev, cf) \<and> pushedInto items t s s' ev"
    by (rule insert_evict [OF E lo(1) nonEmpty_delete [OF lo(2)] Some inj t])
  ultimately show ?thesis using Some by (auto simp: pending_push_def Let_def skip_last [OF E])
qed

end
