(* ===== verification/Container_Props.thy ===== *)
theory Container_Props
  imports Container_Inv
begin

text \<open>
  The invariant of the transaction container and its steps: pushing, removing, promoting queued
  transactions and the periodic clearing, with any iteration orders, at any time and for any nonces
  of the chain.
\<close>

section \<open>The invariant\<close>

definition qSet :: "'s simpleContainer \<Rightarrow> Transaction set" where
  "qSet c = snd ` set (queue c)"

definition queueOk :: "(hash \<times> Transaction) list \<Rightarrow> bool" where
  "queueOk q \<longleftrightarrow> distinct (map fst q) \<and> (\<forall>p\<in>set q. fst p = txHash (snd p)) \<and>
     inj_on (\<lambda>t. (sourceOf t, txNonce t)) (snd ` set q)"

definition mapOk :: "(hash \<times> TransactionWithTime) list \<Rightarrow> bool" where
  "mapOk m \<longleftrightarrow> distinct (map fst m) \<and> (\<forall>p\<in>set m. fst p = txHash (twItem (snd p)))"

definition contInv :: "('s \<Rightarrow> Transaction list) \<Rightarrow> 's simpleContainer \<Rightarrow> bool" where
  "contInv items c \<longleftrightarrow> pendInv items (pending c) \<and> pcSize (pending c) < max 1 (pcLimit (pending c)) \<and>
     mapOk (txsMap c) \<and> queueOk (queue c) \<and> int (length (queue c)) \<le> max 0 (queueLimit c + 1) \<and>
     (\<forall>t\<in>pendSet items (pending c) \<union> qSet c. container_get c (txHash t) = Some t) \<and>
     pendSet items (pending c) \<inter> qSet c = {}"

lemma contInv_new: "contInv items (newSimpleContainer pl ql to)"
  by (simp add: contInv_def newSimpleContainer_def newPendingContainer_def pendInv_def listsOk_def nonEmpty_def pend_def
      nonceSorted_def mapOk_def queueOk_def qSet_def pendSet_def)

lemma contInv_get: "contInv items c \<Longrightarrow> t \<in> pendSet items (pending c) \<union> qSet c \<Longrightarrow> container_get c (txHash t) = Some t"
  unfolding contInv_def by blast

lemma contInv_hash:
  assumes "contInv items c"
  shows "inj_on txHash (pendSet items (pending c) \<union> qSet c)"
  using assms by (intro inj_onI) (metis contInv_def option.inject)

lemma set_delete: "set (AList.delete h m) = {p \<in> set m. fst p \<noteq> h}"
  by (auto simp: AList.delete_eq)

lemma mapOk_delete: "mapOk m \<Longrightarrow> mapOk (AList.delete h m)"
  by (auto simp: mapOk_def distinct_delete set_delete)

lemma mapOk_update:
  assumes "mapOk m" and "h = txHash (twItem v)"
  shows "mapOk (AList.update h v m)"
proof -
  have "set (AList.update h v m) \<subseteq> insert (h, v) (set m)" by (induction m) auto
  with assms show ?thesis by (auto simp: mapOk_def distinct_update)
qed

lemma queueOk_delete: "queueOk q \<Longrightarrow> queueOk (AList.delete h q)"
  by (auto simp: queueOk_def distinct_delete set_delete intro: inj_on_subset)

lemma queue_delete_set: "queueOk q \<Longrightarrow> snd ` set (AList.delete h q) = {t \<in> snd ` set q. txHash t \<noteq> h}"
  by (force simp: queueOk_def set_delete)

lemma qSet_delete: "queueOk (queue c) \<Longrightarrow> qSet (c\<lparr>queue := AList.delete h (queue c)\<rparr>) = {t \<in> qSet c. txHash t \<noteq> h}"
  by (simp add: qSet_def queue_delete_set)

lemma get_delete: "container_get (c\<lparr>txsMap := AList.delete h m\<rparr>) k = (if k = h then None else map_option twItem (map_of m k))"
  by (simp add: container_get_def delete_conv')

text \<open>A container that holds less: fewer pending and queued transactions, and those it holds are still found.\<close>

lemma contInv_shrink:
  assumes inv: "contInv items c" and p: "pendInv items (pending c')" "pcSize (pending c') < max 1 (pcLimit (pending c'))"
    and "mapOk (txsMap c')" "queueOk (queue c')" "length (queue c') \<le> length (queue c)" "queueLimit c' = queueLimit c"
    and sub: "pendSet items (pending c') \<subseteq> pendSet items (pending c)" "qSet c' \<subseteq> qSet c"
    and got: "\<And>t. t \<in> pendSet items (pending c') \<union> qSet c' \<Longrightarrow> container_get c' (txHash t) = container_get c (txHash t)"
  shows "contInv items c'"
proof -
  have "\<forall>t\<in>pendSet items (pending c') \<union> qSet c'. container_get c' (txHash t) = Some t" using got sub inv by (auto simp: contInv_def)
  moreover have "pendSet items (pending c') \<inter> qSet c' = {}" using sub inv by (auto simp: contInv_def)
  ultimately show ?thesis using assms by (auto simp: contInv_def)
qed

section \<open>Removing\<close>

definition agrees :: "('s \<Rightarrow> Transaction list) \<Rightarrow> Transaction \<Rightarrow> 's simpleContainer \<Rightarrow> bool" where
  "agrees items tx c \<longleftrightarrow> (\<forall>t\<in>pendSet items (pending c) \<union> qSet c. txHash t = txHash tx \<longrightarrow> t = tx)"

lemma removeWithoutLock_inv:
  assumes E: "skipOk E items" and inv: "contInv items c" and tx: "agrees items tx c"
  shows "contInv items (removeWithoutLock E tx c)"
    and "pendSet items (pending (removeWithoutLock E tx c)) \<subseteq> pendSet items (pending c)" "qSet (removeWithoutLock E tx c) \<subseteq> qSet c"
proof -
  let ?c = "removeWithoutLock E tx c" and ?p = "pending_remove E tx (pending c)"
  have ok: "listsOk items (pending c)" "queueOk (queue c)" "mapOk (txsMap c)" "pendInv items (pending c)"
    using inv by (auto simp: contInv_def pendInv_def)
  have "fits tx (pend items (pending c) (sourceOf tx))"
    using tx pendSet_sub [OF ok(1), of "sourceOf tx"] unfolding fits_def agrees_def by blast
  note rm = remove_pend [OF E ok(1) this]
  have pset: "pend items ?p = (pend items (pending c))(sourceOf tx := without tx (pend items (pending c) (sourceOf tx)))"
    using rm by (simp add: removedFrom_def Let_def)
  have sub: "pendSet items ?p \<subseteq> pendSet items (pending c) - {tx}"
    unfolding pendSet_upd [OF pset] by (auto simp: pendSet_def without_def)
  have q: "qSet ?c = {t \<in> qSet c. txHash t \<noteq> txHash tx}" using queue_delete_set [OF ok(2)] by (simp add: qSet_def removeWithoutLock_def)
  have p: "pending ?c = ?p" by (simp add: removeWithoutLock_def)
  show s1: "pendSet items (pending ?c) \<subseteq> pendSet items (pending c)" using sub p by auto
  show s2: "qSet ?c \<subseteq> qSet c" using q by auto
  have len: "length (without tx xs) \<le> length xs" for xs by (simp add: without_def)
  have size: "pcSize ?p < max 1 (pcLimit ?p)"
    using rm inv len [of "pend items (pending c) (sourceOf tx)"] by (auto simp: removedFrom_def Let_def contInv_def)
  have h: "txHash t \<noteq> txHash tx" if "t \<in> pendSet items ?p \<union> qSet ?c" for t
    using that sub q tx by (auto simp: agrees_def)
  show "contInv items ?c"
  proof (rule contInv_shrink [OF inv])
    show "pendInv items (pending ?c)" using rm ok(4) by (simp add: p removedFrom_def Let_def)
    show "container_get ?c (txHash t) = container_get c (txHash t)" if "t \<in> pendSet items (pending ?c) \<union> qSet ?c" for t
      using h that by (simp add: p container_get_def removeWithoutLock_def delete_conv')
  qed (use size s1 s2 ok in \<open>simp_all add: removeWithoutLock_def mapOk_delete queueOk_delete length_delete_le\<close>)
qed

lemma container_remove_inv:
  assumes E: "skipOk E items" and inv: "contInv items c"
  shows "contInv items (container_remove E key c)"
proof (cases "map_of (txsMap c) key")
  case (Some tw)
  have key: "txHash (twItem tw) = key" using map_of_SomeD [OF Some] inv by (auto simp: contInv_def mapOk_def)
  have "t = twItem tw" if "t \<in> pendSet items (pending c) \<union> qSet c" "txHash t = key" for t
    using contInv_get [OF inv that(1)] that(2) Some by (simp add: container_get_def)
  then have "agrees items (twItem tw) c" by (simp add: agrees_def key)
  from removeWithoutLock_inv(1) [OF E inv this] show ?thesis by (simp add: container_remove_def Some)
qed (use inv in \<open>simp add: container_remove_def\<close>)

lemma evictLoop_inv: "skipOk E items \<Longrightarrow> contInv items c \<Longrightarrow> contInv items (evictLoop E getNonce txs cache c)"
  by (induction txs arbitrary: cache c) (auto simp: container_remove_inv split: prod.splits)

lemma evictTimeout_inv:
  assumes E: "skipOk E items" and inv: "contInv items c"
  shows "contInv items (evictTimeout E now c)"
proof -
  have known: "t = twItem tw" if "(h, tw) \<in> set (txsMap c)" "t \<in> pendSet items (pending c) \<union> qSet c" "txHash t = txHash (twItem tw)" for h tw t
  proof -
    from that(1) inv have "h = txHash (twItem tw)" "map_of (txsMap c) h = Some tw" by (auto simp: contInv_def mapOk_def)
    moreover have "container_get c (txHash t) = Some t" using contInv_get [OF inv that(2)] .
    ultimately show ?thesis using that(3) by (simp add: container_get_def)
  qed
  let ?f = "\<lambda>(h, tw) c. if now - twBegin tw > txTimeout c then removeWithoutLock E (twItem tw) c else c"
  have "contInv items (fold ?f xs c')"
    if "set xs \<subseteq> set (txsMap c)" "contInv items c'" "pendSet items (pending c') \<subseteq> pendSet items (pending c)" "qSet c' \<subseteq> qSet c" for xs c'
    using that
  proof (induction xs arbitrary: c')
    case (Cons x xs)
    obtain h tw where x: "x = (h, tw)" by force
    have "agrees items (twItem tw) c'" using known [of h tw] Cons.prems by (auto simp: agrees_def x)
    note r = removeWithoutLock_inv [OF E Cons.prems(2) this]
    show ?case using Cons.IH [OF _ r(1)] Cons.IH [of c'] r(2,3) Cons.prems by (auto simp: x)
  qed simp
  from this [of "rangeTxs E (txsMap c)" c] inv show ?thesis by (simp add: evictTimeout_def skip_range [OF E])
qed

lemma clearRoute_inv: "skipOk E items \<Longrightarrow> contInv items c \<Longrightarrow> contInv items (clearRoute E getNonce now c)"
  by (simp add: clearRoute_def evictPending_def evictLoop_inv evictTimeout_inv)

section \<open>Pushing\<close>

lemma queueLoop_skip:
  "\<forall>p\<in>set xs. \<not> (txNonce (snd p) = txNonce tx \<and> sourceOf (snd p) = sourceOf tx) \<Longrightarrow> queueLoop tx (xs @ ys) q ev = queueLoop tx ys q ev"
  by (induction xs) auto

text \<open>At most one queued transaction has the source and nonce of the new one.\<close>

lemma queueLoop_spec:
  assumes E: "skipOk E items" and q: "queueOk q"
  obtains (none) "queueLoop tx (rangeQueue E q) q None = (False, q, None)"
      "\<forall>p\<in>set q. \<not> (txNonce (snd p) = txNonce tx \<and> sourceOf (snd p) = sourceOf tx)"
  | (kept) "queueLoop tx (rangeQueue E q) q None = (True, q, Some tx)"
  | (replaced) old where "old \<in> snd ` set q" "priceOf old < priceOf tx" "queueLoop tx (rangeQueue E q) q None = (False, AList.delete (txHash old) q, Some old)"
      "\<forall>p\<in>set (AList.delete (txHash old) q). \<not> (txNonce (snd p) = txNonce tx \<and> sourceOf (snd p) = sourceOf tx)"
proof (cases "\<exists>p\<in>set q. txNonce (snd p) = txNonce tx \<and> sourceOf (snd p) = sourceOf tx")
  case False
  then show thesis using none queueLoop_skip [of "rangeQueue E q" tx "[]" q None] skip_range(2) [OF E, of q] by simp
next
  case True
  let ?m = "\<lambda>p. txNonce (snd p) = txNonce tx \<and> sourceOf (snd p) = sourceOf tx"
  from True obtain p where p: "p \<in> set q" "?m p" by blast
  have only: "p' = p" if "p' \<in> set q" "?m p'" for p'
  proof -
    have "inj_on (\<lambda>t. (sourceOf t, txNonce t)) (snd ` set q)" using q by (simp add: queueOk_def)
    from inj_onD [OF this, of "snd p'" "snd p"] have "snd p' = snd p" using p that by simp
    moreover have "fst p' = fst p" using q p that calculation by (simp add: queueOk_def)
    ultimately show ?thesis by (simp add: prod_eq_iff)
  qed
  have "distinct q" using q by (simp add: queueOk_def distinct_map)
  then have "distinct (rangeQueue E q)" using skipOk_plain(6) [OF E, of q] mset_eq_imp_distinct_iff by blast
  moreover obtain ys zs where r: "rangeQueue E q = ys @ p # zs" using p(1) skip_range(2) [OF E, of q] by (metis split_list)
  ultimately have "p \<notin> set ys" "p \<notin> set zs" "set ys \<subseteq> set q" "set zs \<subseteq> set q"
    using skip_range(2) [OF E, of q] by auto
  then have no: "\<forall>p\<in>set ys. \<not> ?m p" "\<forall>p\<in>set zs. \<not> ?m p" using only by blast+
  obtain h old where po: "p = (h, old)" by force
  have h: "h = txHash old" using q p(1) by (force simp: queueOk_def po)
  have loop: "queueLoop tx (rangeQueue E q) q None =
      (if priceOf old \<ge> priceOf tx then (True, q, Some tx) else (False, AList.delete (txHash old) q, Some old))"
    unfolding r queueLoop_skip [OF no(1)] using p(2) queueLoop_skip [OF no(2), of "[]"] by (simp add: po)
  show thesis
  proof (cases "priceOf old \<ge> priceOf tx")
    case True
    with kept loop show thesis by simp
  next
    case False
    moreover have "\<forall>p\<in>set (AList.delete (txHash old) q). \<not> ?m p" using only po h unfolding set_delete by fastforce
    moreover have "old \<in> snd ` set q" using p(1) by (force simp: po)
    ultimately show thesis using replaced loop by simp
  qed
qed

lemma queueOk_update:
  assumes "queueOk q" and "\<forall>p\<in>set q. \<not> (txNonce (snd p) = txNonce tx \<and> sourceOf (snd p) = sourceOf tx)" and "txHash tx \<notin> fst ` set q"
  shows "queueOk (AList.update (txHash tx) tx q)" and "snd ` set (AList.update (txHash tx) tx q) = insert tx (snd ` set q)"
    and "length (AList.update (txHash tx) tx q) = Suc (length q)"
proof -
  have up: "AList.update (txHash tx) tx q = q @ [(txHash tx, tx)]" using assms(3) by (induction q) auto
  show "queueOk (AList.update (txHash tx) tx q)"
    using assms by (auto simp: up queueOk_def inj_on_def)
  show "snd ` set (AList.update (txHash tx) tx q) = insert tx (snd ` set q)" "length (AList.update (txHash tx) tx q) = Suc (length q)"
    by (simp_all add: up)
qed

lemma contInv_fresh:
  assumes inv: "contInv items c" and new: "map_of (txsMap c) (txHash tx) = None" and t: "t \<in> pendSet items (pending c) \<union> qSet c"
  shows "txHash t \<noteq> txHash tx"
  using contInv_get [OF inv t] new by (auto simp: container_get_def)

text \<open>The container after a push: the new transaction is registered, the evicted one is not.\<close>

lemma contInv_register:
  assumes p: "pendInv items p" "pcSize p < max 1 (pcLimit p)" and q: "queueOk q" "int (length q) \<le> max 0 (queueLimit c + 1)"
    and sub: "pendSet items p \<union> snd ` set q \<subseteq> A" and dis: "pendSet items p \<inter> snd ` set q = {}"
    and m: "mapOk m" "\<And>t. t \<in> A \<Longrightarrow> map_option twItem (map_of m (txHash t)) = Some t"
  shows "contInv items (c\<lparr>txsMap := m, pending := p, queue := q\<rparr>)"
proof -
  have "\<forall>t\<in>pendSet items p \<union> snd ` set q. map_option twItem (map_of m (txHash t)) = Some t" using sub m(2) by blast
  then show ?thesis using p q dis m(1) by (simp add: contInv_def qSet_def container_get_def del: map_option_eq_Some)
qed

lemma registered_get:
  assumes inv: "contInv items c" and A: "A = insert tx (pendSet items (pending c) \<union> qSet c)" and inj: "inj_on txHash A" and ev: "set_option ev \<subseteq> A"
    and m: "m = (case ev of None \<Rightarrow> m0 | Some e \<Rightarrow> AList.delete (txHash e) m0)"
      "\<And>h. map_option twItem (map_of m0 h) = (if h = txHash tx then Some tx else container_get c h)"
    and t: "t \<in> A - set_option ev"
  shows "map_option twItem (map_of m (txHash t)) = Some t"
proof -
  have "txHash e \<noteq> txHash t" if "ev = Some e" for e using that t ev inj_onD [OF inj, of e t] by auto
  then have "map_option twItem (map_of m (txHash t)) = map_option twItem (map_of m0 (txHash t))"
    by (auto simp: m(1) delete_conv' split: option.splits)
  also have "\<dots> = Some t"
    using t contInv_get [OF inv, of t] inj_onD [OF inj, of t tx] unfolding m(2) A by auto
  finally show ?thesis .
qed

lemma addToQueue_inv:
  assumes E: "skipOk E items" and inv: "contInv items c" and new: "txHash tx \<notin> txHash ` (pendSet items (pending c) \<union> qSet c)"
    and add: "addToQueue E tx c = Inr (ev, c1)"
  shows "\<exists>q. c1 = c\<lparr>queue := q\<rparr> \<and> queueOk q \<and> int (length q) \<le> max 0 (queueLimit c + 1) \<and> set_option ev \<subseteq> insert tx (qSet c) \<and>
    snd ` set q \<subseteq> insert tx (qSet c) - set_option ev"
proof -
  have qok: "queueOk (queue c)" and len: "int (length (queue c)) \<le> queueLimit c"
    using inv add by (auto simp: contInv_def addToQueue_def split: if_splits)
  have txq: "tx \<notin> qSet c" using new by auto
  have fresh: "txHash tx \<notin> fst ` set (queue c)" using qok new by (force simp: queueOk_def qSet_def)
  from qok show ?thesis
  proof (rule queueLoop_spec [OF E, of _ tx], goal_cases)
    case 1
    note u = queueOk_update [OF qok 1(2) fresh]
    show ?case
      by (rule exI [of _ "AList.update (txHash tx) tx (queue c)"]) (use u 1(1) len add txq in \<open>auto simp: addToQueue_def qSet_def split: if_splits\<close>)
  next
    case 2
    show ?case
      by (rule exI [of _ "queue c"]) (use 2 len add qok txq in \<open>auto simp: addToQueue_def qSet_def split: if_splits\<close>)
  next
    case (3 old)
    let ?q = "AList.delete (txHash old) (queue c)"
    have "txHash tx \<notin> fst ` set ?q" using fresh by (auto simp: set_delete)
    note u = queueOk_update [OF queueOk_delete [OF qok, of "txHash old"] 3(4) this]
    have l: "length ?q \<le> length (queue c)" by (rule length_delete_le)
    have s: "snd ` set ?q \<subseteq> qSet c - {old}" using queue_delete_set [OF qok, of "txHash old"] by (auto simp: qSet_def)
    have "old \<noteq> tx" using 3(1) txq by (auto simp: qSet_def)
    then show ?case
      by - (rule exI [of _ "AList.update (txHash tx) tx ?q"],
        use 3(1,3) u l len add s in \<open>auto simp: addToQueue_def qSet_def split: if_splits\<close>)
  qed
qed

lemma container_order:
  "c\<lparr>pending := p, txsMap := m\<rparr> = c\<lparr>txsMap := m, pending := p\<rparr>" "c\<lparr>queue := q, txsMap := m\<rparr> = c\<lparr>txsMap := m, queue := q\<rparr>"
  "c\<lparr>queue := q, pending := p\<rparr> = c\<lparr>pending := p, queue := q\<rparr>"
  by (cases c; simp)+

lemma container_push_inv:
  assumes E: "skipOk E items" and inv: "contInv items c"
  shows "\<exists>err c'. container_push E getNonce now tx c = Some (err, c') \<and> contInv items c'"
proof (cases "map_of (txsMap c) (txHash tx) \<noteq> None \<or> txNonce tx \<le> getNonce (sourceOf tx) \<or> txNonce tx > getNonce (sourceOf tx) + 1000")
  case True
  then show ?thesis using inv by (auto simp: container_push_def Let_def)
next
  case False
  let ?P = "pendSet items (pending c)"
  have new: "txHash tx \<notin> txHash ` (?P \<union> qSet c)" using contInv_fresh [OF inv, of tx] False by fastforce
  define A where "A = insert tx (?P \<union> qSet c)"
  have inj: "inj_on txHash A" using contInv_hash [OF inv] new by (auto simp: A_def)
  have dis: "?P \<inter> qSet c = {}" "tx \<notin> ?P" "tx \<notin> qSet c" using inv new by (auto simp: contInv_def)
  have pinv: "pendInv items (pending c)" "pcSize (pending c) < max 1 (pcLimit (pending c))" "mapOk (txsMap c)" "queueOk (queue c)"
    "int (length (queue c)) \<le> max 0 (queueLimit c + 1)" using inv by (simp_all add: contInv_def)
  have "inj_on txHash (insert tx ?P)" using inj by (rule inj_on_subset) (auto simp: A_def)
  from push_pend [OF E pinv(1) this dis(2), of "getNonce (sourceOf tx)"] obtain added p ev cf where
    push: "pending_push E tx (getNonce (sourceOf tx)) (pending c) = Some (added, p, ev, cf)"
    "if added then pushedInto items tx (pending c) p ev else p = pending c \<and> ev = None" by blast
  let ?base = "AList.update (txHash tx) \<lparr>twItem = tx, twBegin = now\<rparr> (txsMap c)"
  let ?m = "\<lambda>ev. case ev of None \<Rightarrow> ?base | Some e \<Rightarrow> AList.delete (txHash e) ?base"
  have m0: "map_option twItem (map_of ?base h) = (if h = txHash tx then Some tx else container_get c h)" for h
    by (simp add: update_conv' container_get_def)
  have mok: "mapOk (?m ev)" for ev 
    using mapOk_update [OF pinv(3), of "txHash tx" "\<lparr>twItem = tx, twBegin = now\<rparr>"] by (simp add: mapOk_delete split: option.splits)
  have reg: "contInv items (c\<lparr>txsMap := ?m ev, pending := p, queue := q\<rparr>)"
    if "pendInv items p" "pcSize p < max 1 (pcLimit p)" "queueOk q" "int (length q) \<le> max 0 (queueLimit c + 1)" "set_option ev \<subseteq> A"
      "pendSet items p \<union> snd ` set q \<subseteq> A - set_option ev" "pendSet items p \<inter> snd ` set q = {}" for p q ev
    by (rule contInv_register [OF that(1-4,6,7) mok registered_get [OF inv A_def inj that(5) refl m0]])
  show ?thesis
  proof (cases added)
    case True
    then have pu: "pushedInto items tx (pending c) p ev" using push by simp
    have "contInv items (c\<lparr>txsMap := ?m ev, pending := p, queue := queue c\<rparr>)"
      by (rule reg) (use pu pinv dis in \<open>auto simp: pushedInto_def A_def qSet_def\<close>)
    then show ?thesis using True False push(1) by (auto simp: container_push_def Let_def container_order split: option.splits)
  next
    case na: False
    then have p: "p = pending c" "ev = None" using push(2) by auto
    have c1: "c\<lparr>pending := pending c\<rparr> = c" by simp
    show ?thesis
    proof (cases "addToQueue E tx c")
      case (Inl e)
      then show ?thesis using na False push(1) inv by (auto simp: container_push_def Let_def p)
    next
      case (Inr r)
      obtain ev2 c2 where r: "r = (ev2, c2)" by force
      from addToQueue_inv [OF E inv new Inr [unfolded r]] obtain q where q: "c2 = c\<lparr>queue := q\<rparr>" "queueOk q"
        "int (length q) \<le> max 0 (queueLimit c + 1)" "set_option ev2 \<subseteq> insert tx (qSet c)" "snd ` set q \<subseteq> insert tx (qSet c) - set_option ev2" by blast
      have "contInv items (c\<lparr>txsMap := ?m ev2, pending := pending c, queue := q\<rparr>)"
        by (rule reg) (use q pinv dis in \<open>auto simp: A_def\<close>)
      then show ?thesis using na False push(1) q(1) by (auto simp: container_push_def Let_def p Inr r container_order split: option.splits)
    qed
  qed
qed

section \<open>Promoting\<close>

definition dropOpt :: "Transaction option \<Rightarrow> (hash \<times> 'v) list \<Rightarrow> (hash \<times> 'v) list" where
  "dropOpt ev m = (case ev of None \<Rightarrow> m | Some e \<Rightarrow> AList.delete (txHash e) m)"

text \<open>One queued transaction accepted by the pending container.\<close>

lemma promoted_inv:
  assumes inv: "contInv items c" and tx: "tx \<in> qSet c" and pu: "pushedInto items tx (pending c) p ev"
  defines "c' \<equiv> c\<lparr>txsMap := dropOpt ev (txsMap c), pending := p, queue := AList.delete (txHash tx) (dropOpt ev (queue c))\<rparr>"
  shows "contInv items c'" and "qSet c' = qSet c - {tx}"
proof -
  let ?P = "pendSet items (pending c)" and ?q = "AList.delete (txHash tx) (dropOpt ev (queue c))"
  have dis: "?P \<inter> qSet c = {}" and ok: "pcSize (pending c) < max 1 (pcLimit (pending c))" "mapOk (txsMap c)" "queueOk (queue c)"
    "int (length (queue c)) \<le> max 0 (queueLimit c + 1)" using inv by (simp_all add: contInv_def)
  have ev: "set_option ev \<subseteq> insert tx ?P" and P': "pendSet items p = insert tx ?P - set_option ev" using pu by (simp_all add: pushedInto_def)
  have other: "txHash t \<noteq> txHash u" if "t \<in> ?P \<union> qSet c" "u \<in> ?P \<union> qSet c" "t \<noteq> u" for t u
    using inj_onD [OF contInv_hash [OF inv], of t u] that by blast
  have evU: "e \<in> ?P \<union> qSet c" if "ev = Some e" for e using that ev tx by auto
  have q1: "queueOk (dropOpt ev (queue c))" "length (dropOpt ev (queue c)) \<le> length (queue c)"
    using ok(3) by (auto simp: dropOpt_def queueOk_delete length_delete_le split: option.splits)
  have "snd ` set (dropOpt ev (queue c)) = {t \<in> qSet c. \<forall>e. ev = Some e \<longrightarrow> txHash t \<noteq> txHash e}"
    using ok(3) by (auto simp: dropOpt_def queue_delete_set qSet_def split: option.splits)
  then have q2: "snd ` set ?q = {t \<in> qSet c. txHash t \<noteq> txHash tx \<and> (\<forall>e. ev = Some e \<longrightarrow> txHash t \<noteq> txHash e)}"
    using queue_delete_set [OF q1(1), of "txHash tx"] by auto
  have q3: "snd ` set ?q = qSet c - {tx}"
    using other tx ev dis evU unfolding q2 by (auto; metis IntI Un_iff empty_iff insertE option.set_intros subset_iff)
  then show "qSet c' = qSet c - {tx}" by (simp add: c'_def qSet_def)
  have size: "pendInv items p" "pcSize p < max 1 (pcLimit p)" using pu ok(1) by (simp_all add: pushedInto_def)
  have len: "int (length ?q) \<le> max 0 (queueLimit c + 1)"
    using ok(4) q1(2) length_delete_le [of "txHash tx" "dropOpt ev (queue c)"] by simp
  have sub: "pendSet items p \<union> snd ` set ?q \<subseteq> (?P \<union> qSet c) - set_option ev"
    unfolding P' q3 using tx ev dis by auto
  have "pendSet items p \<inter> snd ` set ?q = {}" unfolding P' q3 using dis by auto
  moreover have "mapOk (dropOpt ev (txsMap c))" using ok(2) by (simp add: dropOpt_def mapOk_delete split: option.splits)
  moreover have "map_option twItem (map_of (dropOpt ev (txsMap c)) (txHash t)) = Some t" if t: "t \<in> (?P \<union> qSet c) - set_option ev" for t
  proof -
    have "txHash t \<noteq> txHash e" if "ev = Some e" for e using other [of t e] evU [OF that] t that by auto
    then show ?thesis using contInv_get [OF inv, of t] t
      by (auto simp: dropOpt_def delete_conv' container_get_def split: option.splits)
  qed
  ultimately show "contInv items c'"
    unfolding c'_def by (rule contInv_register [OF size queueOk_delete [OF q1(1)] len sub])
qed

lemma promoteLoop_inv:
  assumes E: "skipOk E items"
  shows "contInv items c \<Longrightarrow> set txs \<subseteq> qSet c \<Longrightarrow> distinct txs \<Longrightarrow> \<exists>c'. promoteLoop E getNonce txs cache c = Some c' \<and> contInv items c'"
proof (induction txs arbitrary: cache c)
  case (Cons tx txs)
  note inv = Cons.prems(1)
  have dis: "pendSet items (pending c) \<inter> qSet c = {}" and ok: "pendInv items (pending c)" "mapOk (txsMap c)" "queueOk (queue c)"
    "pcSize (pending c) < max 1 (pcLimit (pending c))" using inv by (simp_all add: contInv_def)
  have tx: "tx \<in> qSet c" "tx \<notin> pendSet items (pending c)" "set txs \<subseteq> qSet c - {tx}" "distinct txs" using Cons.prems(2,3) dis by auto
  have inj: "inj_on txHash (pendSet items (pending c) \<union> qSet c)" by (rule contInv_hash [OF inv])
  then have other: "txHash t \<noteq> txHash tx" if "t \<in> pendSet items (pending c) \<union> qSet c" "t \<noteq> tx" for t using inj_onD [OF inj, of t tx] that tx(1) by blast
  obtain n cache1 where n: "getNonceWithCache getNonce cache tx = (n, cache1)" by force
  show ?case
  proof (cases "txNonce tx \<le> n")
    case True
    let ?c = "c\<lparr>txsMap := AList.delete (txHash tx) (txsMap c), queue := AList.delete (txHash tx) (queue c)\<rparr>"
    have q: "qSet ?c = qSet c - {tx}" using queue_delete_set [OF ok(3), of "txHash tx"] other by (auto simp: qSet_def)
    have "contInv items ?c"
    proof (rule contInv_shrink [OF inv])
      show "container_get ?c (txHash t) = container_get c (txHash t)" if "t \<in> pendSet items (pending ?c) \<union> qSet ?c" for t
        using that other [of t] tx(2) q by (auto simp: container_get_def delete_conv')
    qed (use ok q in \<open>auto simp: mapOk_delete queueOk_delete length_delete_le\<close>)
    from Cons.IH [OF this _ tx(4)] tx(3) q True n show ?thesis by simp
  next
    case False
    have "inj_on txHash (insert tx (pendSet items (pending c)))" by (rule inj_on_subset [OF inj]) (use tx in auto)
    from push_pend [OF E ok(1) this tx(2), of n] obtain added p ev cf where
      push: "pending_push E tx n (pending c) = Some (added, p, ev, cf)" "if added then pushedInto items tx (pending c) p ev else p = pending c \<and> ev = None"
      by blast
    show ?thesis
    proof (cases added)
      case True
      note pr = promoted_inv [OF inv tx(1), of p ev]
      let ?c = "c\<lparr>txsMap := dropOpt ev (txsMap c), pending := p, queue := AList.delete (txHash tx) (dropOpt ev (queue c))\<rparr>"
      have "promoteLoop E getNonce (tx # txs) cache c = promoteLoop E getNonce txs cache1 ?c"
        using True False push(1) n by (auto simp: Let_def dropOpt_def container_order split: option.splits)
      with Cons.IH [OF pr(1) _ tx(4)] pr(2) push(2) True tx(3) show ?thesis by simp
    next
      case na: False
      then show ?thesis using False push n Cons.IH [OF inv _ tx(4)] tx(3) by auto
    qed
  qed
qed simp

lemma promote_inv:
  assumes E: "skipOk E items" and inv: "contInv items c"
  shows "\<exists>c'. promoteQueueToPending E getNonce c = Some c' \<and> contInv items c'"
proof -
  have q: "queueOk (queue c)" using inv by (simp add: contInv_def)
  have hash: "map fst (queue c) = map (txHash \<circ> snd) (queue c)" using q by (simp add: queueOk_def)
  have "distinct (map (txHash \<circ> snd) (queue c))" using q unfolding hash [symmetric] by (simp add: queueOk_def)
  then have "distinct (map snd (queue c))" by (auto simp: distinct_map comp_def inj_on_def)
  then have "distinct (map snd (rangeQueue E (queue c)))"
    using skipOk_plain(6) [OF E, of "queue c"] by (metis mset_map mset_eq_imp_distinct_iff)
  then show ?thesis unfolding promoteQueueToPending_def mapToNonceTxSlice_def
    by (intro promoteLoop_inv [OF E inv]) (simp_all add: skip_range [OF E] qSet_def)
qed

end
