(* ===== verification/Container_Peek.thy ===== *)
theory Container_Peek
  imports Container_Props
begin

text \<open>
  Packing: \<open>peek\<close> offers the pending transactions in the order in which a merge of the lists of all
  sources by best price takes them, so that a source's transactions come in the order of their nonces.
\<close>

section \<open>The reference order\<close>

inductive priceMerge :: "(address \<Rightarrow> Transaction list) \<Rightarrow> Transaction list \<Rightarrow> bool" where
  merged: "\<forall>a. R a = [] \<Longrightarrow> priceMerge R []"
| best: "R a = t # ts \<Longrightarrow> \<forall>b u us. R b = u # us \<longrightarrow> priceOf u \<le> priceOf t \<Longrightarrow> priceMerge (R(a := ts)) out \<Longrightarrow> priceMerge R (t # out)"

text \<open>Offering transactions to a visitor until it refuses.\<close>

fun visitAll :: "'a visitor \<Rightarrow> Transaction list \<Rightarrow> 'a \<Rightarrow> 'a" where
  "visitAll f [] acc = acc"
| "visitAll f (t # ts) acc = (case f t acc of (go, acc1) \<Rightarrow> if go then visitAll f ts acc1 else acc1)"

lemma merge_exists:
  assumes "finite {a. R a \<noteq> []}"
  shows "\<exists>out. priceMerge R out"
  using assms
proof (induction "\<Sum>a\<in>{a. R a \<noteq> []}. length (R a)" arbitrary: R rule: less_induct)
  case less
  let ?A = "{a. R a \<noteq> []}"
  show ?case
  proof (cases "?A = {}")
    case True
    then show ?thesis using merged [of R] by auto
  next
    case False
    let ?p = "\<lambda>a. priceOf (hd (R a))"
    obtain a where a: "a \<in> ?A" "\<forall>b\<in>?A. ?p b \<le> ?p a"
      using ex_is_arg_min_if_finite [OF less.prems False, of "\<lambda>a. - ?p a"] by (auto simp: is_arg_min_linorder)
    obtain t ts where t: "R a = t # ts" using a(1) by (cases "R a") auto
    let ?R = "R(a := ts)"
    have sub: "{b. ?R b \<noteq> []} \<subseteq> ?A" using t by (auto split: if_splits)
    have "(\<Sum>b\<in>{b. ?R b \<noteq> []}. length (?R b)) = (\<Sum>b\<in>?A. length (?R b))"
      using sub less.prems by (intro sum.mono_neutral_left) auto
    also have "\<dots> < (\<Sum>b\<in>?A. length (R b))"
      using less.prems a(1) t by (intro sum_strict_mono_ex1) auto
    finally obtain out where "priceMerge ?R out" using less.hyps [of ?R] finite_subset [OF sub less.prems] by blast
    moreover have "\<forall>b u us. R b = u # us \<longrightarrow> priceOf u \<le> priceOf t"
    proof (intro allI impI)
      fix b u us
      assume u: "R b = u # us"
      then have "b \<in> ?A" by simp
      with a(2) have "?p b \<le> ?p a" by blast
      with t u show "priceOf u \<le> priceOf t" by simp
    qed
    ultimately show ?thesis using best [of R a t ts, OF t] by blast
  qed
qed

lemma merge_sources:
  assumes "priceMerge R out" and "\<And>a t. t \<in> set (R a) \<Longrightarrow> sourceOf t = a"
  shows "filter (\<lambda>t. sourceOf t = a) out = R a"
  using assms
proof (induction rule: priceMerge.induct)
  case (best R b t ts out)
  have src: "sourceOf t = b" using best.prems [of t b] best.hyps(1) by simp
  have "filter (\<lambda>t. sourceOf t = a) out = (R(b := ts)) a" using best.IH best.prems best.hyps(1) by (auto split: if_splits)
  with src best.hyps(1) show ?case by auto
qed simp

section \<open>The loop\<close>

interpretation price_heap: heap_order priceLess
  by unfold_locales (auto simp: priceLess_def)

definition ahead :: "('s \<Rightarrow> Transaction list) \<Rightarrow> 's pendingContainer \<Rightarrow> Transaction list \<Rightarrow> (address \<Rightarrow> nat) \<Rightarrow> address \<Rightarrow> Transaction list" where
  "ahead items s h pos a = (if a \<in> sourceOf ` set h then drop (pos a) (pend items s a) else [])"

definition headsOk :: "('s \<Rightarrow> Transaction list) \<Rightarrow> 's pendingContainer \<Rightarrow> Transaction list \<Rightarrow> (address \<Rightarrow> nat) \<Rightarrow> bool" where
  "headsOk items s h pos \<longleftrightarrow> heapOk priceLess (length h) h \<and> distinct (map sourceOf h) \<and>
     (\<forall>t\<in>set h. pos (sourceOf t) < length (pend items s (sourceOf t)) \<and> t = pend items s (sourceOf t) ! pos (sourceOf t))"

lemma headsOk_pop:
  assumes ok: "headsOk items s h pos" and pop: "heap_Pop priceLess h = (tx, r)" "h \<noteq> []"
  shows "headsOk items s r pos" and "sourceOf tx \<notin> sourceOf ` set r" and "set h = insert tx (set r)"
    and "ahead items s h pos (sourceOf tx) = tx # drop (pos (sourceOf tx) + 1) (pend items s (sourceOf tx))"
    and "\<forall>b u us. ahead items s h pos b = u # us \<longrightarrow> priceOf u \<le> priceOf tx"
    and "pos (sourceOf tx) < length (pend items s (sourceOf tx))"
proof -
  note m = heap_Pop_mset [OF pop]
  show set: "set h = insert tx (set r)" using m(1) by (metis set_mset_add_mset_insert set_mset_mset)
  have "mset (map sourceOf h) = mset (sourceOf tx # map sourceOf r)" using m(1) by simp
  then have "distinct (map sourceOf h) = distinct (sourceOf tx # map sourceOf r)" by (rule mset_eq_imp_distinct_iff)
  then have d: "sourceOf tx \<notin> sourceOf ` set r" "distinct (map sourceOf r)" using ok by (auto simp: headsOk_def)
  then show "sourceOf tx \<notin> sourceOf ` set r" by simp
  have pr: "heapOk priceLess (length r) r" "\<forall>y\<in>set h. \<not> priceLess y tx"
    using price_heap.Pop_ok [OF _ pop] ok by (auto simp: headsOk_def)
  show "headsOk items s r pos" using ok pr(1) d(2) set by (auto simp: headsOk_def)
  show lt: "pos (sourceOf tx) < length (pend items s (sourceOf tx))" using ok set by (auto simp: headsOk_def)
  show "ahead items s h pos (sourceOf tx) = tx # drop (pos (sourceOf tx) + 1) (pend items s (sourceOf tx))"
    using ok set lt Cons_nth_drop_Suc [OF lt] by (auto simp: ahead_def headsOk_def)
  show "\<forall>b u us. ahead items s h pos b = u # us \<longrightarrow> priceOf u \<le> priceOf tx"
  proof (intro allI impI)
    fix b u us
    assume u: "ahead items s h pos b = u # us"
    then obtain t where t: "t \<in> set h" "b = sourceOf t" by (auto simp: ahead_def split: if_splits)
    then have "u = t" using u ok by (auto simp: ahead_def headsOk_def nth_via_drop)
    with t pr(2) show "priceOf u \<le> priceOf tx" by (auto simp: priceLess_def)
  qed
qed

lemma finite_ahead: "finite {a. ahead items s h pos a \<noteq> []}"
  by (rule finite_subset [of _ "sourceOf ` set h"]) (auto simp: ahead_def split: if_splits)

lemma peekLoop_merge:
  assumes E: "skipOk E items"
  shows "pendInv items s \<Longrightarrow> headsOk items s h pos \<Longrightarrow>
    \<exists>out. priceMerge (ahead items s h pos) out \<and> peekLoop E f s h pos acc = Some (visitAll f out acc)"
proof (induction E\<equiv>E f s h pos acc rule: peekLoop.induct)
  case (1 f s h pos acc)
  show ?case
  proof (cases "h = []")
    case True
    then have "priceMerge (ahead items s h pos) []" by (intro merged) (simp add: ahead_def)
    with True show ?thesis by (intro exI [of _ "[]"]) (simp add: peekLoop.simps)
  next
    case False
    obtain tx r where pop: "heap_Pop priceLess h = (tx, r)" by force
    obtain go acc1 where f: "f tx acc = (go, acc1)" by force
    let ?a = "sourceOf tx"
    note p = headsOk_pop [OF 1(5) pop False]
    define R where "R = (ahead items s h pos)(?a := drop (pos ?a + 1) (pend items s ?a))"
    have out: "\<exists>out'. priceMerge (ahead items s h pos) out' \<and> peekLoop E f s h pos acc = Some (visitAll f out' acc)"
      if "priceMerge R out" "peekLoop E f s h pos acc = Some (if go then visitAll f out acc1 else acc1)" for out
      by (rule exI [of _ "tx # out"]) (use best [of "ahead items s h pos" ?a tx, OF p(4,5)] that f in \<open>simp add: R_def\<close>)
    obtain l where l: "map_of (waitingMap s) ?a = Some l" using p(6) by (cases "map_of (waitingMap s) ?a") (auto simp: pend_def)
    have pl: "pend items s ?a = items l" "skLen E l = length (items l)" by (simp_all add: pend_list [OF l] skipOk_plain [OF E])
    show ?thesis
    proof (cases go)
      case False
      have "finite {a. R a \<noteq> []}"
        by (rule finite_subset [OF _ finite.insertI [OF finite_ahead, of ?a items s h pos]]) (auto simp: R_def)
      then obtain o1 where "priceMerge R o1" using merge_exists by blast
      moreover have "peekLoop E f s h pos acc = Some acc1"
        using pop f False \<open>h \<noteq> []\<close> by (subst peekLoop.simps) simp
      ultimately show ?thesis using out False by auto
    next
      case True
      note run = 1(1-3) [OF \<open>h \<noteq> []\<close> pop [symmetric] refl f [symmetric] refl _ refl]
      show ?thesis
      proof (cases "pos ?a + 1 < length (items l)")
        case more: True
        let ?n = "items l ! Suc (pos ?a)" and ?pos = "pos(?a := Suc (pos ?a))"
        let ?h = "heap_Push priceLess ?n r"
        have setp: "set ?h = insert ?n (set r)" by (metis heap_Push_mset set_mset_add_mset_insert set_mset_mset)
        have "?n \<in> set (pend items s ?a)" unfolding pl(1) using more by simp
        moreover have "listsOk items s" using 1(4) by (simp add: pendInv_def)
        ultimately have srcn: "sourceOf ?n = ?a" by (rule listsOkD(2) [rotated])
        have "mset (map sourceOf ?h) = mset (?a # map sourceOf r)" by (simp add: srcn)
        then have "distinct (map sourceOf ?h)" using p(1,2) by (metis (no_types, lifting) distinct.simps(2) headsOk_def mset_eq_imp_distinct_iff set_map)
        moreover have ne: "sourceOf t \<noteq> ?a" if "t \<in> set r" for t using p(2) that by (metis imageI)
        ultimately have ok: "headsOk items s ?h ?pos"
          using p(1) more price_heap.Push_ok [of r ?n] by (auto simp: headsOk_def setp srcn pl)
        have "ahead items s ?h ?pos = R"
          using p(2,3) by (auto simp: ahead_def R_def setp srcn fun_eq_iff pl)
        moreover have "peekLoop E f s h pos acc = peekLoop E f s ?h ?pos acc1"
          using pop f True \<open>h \<noteq> []\<close> l more by (subst peekLoop.simps) (simp add: pl skipOk_plain [OF E])
        moreover have "\<exists>out. priceMerge (ahead items s ?h ?pos) out \<and> peekLoop E f s ?h ?pos acc1 = Some (visitAll f out acc1)"
          using run(2) [OF _ l, of ?n] True more 1(4) ok by (simp add: pl skipOk_plain [OF E])
        ultimately show ?thesis using True out by auto
      next
        case less: False
        have "ahead items s r pos = R"
          using p(2,3) less by (auto simp: ahead_def R_def fun_eq_iff pl)
        moreover have "peekLoop E f s h pos acc = peekLoop E f s r pos acc1"
          using pop f True \<open>h \<noteq> []\<close> l less by (subst peekLoop.simps) (simp add: pl)
        moreover have "\<exists>out. priceMerge (ahead items s r pos) out \<and> peekLoop E f s r pos acc1 = Some (visitAll f out acc1)"
          using run(3) [OF _ l] True less 1(4) p(1) by (simp add: pl)
        ultimately show ?thesis using True out by auto
      qed
    qed
  qed
qed

lemma peekStart_heads:
  assumes E: "skipOk E items"
  shows "nonEmpty items ls \<Longrightarrow> heapOk priceLess (length h) h \<Longrightarrow>
    \<exists>h'. peekStart E ls h = Some h' \<and> heapOk priceLess (length h') h' \<and> mset h' = mset h + mset (map (\<lambda>p. hd (items (snd p))) ls)"
proof (induction ls arbitrary: h)
  case (Cons x ls)
  obtain a l where x: "x = (a, l)" by force
  have ne: "items l \<noteq> []" "nonEmpty items ls" using Cons.prems by (auto simp: nonEmpty_def x)
  let ?h = "heap_Push priceLess (hd (items l)) h"
  have "peekStart E (x # ls) h = peekStart E ls ?h" using ne by (simp add: x skipOk_plain [OF E] hd_conv_nth)
  with Cons.IH [OF ne(2) price_heap.Push_ok [OF Cons.prems(2), of "hd (items l)"]] show ?case by (auto simp: x)
qed simp

lemma peek_merge:
  assumes E: "skipOk E items" and ok: "pendInv items s"
  shows "\<exists>out. priceMerge (pend items s) out \<and> peek E f s acc = Some (visitAll f out acc)"
proof (cases "pcSize s = 0")
  case True
  then have z: "pendCount items (waitingMap s) = 0" using ok by (simp add: pendInv_def listsOk_def)
  have "pend items s a = []" for a
  proof (cases "map_of (waitingMap s) a")
    case (Some l)
    then have "length (items l) \<in> set (map (\<lambda>(a, l). length (items l)) (waitingMap s))" using map_of_SomeD [OF Some] by force
    with z Some show ?thesis by (auto simp: pendCount_def pend_def simp del: set_map)
  qed (simp add: pend_def)
  then have "priceMerge (pend items s) []" by (intro merged) simp
  with True show ?thesis by (intro exI [of _ "[]"]) (simp add: peek_def)
next
  case False
  let ?ls = "rangeWaiting E (waitingMap s)"
  have lo: "listsOk items s" "nonEmpty items (waitingMap s)" using ok by (simp_all add: pendInv_def)
  have ne: "nonEmpty items ?ls" using lo(2) skip_range(1) [OF E] by (simp add: nonEmpty_def)
  from peekStart_heads [OF E ne, of "[]"] obtain h where h: "peekStart E ?ls [] = Some h" "heapOk priceLess (length h) h"
    "mset h = mset (map (\<lambda>p. hd (items (snd p))) ?ls)" by (auto simp: heapOk_def)
  have at: "pend items s (fst p) = items (snd p) \<and> items (snd p) \<noteq> []" if "p \<in> set (waitingMap s)" for p
    using that lo by (cases p) (auto simp: pend_def nonEmpty_def listsOk_def)
  have src: "sourceOf (hd (items (snd p))) = fst p" if "p \<in> set (waitingMap s)" for p
    using at [OF that] listsOkD(2) [OF lo(1), of "hd (items (snd p))" "fst p"] by simp
  have seth: "set h = (\<lambda>p. hd (items (snd p))) ` set (waitingMap s)"
    using arg_cong [OF h(3), of set_mset] skip_range(1) [OF E, of "waitingMap s"] by simp
  have "mset (map sourceOf h) = mset (map (\<lambda>p. sourceOf (hd (items (snd p)))) ?ls)" using h(3) by (simp add: multiset.map_comp comp_def)
  also have "\<dots> = mset (map (\<lambda>p. sourceOf (hd (items (snd p)))) (waitingMap s))" using skipOk_plain(5) [OF E, of "waitingMap s"] by simp
  also have "\<dots> = mset (map fst (waitingMap s))" using src by (intro arg_cong [of _ _ mset] map_cong) auto
  finally have "distinct (map sourceOf h)" using lo(1) by (metis listsOk_def mset_eq_imp_distinct_iff)
  then have heads: "headsOk items s h (\<lambda>_. 0)" using h(2) at src by (auto simp: headsOk_def seth hd_conv_nth)
  have "ahead items s h (\<lambda>_. 0) = pend items s"
  proof
    fix a
    show "ahead items s h (\<lambda>_. 0) a = pend items s a"
    proof (cases "map_of (waitingMap s) a")
      case (Some l)
      then have "a \<in> sourceOf ` set h" using src [OF map_of_SomeD [OF Some]] map_of_SomeD [OF Some] by (force simp: seth)
      then show ?thesis by (simp add: ahead_def)
    next
      case None
      then have "a \<notin> fst ` set (waitingMap s)" by (simp add: map_of_eq_None_iff)
      then have "a \<notin> sourceOf ` set h" using src by (force simp: seth)
      with None show ?thesis by (simp add: ahead_def pend_def)
    qed
  qed
  with peekLoop_merge [OF E ok heads, of f acc] False h(1) show ?thesis by (simp add: peek_def)
qed

end
