(* ===== verification/Tx_Pool.thy ===== *)
theory Tx_Pool
  imports Container_Peek Tx_Validate Rewards "HOL-Library.Sublist"
begin

text \<open>
  The transaction pool, \<^verbatim>\<open>src/core/transaction_pool.go\<close> with \<^verbatim>\<open>src/core/tx_reward_pool.go\<close>: adding
  transactions after validation, the pool of reward transactions by block, looking transactions up,
  removing them, and choosing the transactions of a new block.

  The LRU caches are those of \<^verbatim>\<open>github.com/hashicorp/golang-lru\<close>, a parameter; a lookup may change
  the recency and returns the cache. The receipt database, the chain, the clock and the latest state
  are parameters too. Promoting queued transactions, which \<^verbatim>\<open>RemoveFromPool\<close> starts in a goroutine of
  its own, is the separate step \<open>promoteQueueToPending\<close> of the container.
\<close>

section \<open>Parameters and state\<close>

record ('c, 'v) lruOps =
  lruContains :: "'c \<Rightarrow> hash \<Rightarrow> bool"
  lruGet :: "'c \<Rightarrow> hash \<Rightarrow> 'v option \<times> 'c"
  lruAdd :: "'c \<Rightarrow> hash \<Rightarrow> 'v \<Rightarrow> 'c"
  lruRemove :: "'c \<Rightarrow> hash \<Rightarrow> 'c"
  lruKeys :: "'c \<Rightarrow> hash list"
  lruPeek :: "'c \<Rightarrow> hash \<Rightarrow> 'v option"
  lruLen :: "'c \<Rightarrow> nat"

record ('s, 'c, 'd) poolEnv =
  peCont :: "'s cenv"
  peTxs :: "('c, Transaction) lruOps"
  peIndex :: "('d, Transaction list) lruOps"
  peHasReceipt :: "hash \<Rightarrow> bool"
  peValidate :: "Transaction \<Rightarrow> bool \<Rightarrow> verdict"
  peNonce :: "address \<Rightarrow> u64"
  peLatest :: "error + world"
  peHasBlock :: "hash \<Rightarrow> bool"
  peNow :: int
  peIgnoreVmCall :: bool

record ('c, 'd) rewardPool =
  rpPool :: 'c
  blockHashIndex :: 'd

record ('s, 'c, 'd) txPool =
  bonPool :: "('c, 'd) rewardPool"
  received :: "'s simpleContainer"
  asyncAdds :: 'c
  gasPriceLowerBound :: bigint

section \<open>Reward transactions\<close>

definition bon_add :: "('s, 'c, 'd) poolEnv \<Rightarrow> Transaction \<Rightarrow> ('c, 'd) rewardPool \<Rightarrow> bool \<times> ('c, 'd) rewardPool" where
  "bon_add E tx bp =
    (if lruContains (peTxs E) (rpPool bp) (txHash tx) then (False, bp)
     else
       (let pool1 = lruAdd (peTxs E) (rpPool bp) (txHash tx) tx;
            blockHash = parseRewardBlockHash tx;
            (v, index1) = lruGet (peIndex E) (blockHashIndex bp) blockHash;
            txs = (case v of Some txs \<Rightarrow> txs | None \<Rightarrow> [])
        in (True, bp\<lparr>rpPool := pool1, blockHashIndex := lruAdd (peIndex E) index1 blockHash (txs @ [tx])\<rparr>)))"

definition removeByBlockHash :: "('s, 'c, 'd) poolEnv \<Rightarrow> hash \<Rightarrow> ('c, 'd) rewardPool \<Rightarrow> nat \<times> ('c, 'd) rewardPool" where
  "removeByBlockHash E blockHash bp =
    (case lruGet (peIndex E) (blockHashIndex bp) blockHash of
       (None, index1) \<Rightarrow> (0, bp\<lparr>blockHashIndex := index1\<rparr>)
     | (Some txs, index1) \<Rightarrow>
         (length txs,
          bp\<lparr>rpPool := fold (\<lambda>trans c. lruRemove (peTxs E) c (txHash trans)) txs (rpPool bp),
             blockHashIndex := lruRemove (peIndex E) index1 blockHash\<rparr>))"

definition bon_remove :: "('s, 'c, 'd) poolEnv \<Rightarrow> hash \<Rightarrow> ('c, 'd) rewardPool \<Rightarrow> ('c, 'd) rewardPool" where
  "bon_remove E h bp =
    (case lruGet (peTxs E) (rpPool bp) h of
       (None, pool1) \<Rightarrow> bp\<lparr>rpPool := pool1\<rparr>
     | (Some tx, pool1) \<Rightarrow>
         snd (removeByBlockHash E (parseRewardBlockHash tx) (bp\<lparr>rpPool := lruRemove (peTxs E) pool1 h\<rparr>)))"

definition bon_get :: "('s, 'c, 'd) poolEnv \<Rightarrow> hash \<Rightarrow> ('c, 'd) rewardPool \<Rightarrow> Transaction option \<times> ('c, 'd) rewardPool" where
  "bon_get E h bp = (case lruGet (peTxs E) (rpPool bp) h of (v, pool1) \<Rightarrow> (v, bp\<lparr>rpPool := pool1\<rparr>))"

definition bon_contains :: "('s, 'c, 'd) poolEnv \<Rightarrow> hash \<Rightarrow> ('c, 'd) rewardPool \<Rightarrow> bool" where
  "bon_contains E h bp = lruContains (peTxs E) (rpPool bp) h"

text \<open>\<^verbatim>\<open>rewardManager.blockHasRewardTransaction\<close>, on the latest state.\<close>

definition hasReward :: "('s, 'c, 'd) poolEnv \<Rightarrow> bytes \<Rightarrow> bool" where
  "hasReward E blockHash = (case peLatest E of Inl err \<Rightarrow> False | Inr db \<Rightarrow> getRewardData db blockHash \<noteq> None)"

text \<open>
  Ranging over the blocks: the keys are taken once, the transactions of a block are looked up when
  their turn comes. The callback may panic, and it may change the state in which the pool is.
\<close>

fun forEachByBlock :: "hash list \<Rightarrow> ('a \<Rightarrow> hash \<Rightarrow> Transaction list option) \<Rightarrow>
    (hash \<Rightarrow> Transaction list \<Rightarrow> 'a \<Rightarrow> (bool \<times> 'a) option) \<Rightarrow> 'a \<Rightarrow> 'a option" where
  "forEachByBlock [] look f acc = Some acc"
| "forEachByBlock (k # ks) look f acc =
    (case look acc k of
       None \<Rightarrow> forEachByBlock ks look f acc
     | Some txs \<Rightarrow>
         (case f k txs acc of
            None \<Rightarrow> None
          | Some (go, acc1) \<Rightarrow> if go then forEachByBlock ks look f acc1 else Some acc1))"

section \<open>Adding and removing\<close>

definition IsTransactionExisted :: "('s, 'c, 'd) poolEnv \<Rightarrow> hash \<Rightarrow> ('s, 'c, 'd) txPool \<Rightarrow> bool \<times> int" where
  "IsTransactionExisted E h pool =
    (if bon_contains E h (bonPool pool) then (True, 1)
     else if container_contains (received pool) h then (True, 1)
     else if lruContains (peTxs E) (asyncAdds pool) h then (True, 2)
     else if peHasReceipt E h then (True, 3)
     else (False, - 1))"

definition isRewardExists :: "('s, 'c, 'd) poolEnv \<Rightarrow> Transaction \<Rightarrow> ('s, 'c, 'd) txPool \<Rightarrow> bool" where
  "isRewardExists E tx pool \<longleftrightarrow>
    (if bon_contains E (txHash tx) (bonPool pool) then True
     else if lruContains (peTxs E) (asyncAdds pool) (txHash tx) then True
     else if peHasReceipt E (txHash tx) then True
     else hasReward E (parseRewardBlockHash tx))"

definition pool_add :: "('s, 'c, 'd) poolEnv \<Rightarrow> Transaction \<Rightarrow> ('s, 'c, 'd) txPool \<Rightarrow> (error option \<times> ('s, 'c, 'd) txPool) option" where
  "pool_add E tx pool =
    (if IsReward tx then Some (None, pool\<lparr>bonPool := snd (bon_add E tx (bonPool pool))\<rparr>)
     else map_option (\<lambda>(err, c). (err, pool\<lparr>received := c\<rparr>)) (container_push (peCont E) (peNonce E) (peNow E) tx (received pool)))"

definition tryAdd :: "('s, 'c, 'd) poolEnv \<Rightarrow> Transaction \<Rightarrow> ('s, 'c, 'd) txPool \<Rightarrow> (error option \<times> ('s, 'c, 'd) txPool) option" where
  "tryAdd E tx pool =
    (if fst (IsTransactionExisted E (txHash tx) pool) then Some (Some ''tx exist'', pool) else pool_add E tx pool)"

definition tryAddTransaction :: "('s, 'c, 'd) poolEnv \<Rightarrow> Transaction \<Rightarrow> ('s, 'c, 'd) txPool \<Rightarrow> (error option \<times> ('s, 'c, 'd) txPool) option" where
  "tryAddTransaction E tx pool =
    (if (if IsReward tx then isRewardExists E tx pool else fst (IsTransactionExisted E (txHash tx) pool))
     then Some (Some ''tx exists'', pool)
     else
       (case peValidate E tx True of
          None \<Rightarrow> None
        | Some (Some err) \<Rightarrow> Some (Some err, pool)
        | Some None \<Rightarrow> tryAdd E tx pool))"

definition AsyncAddTransaction :: "('s, 'c, 'd) poolEnv \<Rightarrow> Transaction \<Rightarrow> ('s, 'c, 'd) txPool \<Rightarrow> (error option \<times> ('s, 'c, 'd) txPool) option" where
  "AsyncAddTransaction E tx pool =
    (let (known, pool1) =
       (if IsReward tx
        then (case bon_get E (txHash tx) (bonPool pool) of (v, bp) \<Rightarrow> (v \<noteq> None, pool\<lparr>bonPool := bp\<rparr>))
        else (container_get (received pool) (txHash tx) \<noteq> None, pool))
     in if known then Some (None, pool1)
        else if lruContains (peTxs E) (asyncAdds pool1) (txHash tx) then Some (None, pool1)
        else
          (case peValidate E tx False of
             None \<Rightarrow> None
           | Some (Some err) \<Rightarrow> Some (Some err, pool1)
           | Some None \<Rightarrow> Some (None, pool1\<lparr>asyncAdds := lruAdd (peTxs E) (asyncAdds pool1) (txHash tx) tx\<rparr>)))"

definition GetTransaction :: "('s, 'c, 'd) poolEnv \<Rightarrow> bool \<Rightarrow> hash \<Rightarrow> ('s, 'c, 'd) txPool \<Rightarrow> Transaction option \<times> ('s, 'c, 'd) txPool" where
  "GetTransaction E reward h pool =
    (case bon_get E h (bonPool pool) of
       (tx, bp) \<Rightarrow>
         (let pool1 = pool\<lparr>bonPool := bp\<rparr>
          in if reward \<or> tx \<noteq> None then (tx, pool1)
             else
               (case container_get (received pool1) h of
                  Some t \<Rightarrow> (Some t, pool1)
                | None \<Rightarrow> (case lruGet (peTxs E) (asyncAdds pool1) h of (v, c) \<Rightarrow> (v, pool1\<lparr>asyncAdds := c\<rparr>)))))"

definition pool_remove :: "('s, 'c, 'd) poolEnv \<Rightarrow> hash \<Rightarrow> ('s, 'c, 'd) txPool \<Rightarrow> ('s, 'c, 'd) txPool" where
  "pool_remove E h pool =
    pool\<lparr>bonPool := bon_remove E h (bonPool pool), received := container_remove (peCont E) h (received pool),
         asyncAdds := lruRemove (peTxs E) (asyncAdds pool) h\<rparr>"

definition RemoveFromPool :: "('s, 'c, 'd) poolEnv \<Rightarrow> hash list \<Rightarrow> ('s, 'c, 'd) txPool \<Rightarrow> ('s, 'c, 'd) txPool" where
  "RemoveFromPool E txs pool = fold (pool_remove E) txs pool"

fun BackToPool :: "('s, 'c, 'd) poolEnv \<Rightarrow> Transaction list \<Rightarrow> ('s, 'c, 'd) txPool \<Rightarrow> ('s, 'c, 'd) txPool option" where
  "BackToPool E [] pool = Some pool"
| "BackToPool E (tx # txs) pool = (case tryAdd E tx pool of None \<Rightarrow> None | Some (err, pool1) \<Rightarrow> BackToPool E txs pool1)"

definition TxNum :: "('s, 'c, 'd) poolEnv \<Rightarrow> ('s, 'c, 'd) txPool \<Rightarrow> u64" where
  "TxNum E pool = of_int (container_Len (received pool) + int (lruLen (peTxs E) (rpPool (bonPool pool))))"

definition GetReceived :: "('s, 'c, 'd) poolEnv \<Rightarrow> ('s, 'c, 'd) txPool \<Rightarrow> Transaction list" where
  "GetReceived E pool = container_asSlice (peCont E) (maxPendingSize + 10000) (received pool)"

definition GetAllTxs :: "('s, 'c, 'd) poolEnv \<Rightarrow> ('s, 'c, 'd) txPool \<Rightarrow> Transaction list" where
  "GetAllTxs E pool = container_asSlice (peCont E) (maxPendingSize + 10000) (received pool) @ map snd (rangeQueue (peCont E) (queue (received pool)))"

definition GetRewardTxs :: "('s, 'c, 'd) poolEnv \<Rightarrow> ('s, 'c, 'd) txPool \<Rightarrow> Transaction list option" where
  "GetRewardTxs E pool =
    (let index = blockHashIndex (bonPool pool)
     in forEachByBlock (lruKeys (peIndex E) index) (\<lambda>_. lruPeek (peIndex E) index) (\<lambda>bhash txs acc. Some (True, acc @ txs)) [])"

definition ClearRewardTxs :: "('s, 'c, 'd) poolEnv \<Rightarrow> ('s, 'c, 'd) txPool \<Rightarrow> ('s, 'c, 'd) txPool option" where
  "ClearRewardTxs E pool =
    map_option (\<lambda>bp. pool\<lparr>bonPool := bp\<rparr>)
      (forEachByBlock (lruKeys (peIndex E) (blockHashIndex (bonPool pool))) (\<lambda>bp. lruPeek (peIndex E) (blockHashIndex bp))
        (\<lambda>bhash txs bp.
           if hasReward E bhash \<or> \<not> peHasBlock E bhash then Some (True, snd (removeByBlockHash E bhash bp)) else Some (True, bp))
        (bonPool pool))"

section \<open>Packing\<close>

definition txFixSize :: int where
  "txFixSize = 200"

definition txSize :: "Transaction \<Rightarrow> int" where
  "txSize tx = txFixSize + int (length (txData tx)) + int (length (txExtraData tx))"

definition txAccumulateSizeMaxPerBlock :: int where
  "txAccumulateSizeMaxPerBlock = 1024 * 1024"

definition packReward :: "hash \<Rightarrow> Transaction list \<Rightarrow> int \<times> Transaction list \<Rightarrow> (bool \<times> int \<times> Transaction list) option" where
  "packReward bhash rewardTxs st =
    (case rewardTxs of
       [] \<Rightarrow> None
     | tx # _ \<Rightarrow>
         (case st of (accuSize, txs) \<Rightarrow>
            (let accu1 = accuSize + txSize tx
             in Some (if accu1 \<le> txAccumulateSizeMaxPerBlock then (True, accu1, txs @ [tx]) else (False, accu1, txs)))))"

definition packVisit :: "bool \<Rightarrow> bigint \<Rightarrow> (int \<times> Transaction list) visitor" where
  "packVisit ignoreVm lower tx st =
    (case st of (accuSize, txs) \<Rightarrow>
       if priceOf tx < lower then (True, st)
       else if ignoreVm \<and> (txType tx = TransactionTypeContractCreate \<or> txType tx = TransactionTypeContractCall) then (True, st)
       else
         (let accu1 = accuSize + txSize tx
          in if accu1 \<le> txAccumulateSizeMaxPerBlock then (True, accu1, txs @ [tx]) else (False, accu1, txs)))"

definition packTx :: "('s, 'c, 'd) poolEnv \<Rightarrow> ('s, 'c, 'd) txPool \<Rightarrow> Transaction list option" where
  "packTx E pool =
    (let index = blockHashIndex (bonPool pool)
     in case forEachByBlock (lruKeys (peIndex E) index) (\<lambda>_. lruPeek (peIndex E) index) packReward (0, []) of
          None \<Rightarrow> None
        | Some (accuSize, txs) \<Rightarrow>
            if accuSize < txAccumulateSizeMaxPerBlock
            then map_option snd (eachForPack (peCont E) (packVisit (peIgnoreVmCall E) (gasPriceLowerBound pool)) (received pool) (accuSize, txs))
            else Some txs)"

end
