(* ===== verification/Pool_Props.thy ===== *)
theory Pool_Props
  imports Tx_Pool
begin

text \<open>
  Properties of the transaction pool: what holds after any sequence of its operations, and what a
  block is packed with.
\<close>

section \<open>Limits\<close>

definition limits :: "'s simpleContainer \<Rightarrow> int \<times> int" where
  "limits c = (pcLimit (pending c), queueLimit c)"

lemma pending_remove_limit [simp]: "pcLimit (pending_remove E tx s) = pcLimit s"
  by (simp add: pending_remove_def split: option.splits prod.splits)

lemma pending_push_limit: "pending_push E tx n s = Some (added, s', ev, cf) \<Longrightarrow> pcLimit s' = pcLimit s"
  by (auto simp: pending_push_def doInsertOrReplace_def evictLowest_def Let_def
      split: if_splits option.splits prod.splits Option.bind_splits)

lemma remove_limits [simp]: "limits (removeWithoutLock E tx c) = limits c" "limits (container_remove E h c) = limits c"
  by (simp_all add: limits_def removeWithoutLock_def container_remove_def split: option.splits)

lemma push_limits: "container_push E g now tx c = Some (err, c') \<Longrightarrow> limits c' = limits c"
  by (auto simp: container_push_def addToQueue_def limits_def Let_def dest!: pending_push_limit
      split: if_splits option.splits prod.splits sum.splits)

lemma promote_limits: "promoteLoop E g txs cache c = Some c' \<Longrightarrow> limits c' = limits c"
proof (induction txs arbitrary: cache c)
  case (Cons tx txs)
  then show ?case
    by (auto simp: limits_def Let_def dest!: pending_push_limit split: prod.splits if_splits option.splits)
qed simp

lemma clear_limits: "limits (clearRoute E g now c) = limits c"
proof -
  have evict: "limits (evictLoop E g txs cache c) = limits c" for txs cache c
    by (induction txs arbitrary: cache c) (auto split: prod.splits)
  have "limits (fold (\<lambda>(h, tw) c. if now - twBegin tw > txTimeout c then removeWithoutLock E (twItem tw) c else c) xs c) = limits c" for xs c
    by (induction xs arbitrary: c) auto
  from this [of _ "evictLoop E g (container_asSlice E maxPendingSize c) (\<lambda>_. 0) c"] show ?thesis
    unfolding clearRoute_def evictTimeout_def evictPending_def by (simp add: evict)
qed

section \<open>The caches\<close>

text \<open>The documented behaviour of the LRU cache: it may forget entries, never invent them.\<close>

definition lruOk :: "('c, 'v) lruOps \<Rightarrow> bool" where
  "lruOk L \<longleftrightarrow> (\<forall>c k.
     fst (lruGet L c k) = lruPeek L c k \<and> distinct (lruKeys L c) \<and>
     (\<forall>j v. lruPeek L (snd (lruGet L c k)) j = Some v \<longrightarrow> lruPeek L c j = Some v) \<and>
     (\<forall>j v. lruPeek L (lruRemove L c k) j = Some v \<longrightarrow> lruPeek L c j = Some v) \<and>
     (\<forall>x j v. lruPeek L (lruAdd L c k x) j = Some v \<longrightarrow> (j = k \<and> v = x) \<or> lruPeek L c j = Some v))"

definition indexOk :: "('d, Transaction list) lruOps \<Rightarrow> 'd \<Rightarrow> bool" where
  "indexOk L d \<longleftrightarrow> (\<forall>k txs. lruPeek L d k = Some txs \<longrightarrow> txs \<noteq> [] \<and> (\<forall>t\<in>set txs. IsReward t \<and> parseRewardBlockHash t = k))"

lemma index_get: "lruOk L \<Longrightarrow> indexOk L d \<Longrightarrow> lruGet L d k = (v, d1) \<Longrightarrow> indexOk L d1 \<and> lruPeek L d k = v"
  unfolding lruOk_def indexOk_def by (metis fst_conv snd_conv)

lemma index_remove: "lruOk L \<Longrightarrow> indexOk L d \<Longrightarrow> indexOk L (lruRemove L d k)"
  unfolding lruOk_def indexOk_def by blast

lemma index_add: "lruOk L \<Longrightarrow> indexOk L d \<Longrightarrow> txs \<noteq> [] \<Longrightarrow> \<forall>t\<in>set txs. IsReward t \<and> parseRewardBlockHash t = k \<Longrightarrow> indexOk L (lruAdd L d k txs)"
  unfolding lruOk_def indexOk_def by blast

lemma bon_add_index:
  assumes L: "lruOk (peIndex E)" and ok: "indexOk (peIndex E) (blockHashIndex bp)" and tx: "IsReward tx"
  shows "indexOk (peIndex E) (blockHashIndex (snd (bon_add E tx bp)))"
proof -
  obtain v d1 where g: "lruGet (peIndex E) (blockHashIndex bp) (parseRewardBlockHash tx) = (v, d1)" by force
  note i = index_get [OF L ok g]
  have "\<forall>t\<in>set ((case v of Some txs \<Rightarrow> txs | None \<Rightarrow> []) @ [tx]). IsReward t \<and> parseRewardBlockHash t = parseRewardBlockHash tx"
  proof (cases v)
    case (Some txs)
    with i ok have "\<forall>t\<in>set txs. IsReward t \<and> parseRewardBlockHash t = parseRewardBlockHash tx" unfolding indexOk_def by blast
    with Some tx show ?thesis by auto
  qed (use tx in simp)
  then show ?thesis using index_add [OF L] i ok by (simp add: bon_add_def g Let_def)
qed

lemma removeByBlockHash_index:
  assumes L: "lruOk (peIndex E)" and ok: "indexOk (peIndex E) (blockHashIndex bp)"
  shows "indexOk (peIndex E) (blockHashIndex (snd (removeByBlockHash E h bp)))"
proof -
  obtain v d1 where g: "lruGet (peIndex E) (blockHashIndex bp) h = (v, d1)" by force
  from index_get [OF L ok g] index_remove [OF L] show ?thesis by (cases v) (auto simp: removeByBlockHash_def g)
qed

lemma bon_remove_index:
  assumes L: "lruOk (peIndex E)" and ok: "indexOk (peIndex E) (blockHashIndex bp)"
  shows "indexOk (peIndex E) (blockHashIndex (bon_remove E h bp))"
  using assms removeByBlockHash_index [OF L] by (auto simp: bon_remove_def split: prod.splits option.splits)

lemma clear_index:
  assumes L: "lruOk (peIndex E)"
  shows "indexOk (peIndex E) (blockHashIndex bp) \<Longrightarrow>
    forEachByBlock ks look (\<lambda>bhash txs bp. if C bhash then Some (True, snd (removeByBlockHash E bhash bp)) else Some (True, bp)) bp = Some bp' \<Longrightarrow>
    indexOk (peIndex E) (blockHashIndex bp')"
proof (induction ks arbitrary: bp)
  case (Cons k ks)
  then show ?case using Cons.IH [OF removeByBlockHash_index [OF L Cons.prems(1), of k]] by (auto split: option.splits if_splits)
qed simp

section \<open>Steps of the pool\<close>

definition envFor :: "('s \<Rightarrow> Transaction list) \<Rightarrow> ('d, Transaction list) lruOps \<Rightarrow> ('s, 'c, 'd) poolEnv \<Rightarrow> bool" where
  "envFor items L E \<longleftrightarrow> skipOk (peCont E) items \<and> peIndex E = L"

inductive pool_step :: "('s \<Rightarrow> Transaction list) \<Rightarrow> ('d, Transaction list) lruOps \<Rightarrow> ('s, 'c, 'd) txPool \<Rightarrow> ('s, 'c, 'd) txPool \<Rightarrow> bool"
  for items :: "'s \<Rightarrow> Transaction list" and L :: "('d, Transaction list) lruOps" where
  add: "envFor items L E \<Longrightarrow> tryAddTransaction E tx p = Some (err, p') \<Longrightarrow> pool_step items L p p'"
| async: "envFor items L E \<Longrightarrow> AsyncAddTransaction E tx p = Some (err, p') \<Longrightarrow> pool_step items L p p'"
| return: "envFor items L E \<Longrightarrow> BackToPool E txs p = Some p' \<Longrightarrow> pool_step items L p p'"
| look: "envFor items L E \<Longrightarrow> GetTransaction E reward h p = (tx, p') \<Longrightarrow> pool_step items L p p'"
| remove: "envFor items L E \<Longrightarrow> pool_step items L p (RemoveFromPool E hs p)"
| promote: "envFor items L (E :: ('s, 'c, 'd) poolEnv) \<Longrightarrow> promoteQueueToPending (peCont E) (peNonce E) (received p) = Some c \<Longrightarrow> pool_step items L p (p\<lparr>received := c\<rparr>)"
| clear: "envFor items L (E :: ('s, 'c, 'd) poolEnv) \<Longrightarrow> pool_step items L p (p\<lparr>received := clearRoute (peCont E) (peNonce E) (peNow E) (received p)\<rparr>)"
| rewards: "envFor items L E \<Longrightarrow> ClearRewardTxs E p = Some p' \<Longrightarrow> pool_step items L p p'"

definition txPoolInv :: "('s \<Rightarrow> Transaction list) \<Rightarrow> ('d, Transaction list) lruOps \<Rightarrow> int \<times> int \<Rightarrow> ('s, 'c, 'd) txPool \<Rightarrow> bool" where
  "txPoolInv items L lim p \<longleftrightarrow> contInv items (received p) \<and> limits (received p) = lim \<and> indexOk L (blockHashIndex (bonPool p))"

lemma tryAdd_inv:
  assumes E: "envFor items L E" and L: "lruOk L" and inv: "txPoolInv items L lim p"
  shows "\<exists>err p'. tryAdd E tx p = Some (err, p') \<and> txPoolInv items L lim p'"
proof (cases "fst (IsTransactionExisted E (txHash tx) p) \<or> IsReward tx")
  case True
  then show ?thesis using E L inv bon_add_index [of E "bonPool p" tx] by (auto simp: tryAdd_def pool_add_def txPoolInv_def envFor_def)
next
  case False
  from E inv have sk: "skipOk (peCont E) items" "contInv items (received p)" by (simp_all add: envFor_def txPoolInv_def)
  from container_push_inv [OF sk, of "peNonce E" "peNow E" tx] obtain err c where
    c: "container_push (peCont E) (peNonce E) (peNow E) tx (received p) = Some (err, c)" "contInv items c" by blast
  with False inv push_limits [OF c(1)] show ?thesis by (simp add: tryAdd_def pool_add_def txPoolInv_def)
qed

lemma back_inv:
  assumes E: "envFor items L E" and L: "lruOk L"
  shows "txPoolInv items L lim p \<Longrightarrow> \<exists>p'. BackToPool E txs p = Some p' \<and> txPoolInv items L lim p'"
proof (induction txs arbitrary: p)
  case (Cons tx txs)
  from tryAdd_inv [OF E L Cons.prems, of tx] Cons.IH show ?case by auto
qed simp

lemma pool_remove_inv: "envFor items L E \<Longrightarrow> lruOk L \<Longrightarrow> txPoolInv items L lim p \<Longrightarrow> txPoolInv items L lim (pool_remove E h p)"
  using container_remove_inv [of "peCont E" items "received p" h] bon_remove_index [of E "bonPool p" h]
  by (auto simp: txPoolInv_def pool_remove_def envFor_def)

lemma remove_all_inv: "envFor items L E \<Longrightarrow> lruOk L \<Longrightarrow> txPoolInv items L lim p \<Longrightarrow> txPoolInv items L lim (RemoveFromPool E hs p)"
  unfolding RemoveFromPool_def by (induction hs arbitrary: p) (simp_all add: pool_remove_inv)

lemma look_inv: "txPoolInv items L lim p \<Longrightarrow> GetTransaction E reward h p = (tx, p') \<Longrightarrow> txPoolInv items L lim p'"
  by (auto simp: GetTransaction_def bon_get_def txPoolInv_def Let_def split: prod.splits if_splits option.splits)

lemma async_inv: "txPoolInv items L lim p \<Longrightarrow> AsyncAddTransaction E tx p = Some (err, p') \<Longrightarrow> txPoolInv items L lim p'"
  by (auto simp: AsyncAddTransaction_def bon_get_def txPoolInv_def Let_def split: prod.splits if_splits option.splits)

lemma pool_step_inv:
  assumes L: "lruOk L" and step: "pool_step items L p p'" and inv: "txPoolInv items L lim p"
  shows "txPoolInv items L lim p'"
  using step inv
proof cases
  case (add E tx err)
  then show ?thesis using inv tryAdd_inv [OF add(1) L inv, of tx]
    by (auto simp: tryAddTransaction_def split: if_splits option.splits)
next
  case (return E txs)
  then show ?thesis using back_inv [OF return(1) L inv, of txs] by auto
next
  case (promote E c)
  then have sk: "skipOk (peCont E) items" "contInv items (received p)" using inv by (simp_all add: envFor_def txPoolInv_def)
  from promote_inv [OF sk, of "peNonce E"] promote(3) have "contInv items c" by simp
  moreover have "limits c = limits (received p)" using promote(3) promote_limits by (fastforce simp: promoteQueueToPending_def)
  ultimately show ?thesis using promote inv by (simp add: txPoolInv_def)
next
  case (clear E)
  then show ?thesis using inv clearRoute_inv [of "peCont E" items "received p" "peNonce E" "peNow E"]
    by (simp add: txPoolInv_def envFor_def clear_limits)
next
  case (rewards E)
  then show ?thesis using inv L clear_index [of E "bonPool p"] by (auto simp: ClearRewardTxs_def txPoolInv_def envFor_def)
qed (use inv L in \<open>auto intro: async_inv look_inv remove_all_inv\<close>)

lemma pool_steps_inv:
  assumes "lruOk L" and "(pool_step items L)\<^sup>*\<^sup>* p p'" and "txPoolInv items L lim p"
  shows "txPoolInv items L lim p'"
  using assms(2,3) by (induction rule: rtranclp_induct) (auto intro: pool_step_inv [OF assms(1)])

text \<open>A pool as it is created: nothing in the container, nothing indexed.\<close>

definition newPool :: "('d, Transaction list) lruOps \<Rightarrow> int \<Rightarrow> int \<Rightarrow> ('s, 'c, 'd) txPool \<Rightarrow> bool" where
  "newPool L pl ql p \<longleftrightarrow> (\<exists>timeout. received p = newSimpleContainer pl ql timeout) \<and> (\<forall>k. lruPeek L (blockHashIndex (bonPool p)) k = None)"

lemma reachable_inv:
  assumes "lruOk L" and "newPool L pl ql p0" and "(pool_step items L)\<^sup>*\<^sup>* p0 p"
  shows "txPoolInv items L (pl, ql) p"
proof -
  have "txPoolInv items L (pl, ql) p0" using assms(2) contInv_new
    by (auto simp: txPoolInv_def newPool_def indexOk_def limits_def newSimpleContainer_def newPendingContainer_def)
  with pool_steps_inv [OF assms(1,3)] show ?thesis .
qed

section \<open>Packing\<close>

lemma distinct_subseq: "subseq xs ys \<Longrightarrow> distinct ys \<Longrightarrow> distinct xs"
  by (induction rule: list_emb.induct) (auto dest: list_emb_set)

abbreviation sizeSum :: "Transaction list \<Rightarrow> int" where
  "sizeSum txs \<equiv> sum_list (map txSize txs)"

lemma pack_simps:
  "packReward h (tx # ts) (n, txs) =
    Some (if n + txSize tx \<le> txAccumulateSizeMaxPerBlock then (True, n + txSize tx, txs @ [tx]) else (False, n + txSize tx, txs))"
  "packVisit ig lower tx (n, txs) =
    (if priceOf tx < lower \<or> ig \<and> (txType tx = TransactionTypeContractCreate \<or> txType tx = TransactionTypeContractCall) then (True, n, txs)
     else if n + txSize tx \<le> txAccumulateSizeMaxPerBlock then (True, n + txSize tx, txs @ [tx]) else (False, n + txSize tx, txs))"
  by (simp_all add: packReward_def packVisit_def Let_def)

lemma packRewards_spec:
  assumes "\<And>k txs. look k = Some txs \<Longrightarrow> txs \<noteq> []"
  shows "sizeSum txs \<le> txAccumulateSizeMaxPerBlock \<Longrightarrow>
    \<exists>n rs ks'. forEachByBlock ks (\<lambda>_. look) packReward (sizeSum txs, txs) = Some (n, txs @ rs) \<and>
      sizeSum (txs @ rs) \<le> txAccumulateSizeMaxPerBlock \<and> (n = sizeSum (txs @ rs) \<or> n > txAccumulateSizeMaxPerBlock) \<and>
      subseq ks' ks \<and> list_all2 (\<lambda>k r. \<exists>ts. look k = Some (r # ts)) ks' rs"
proof (induction ks arbitrary: txs)
  case Nil
  then show ?case by (intro exI [of _ "sizeSum txs"] exI [of _ "[]"]) simp
next
  case (Cons k ks)
  show ?case
  proof (cases "look k")
    case None
    with Cons.IH [OF Cons.prems] show ?thesis by (auto intro: subseq_Cons')
  next
    case (Some v)
    with assms obtain r ts where v: "v = r # ts" by (cases v) auto
    show ?thesis
    proof (cases "sizeSum (txs @ [r]) \<le> txAccumulateSizeMaxPerBlock")
      case True
      from Cons.IH [OF True] obtain n rs ks' where
        ih: "forEachByBlock ks (\<lambda>_. look) packReward (sizeSum (txs @ [r]), txs @ [r]) = Some (n, (txs @ [r]) @ rs)"
        "sizeSum ((txs @ [r]) @ rs) \<le> txAccumulateSizeMaxPerBlock" "n = sizeSum ((txs @ [r]) @ rs) \<or> n > txAccumulateSizeMaxPerBlock"
        "subseq ks' ks" "list_all2 (\<lambda>k r. \<exists>ts. look k = Some (r # ts)) ks' rs" by blast
      show ?thesis
        by (intro exI [of _ n] exI [of _ "r # rs"] exI [of _ "k # ks'"])
          (use ih Some v True in \<open>simp add: pack_simps\<close>)
    next
      case False
      then show ?thesis
        by (intro exI [of _ "sizeSum txs + txSize r"] exI [of _ "[]"])
          (use Some v Cons.prems in \<open>simp add: pack_simps\<close>)
    qed
  qed
qed

lemma pack_rewards:
  assumes L: "lruOk L" and ok: "indexOk L d"
  shows "\<exists>n rs. forEachByBlock (lruKeys L d) (\<lambda>_. lruPeek L d) packReward (0, []) = Some (n, rs) \<and> sizeSum rs \<le> txAccumulateSizeMaxPerBlock \<and>
    (n = sizeSum rs \<or> n > txAccumulateSizeMaxPerBlock) \<and> list_all IsReward rs \<and> distinct (map parseRewardBlockHash rs)"
proof -
  let ?look = "lruPeek L d" and ?keys = "lruKeys L d"
  have index: "\<And>k txs. ?look k = Some txs \<Longrightarrow> txs \<noteq> [] \<and> (\<forall>t\<in>set txs. IsReward t \<and> parseRewardBlockHash t = k)"
    using ok unfolding indexOk_def by blast
  have "\<exists>n rs ks'. forEachByBlock ?keys (\<lambda>_. ?look) packReward (0, []) = Some (n, rs) \<and> sizeSum rs \<le> txAccumulateSizeMaxPerBlock \<and>
      (n = sizeSum rs \<or> n > txAccumulateSizeMaxPerBlock) \<and> subseq ks' ?keys \<and> list_all2 (\<lambda>k r. \<exists>ts. ?look k = Some (r # ts)) ks' rs"
    using packRewards_spec [of ?look "[]" ?keys] index by (simp add: txAccumulateSizeMaxPerBlock_def)
  then obtain n rs ks' where r: "forEachByBlock ?keys (\<lambda>_. ?look) packReward (0, []) = Some (n, rs)" "sizeSum rs \<le> txAccumulateSizeMaxPerBlock"
    "n = sizeSum rs \<or> n > txAccumulateSizeMaxPerBlock" "subseq ks' ?keys" "list_all2 (\<lambda>k r. \<exists>ts. ?look k = Some (r # ts)) ks' rs" by blast
  have "list_all2 (\<lambda>k r. IsReward r \<and> k = parseRewardBlockHash r) ks' rs" using r(5) by (rule list_all2_mono) (use index in force)
  then have "ks' = map parseRewardBlockHash rs" "list_all IsReward rs" by (induction rule: list_all2_induct) auto
  moreover have "distinct ks'" using distinct_subseq [OF r(4)] L by (auto simp: lruOk_def)
  ultimately show ?thesis using r(1-3) by auto
qed

lemma packVisit_spec:
  "sizeSum txs \<le> txAccumulateSizeMaxPerBlock \<Longrightarrow>
    \<exists>n picked. visitAll (packVisit ig lower) out (sizeSum txs, txs) = (n, txs @ picked) \<and> subseq picked out \<and>
      sizeSum (txs @ picked) \<le> txAccumulateSizeMaxPerBlock \<and> (\<forall>t\<in>set picked. lower \<le> priceOf t)"
proof (induction out arbitrary: txs)
  case (Cons t out)
  let ?skip = "priceOf t < lower \<or> ig \<and> (txType t = TransactionTypeContractCreate \<or> txType t = TransactionTypeContractCall)"
  show ?case
  proof (cases ?skip)
    case True
    with Cons.IH [OF Cons.prems] show ?thesis by (auto simp: pack_simps intro: subseq_Cons')
  next
    case False
    show ?thesis
    proof (cases "sizeSum (txs @ [t]) \<le> txAccumulateSizeMaxPerBlock")
      case True
      from Cons.IH [OF True] obtain n picked where
        ih: "visitAll (packVisit ig lower) out (sizeSum (txs @ [t]), txs @ [t]) = (n, (txs @ [t]) @ picked)" "subseq picked out"
        "sizeSum ((txs @ [t]) @ picked) \<le> txAccumulateSizeMaxPerBlock" "\<forall>t\<in>set picked. lower \<le> priceOf t" by blast
      show ?thesis
        by (intro exI [of _ n] exI [of _ "t # picked"]) (use ih False True in \<open>auto simp: pack_simps\<close>)
    next
      case no: False
      show ?thesis
        by (intro exI [of _ "sizeSum txs + txSize t"] exI [of _ "[]"]) (use no False Cons.prems in \<open>auto simp: pack_simps\<close>)
    qed
  qed
qed simp

section \<open>A concrete pool\<close>

text \<open>Sorted lists for skip lists, association lists for caches.\<close>

definition listEnv :: "Transaction list cenv" where
  "listEnv = \<lparr>skNew = [], skGet = (\<lambda>l t. find (\<lambda>x. Compare x t = 0) l), skInsert = (\<lambda>l t. insort_key txNonce t l),
     skDelete = (\<lambda>l t. (filter (\<lambda>x. Compare x t \<noteq> 0) l, filter (\<lambda>x. Compare x t = 0) l)), skLen = length,
     skByPosition = (\<lambda>l i. if i < length l then Some (l ! i) else None), skIter = id, rangeWaiting = id, rangeQueue = id, rangeTxs = id\<rparr>"

definition listLru :: "((hash \<times> 'v) list, 'v) lruOps" where
  "listLru = \<lparr>lruContains = (\<lambda>c k. map_of c k \<noteq> None), lruGet = (\<lambda>c k. (map_of c k, c)), lruAdd = (\<lambda>c k v. (k, v) # c),
     lruRemove = (\<lambda>c k. AList.delete k c), lruKeys = (\<lambda>c. remdups (map fst c)), lruPeek = map_of, lruLen = length\<rparr>"

lemma list_laws: "skipOk listEnv id" "lruOk listLru"
  by (auto simp: skipOk_def listEnv_def) (auto simp: lruOk_def listLru_def delete_conv' split: if_splits)

definition poolTx :: "nat \<Rightarrow> u64 \<Rightarrow> bigint \<Rightarrow> Transaction" where
  "poolTx src nonce price = \<lparr>txData = [], txValue = Some 0, txNonce = nonce, txTarget = None, txType = 0, txGasLimit = Some 1000,
     txGasPrice = Some price, txExtraData = [], txSign = None, txSource = Some [of_nat src], txHash = [of_nat src, ucast nonce, of_int price]\<rparr>"

definition rewardTx :: "nat \<Rightarrow> Transaction" where
  "rewardTx b = (poolTx 0 0 0)\<lparr>txType := TransactionTypeReward, txData := replicate 32 (of_nat b), txHash := [of_nat b]\<rparr>"

definition exPoolEnv :: "(Transaction list, (hash \<times> Transaction) list, (hash \<times> Transaction list) list) poolEnv" where
  "exPoolEnv = \<lparr>peCont = listEnv, peTxs = listLru, peIndex = listLru, peHasReceipt = (\<lambda>_. False), peValidate = (\<lambda>tx b. Some None),
     peNonce = (\<lambda>_. 0), peLatest = Inl [], peHasBlock = (\<lambda>_. True), peNow = 0, peIgnoreVmCall = False\<rparr>"

definition exPool :: "(Transaction list, (hash \<times> Transaction) list, (hash \<times> Transaction list) list) txPool" where
  "exPool = \<lparr>bonPool = \<lparr>rpPool = [], blockHashIndex = []\<rparr>, received = newSimpleContainer 10 10 100, asyncAdds = [], gasPriceLowerBound = 1\<rparr>"

lemma exPool_new: "newPool listLru 10 10 exPool" "envFor id listLru exPoolEnv"
  using list_laws by (auto simp: newPool_def exPool_def listLru_def envFor_def exPoolEnv_def)

text \<open>Two sources; the transaction with nonce 3 waits in the queue until nonce 2 is there.\<close>

definition exTxs :: "Transaction list" where
  "exTxs = [poolTx 1 1 5, poolTx 1 3 9, poolTx 2 1 7, rewardTx 8, poolTx 1 2 6]"

lemma ex_pool_run: "map_option (\<lambda>p. (pcSize (pending (received p)), length (queue (received p)))) (BackToPool exPoolEnv exTxs exPool) = Some (3, 1)"
  by code_simp

section \<open>Properties\<close>

text \<open>
  The pool stays consistent (C11): after any sequence of additions, lookups, removals, promotions and
  periodic clearing, the size counter is the number of pending transactions and below its limit, the
  queue respects its limit, every pending list is non-empty, strictly sorted by nonce and holds
  transactions of its source, every pending or queued transaction is found by its hash, none is both
  pending and queued, no two queued ones have the same source and nonce, and no further addition or
  promotion panics.
\<close>

theorem pool_consistent:
  assumes "lruOk L" and "newPool L pl ql p0" and "(pool_step items L)\<^sup>*\<^sup>* p0 p"
  shows "(let c = received p; s = pending c in
    pcSize s = int (sum_list (map (\<lambda>(a, l). length (items l)) (waitingMap s))) \<and> pcSize s < max 1 pl \<and> int (length (queue c)) \<le> max 0 (ql + 1) \<and>
    (\<forall>(a, l)\<in>set (waitingMap s). items l \<noteq> [] \<and> sorted_wrt (<) (map txNonce (items l)) \<and>
       (\<forall>t\<in>set (items l). sourceOf t = a \<and> container_get c (txHash t) = Some t \<and> t \<notin> snd ` set (queue c))) \<and>
    (\<forall>(h, t)\<in>set (queue c). h = txHash t \<and> container_get c h = Some t) \<and> inj_on (\<lambda>t. (sourceOf t, txNonce t)) (snd ` set (queue c)) \<and>
    (\<forall>E getNonce now tx. skipOk E items \<longrightarrow> container_push E getNonce now tx c \<noteq> None \<and> promoteQueueToPending E getNonce c \<noteq> None))"
proof -
  let ?c = "received p"
  have inv: "contInv items ?c" "limits ?c = (pl, ql)" using reachable_inv [OF assms] by (simp_all add: txPoolInv_def)
  then have lo: "listsOk items (pending ?c)" "nonEmpty items (waitingMap (pending ?c))" and q: "queueOk (queue ?c)"
    and dis: "pendSet items (pending ?c) \<inter> qSet ?c = {}" by (simp_all add: contInv_def pendInv_def)
  have list: "items l \<noteq> [] \<and> sorted_wrt (<) (map txNonce (items l)) \<and>
      (\<forall>t\<in>set (items l). sourceOf t = a \<and> container_get ?c (txHash t) = Some t \<and> t \<notin> snd ` set (queue ?c))"
    if al: "(a, l) \<in> set (waitingMap (pending ?c))" for a l
  proof -
    have l: "pend items (pending ?c) a = items l" using al lo(1) by (simp add: pend_def listsOk_def)
    have mem: "t \<in> pendSet items (pending ?c)" if "t \<in> set (items l)" for t using pendSet_sub [OF lo(1), of a] that l by auto
    have "t \<notin> snd ` set (queue ?c)" if "t \<in> set (items l)" for t using mem [OF that] dis unfolding qSet_def by blast
    moreover have "container_get ?c (txHash t) = Some t" if "t \<in> set (items l)" for t using mem [OF that] contInv_get [OF inv(1)] by blast
    moreover have "sourceOf t = a" if "t \<in> set (items l)" for t using listsOkD(2) [OF lo(1), of _ a] that l by simp
    moreover have "items l \<noteq> []" using al lo(2) by (auto simp: nonEmpty_def)
    ultimately show ?thesis using listsOkD(1) [OF lo(1), of a] l by (simp add: nonceSorted_def)
  qed
  have "container_get ?c h = Some t \<and> h = txHash t" if "(h, t) \<in> set (queue ?c)" for h t
    using that q contInv_get [OF inv(1), of t] by (force simp: queueOk_def qSet_def)
  then have queue: "\<forall>(h, t)\<in>set (queue ?c). h = txHash t \<and> container_get ?c h = Some t" by auto
  have no_panic: "container_push E g now tx ?c \<noteq> None \<and> promoteQueueToPending E g ?c \<noteq> None" if "skipOk E items" for E g now tx
    using container_push_inv [OF that inv(1), of g now tx] promote_inv [OF that inv(1), of g] by auto
  show ?thesis unfolding Let_def
    by (intro conjI) (use inv lo(1) q list queue no_panic in \<open>auto simp: contInv_def limits_def listsOk_def pendCount_def queueOk_def\<close>)
qed

theorem pool_consistent_witness:
  "\<exists>p. (pool_step id listLru)\<^sup>*\<^sup>* exPool p \<and> pcSize (pending (received p)) = 3 \<and>
     pcSize (pending (received p)) = int (sum_list (map (\<lambda>(a, l). length l) (waitingMap (pending (received p)))))"
proof -
  obtain p where p: "BackToPool exPoolEnv exTxs exPool = Some p" "pcSize (pending (received p)) = 3" using ex_pool_run by auto
  then have "(pool_step id listLru)\<^sup>*\<^sup>* exPool p" using pool_step.return [OF exPool_new(2)] by blast
  with pool_consistent [OF list_laws(2) exPool_new(1) this] p(2) show ?thesis unfolding Let_def by auto
qed

text \<open>
  Packing a block (C12): from every reachable pool the choice of transactions for a new block ends
  without panic. It consists of reward transactions of pairwise different blocks followed by pending
  transactions. These are taken in the order of a merge of the lists of all sources by best price, so
  those of one source come in the order of their nonces; each pays at least the minimal price, and all
  together are at most one mebibyte.
\<close>

theorem pack_by_price:
  assumes "lruOk (peIndex E)" and "skipOk (peCont E) items" and "newPool (peIndex E) pl ql p0" and "(pool_step items (peIndex E))\<^sup>*\<^sup>* p0 p"
  shows "\<exists>rewards txs out. packTx E p = Some (rewards @ txs) \<and> list_all IsReward rewards \<and> distinct (map parseRewardBlockHash rewards) \<and>
    priceMerge (pend items (pending (received p))) out \<and> subseq txs out \<and> (\<forall>a. subseq (filter (\<lambda>t. sourceOf t = a) txs) (pend items (pending (received p)) a)) \<and>
    list_all (\<lambda>t. gasPriceLowerBound p \<le> priceOf t) txs \<and> sum_list (map txSize (rewards @ txs)) \<le> 1048576"
proof -
  let ?d = "blockHashIndex (bonPool p)" and ?s = "pending (received p)"
  let ?look = "lruPeek (peIndex E) ?d" and ?keys = "lruKeys (peIndex E) ?d" and ?f = "packVisit (peIgnoreVmCall E) (gasPriceLowerBound p)"
  note inv = reachable_inv [OF assms(1,3,4)]
  have index: "indexOk (peIndex E) ?d" and ok: "pendInv items ?s" using inv by (auto simp: txPoolInv_def contInv_def)
  obtain n rs where r: "forEachByBlock ?keys (\<lambda>_. ?look) packReward (0, []) = Some (n, rs)" "sizeSum rs \<le> txAccumulateSizeMaxPerBlock"
    "n = sizeSum rs \<or> n > txAccumulateSizeMaxPerBlock" and rewards: "list_all IsReward rs" "distinct (map parseRewardBlockHash rs)"
    using pack_rewards [OF assms(1) index] by metis
  obtain out where out: "priceMerge (pend items ?s) out" "peek (peCont E) ?f ?s (n, rs) = Some (visitAll ?f out (n, rs))"
    using peek_merge [OF assms(2) ok, of ?f "(n, rs)"] by blast
  have src: "sourceOf t = a" if "t \<in> set (pend items ?s a)" for a t using that ok listsOkD(2) by (auto simp: pendInv_def)
  obtain picked where picked: "packTx E p = Some (rs @ picked)" "subseq picked out" "sizeSum (rs @ picked) \<le> txAccumulateSizeMaxPerBlock"
    "\<forall>t\<in>set picked. gasPriceLowerBound p \<le> priceOf t"
  proof (cases "n < txAccumulateSizeMaxPerBlock")
    case True
    with r(3) have n: "n = sizeSum rs" by simp
    from packVisit_spec [OF r(2), of "peIgnoreVmCall E" "gasPriceLowerBound p" out] obtain k picked where
      v: "visitAll ?f out (sizeSum rs, rs) = (k, rs @ picked)" "subseq picked out"
      "sizeSum (rs @ picked) \<le> txAccumulateSizeMaxPerBlock" "\<forall>t\<in>set picked. gasPriceLowerBound p \<le> priceOf t" by blast
    have "packTx E p = Some (rs @ picked)" using True r(1) out(2) v(1) by (simp add: packTx_def eachForPack_def n)
    with v(2-4) that show thesis by blast
  next
    case False
    with r(1,2) that [of "[]"] show thesis by (simp add: packTx_def)
  qed
  have "subseq (filter (\<lambda>t. sourceOf t = a) picked) (pend items ?s a)" for a
    using subseq_filter [OF picked(2), of "\<lambda>t. sourceOf t = a"] merge_sources [OF out(1) src, of a] by simp
  with rewards out(1) picked show ?thesis
    by (intro exI [of _ rs] exI [of _ picked] exI [of _ out]) (simp add: list_all_iff txAccumulateSizeMaxPerBlock_def)
qed

lemma ex_pack: "Option.bind (BackToPool exPoolEnv exTxs exPool) (packTx exPoolEnv) = Some [rewardTx 8, poolTx 2 1 7, poolTx 1 1 5, poolTx 1 2 6]"
  by code_simp

theorem pack_by_price_witness:
  "\<exists>p rewards txs. (pool_step id listLru)\<^sup>*\<^sup>* exPool p \<and> packTx exPoolEnv p = Some (rewards @ txs) \<and> length (rewards @ txs) = 4 \<and>
     list_all IsReward rewards \<and> (\<forall>a. subseq (filter (\<lambda>t. sourceOf t = a) txs) (pend id (pending (received p)) a))"
proof -
  obtain p where p: "BackToPool exPoolEnv exTxs exPool = Some p" "packTx exPoolEnv p = Some [rewardTx 8, poolTx 2 1 7, poolTx 1 1 5, poolTx 1 2 6]"
    using ex_pack by (auto simp: bind_eq_Some_conv)
  then have run: "(pool_step id listLru)\<^sup>*\<^sup>* exPool p" using pool_step.return [OF exPool_new(2)] by blast
  have L: "peIndex exPoolEnv = listLru" "peCont exPoolEnv = listEnv" by (simp_all add: exPoolEnv_def)
  from pack_by_price [of exPoolEnv id 10 10 exPool p] list_laws exPool_new(1) run p(2) obtain rewards txs where
    "packTx exPoolEnv p = Some (rewards @ txs)" "list_all IsReward rewards" "\<forall>a. subseq (filter (\<lambda>t. sourceOf t = a) txs) (pend id (pending (received p)) a)"
    unfolding L by blast
  moreover from this(1) p(2) have eq: "rewards @ txs = [rewardTx 8, poolTx 2 1 7, poolTx 1 1 5, poolTx 1 2 6]" by simp
  have "length (rewards @ txs) = 4" unfolding eq by simp
  ultimately show ?thesis using run by blast
qed

end
