(* ===== verification/Spec2Isabelle.thy ===== *)
theory Spec2Isabelle
  imports Account_Commit Miner_Props Block_Weight Process_Props World_Refine Pool_Props
begin

text \<open>
  \<^bold>\<open>Verification of the ZVChain node.\<close>

  ZVChain is a proof-of-stake block chain written in Go. Transactions reach a pool, are validated and
  packed into blocks; the state processor executes a block against the account state, charges gas,
  runs the operation of each transaction (transfers, contracts, the staking operations of miners, votes,
  rewards, governance), writes receipts and pays the rewards of the block. The account state is a
  journalled cache over Merkle Patricia tries.

  \<^bold>\<open>Conventions.\<close> Definitions keep the names of the Go source. A struct is a record, an enumeration a
  datatype or a word, \<^verbatim>\<open>[]byte\<close> is \<open>bytes\<close> (lists of 8-bit words), \<^verbatim>\<open>uint64\<close> is \<open>u64\<close> with wrap-around,
  \<^verbatim>\<open>*big.Int\<close> is \<open>int\<close>. A panic (nil dereference, index out of range, explicit panic) is \<open>None\<close>, an
  error is the left side of a sum or an optional error message. State is passed explicitly. Code that
  is not in the repository, or that is only called, is a parameter: a field of an environment record
  (\<open>accountDatabase\<close>, \<open>menv\<close>, \<open>penv\<close>, \<open>cenv\<close>, \<open>poolEnv\<close> and others) or an argument. What is assumed of
  a parameter is a named predicate (\<open>codecsOk\<close>, \<open>skipOk\<close>, \<open>lruOk\<close>, \<open>envSame\<close> and others), and the witness
  of each property that uses one instantiates it.

  \<^bold>\<open>Theories, bottom up.\<close>

  \<^item> \<open>Prelude\<close>, \<open>Common\<close>: machine types, generic lemmas; hashes, addresses and big-endian numbers
    (\<^verbatim>\<open>src/common\<close>).
  \<^item> \<open>Trie_Encoding\<close>, \<open>Trie\<close> (\<^verbatim>\<open>src/storage/trie/encoding.go\<close>, \<^verbatim>\<open>trie.go\<close>, \<^verbatim>\<open>node.go\<close>): hexadecimal keys;
    lookup, insertion and deletion that resolve hash nodes from a database. These recursions need not end
    on an arbitrary database, so they are partial functions into options. \<open>Trie_Spec\<close> defines canonical
    tries, \<open>Trie_Refine\<close> and \<open>Trie_Map\<close> show that on every database that resolves a trie the operations
    return and implement a finite map, that equal contents mean equal canonical tries, and that missing
    nodes are reported. The locale \<open>byte_store\<close> is the interface to the account database.
  \<^item> \<open>Account_Object\<close>, \<open>Account_DB\<close> (\<^verbatim>\<open>src/storage/account\<close>): account objects, the journal, snapshots,
    \<^verbatim>\<open>Finalise\<close>. \<open>Account_Spec\<close>, \<open>Account_Refine\<close>, \<open>Account_Snapshot\<close>: every operation implements one on a
    plain map of accounts, and the journal implements snapshots by copying. \<open>Account_Commit\<close>: flushing
    storage in any map order, what a reopened database shows, transfers.
  \<^item> \<open>Core_State\<close>: the account state as the packages above use it (\<open>world\<close>); \<open>World_Refine\<close>: the account
    database implements it, so that the theorems on worlds are about the database.
  \<^item> \<open>Miner\<close>, \<open>Miner_Store\<close>, \<open>Miner_Node\<close>, \<open>Miner_Operation\<close>, \<open>Miner_Manager\<close>
    (\<^verbatim>\<open>src/middleware/types/miner.go\<close>, \<^verbatim>\<open>src/core/miner_base.go\<close>, \<^verbatim>\<open>miner_node.go\<close>, \<^verbatim>\<open>miner_operation.go\<close>,
    \<^verbatim>\<open>miner_manager.go\<close>): miner records and all operations on them. \<open>Miner_Frame\<close> and \<open>Miner_Untouched\<close>:
    what they leave alone (locale \<open>miner_frame\<close>). \<open>Miner_Pool\<close>, \<open>Miner_Pool_Ops\<close>: the pool of proposers and
    its total. \<open>Miner_Ledger\<close>: refinement of an abstract ledger. \<open>Miner_Stake\<close>: runs of operations (locale
    \<open>guarded_op\<close>). \<open>Miner_Safety\<close>: panics are unreachable. \<open>Miner_Status\<close>: the life of a miner record as a
    step relation. \<open>Miner_Example\<close>, \<open>Miner_Props\<close>: concrete environment and properties.
  \<^item> \<open>Transaction\<close>, \<open>Block_Weight\<close> (\<^verbatim>\<open>src/middleware/types/core.go\<close>, \<^verbatim>\<open>tx_hashing.go\<close>): transactions, the byte
    string that is hashed, the comparison of forks. \<open>Rewards\<close>, \<open>Rewards_Props\<close>
    (\<^verbatim>\<open>src/core/rewards_manager.go\<close>): emission and reward transactions. \<open>Govern\<close> (\<^verbatim>\<open>src/core/govern.go\<close>): the
    black list. \<open>Tx_Validate\<close>, \<open>Validate_Props\<close> (\<^verbatim>\<open>src/core/tx_validate.go\<close>): validation.
  \<^item> \<open>State_Processor\<close> (\<^verbatim>\<open>src/core/state_processor.go\<close>): applying a transaction and a block. \<open>Process_Tx\<close>,
    \<open>Process_Loop\<close> (locales \<open>tx_frame\<close>, \<open>block_loop\<close>, \<open>chain_inv\<close>), \<open>Process_Chain\<close>, \<open>Process_Value\<close>,
    \<open>Process_Props\<close>: gas, nonces, rewards, receipts and the worth of accounts over blocks and chains.
  \<^item> \<open>Go_Heap\<close>: the library package \<^verbatim>\<open>container/heap\<close>, for every strict weak order (locale \<open>heap_order\<close>).
    \<open>Tx_Container\<close> (\<^verbatim>\<open>src/core/simple_container.go\<close>): pending and queued transactions; the packing loop is
    a total function, its termination measure is the number of transactions not yet offered.
    \<open>Container_Inv\<close>, \<open>Container_Props\<close>, \<open>Container_Peek\<close>: its invariant, and packing as a merge by price.
    \<open>Tx_Pool\<close>, \<open>Pool_Props\<close> (\<^verbatim>\<open>src/core/transaction_pool.go\<close>, \<^verbatim>\<open>tx_reward_pool.go\<close>): the pool and what
    holds after any sequence of its operations.

  \<^bold>\<open>How the parts meet.\<close> The properties of the state processor use those of the miner operations through
  \<open>miner_frame\<close> and the value theorem of \<open>Miner_Stake\<close>, the reward shares of \<open>Rewards_Props\<close> and the
  validators' case analysis. All of them speak of \<open>world\<close>, which \<open>World_Refine\<close> ties to the account
  database, whose tries \<open>Trie_Map\<close> ties to the nodes in the database.

  \<^bold>\<open>Bounds.\<close> No theorem depends on fuel. The 64-bit counters of the miner code are exact under the hypothesis
  that the total worth of the accounts is below \<open>2 ^ 64\<close>; where the code wraps or panics beyond, the
  model does too.

  \<^bold>\<open>Not modelled.\<close>

  \<^item> Hashing, committing and iterating over tries (\<^verbatim>\<open>hasher.go\<close>, \<^verbatim>\<open>iterator.go\<close>, the node database and its
    caches), \<^verbatim>\<open>AccountDB.Commit\<close> and \<^verbatim>\<open>Reset\<close>; opening and hashing a trie are parameters. The removal of
    empty accounts at the end of a block is part of \<open>Account_Commit\<close>, not of the state processor model.
  \<^item> The chain itself: casting and adding blocks, forks, checkpoints, pruning and synchronisation
    (\<^verbatim>\<open>src/core/blockchain*.go\<close>, \<^verbatim>\<open>fork_processor.go\<close>, \<^verbatim>\<open>checkpoint.go\<close>, \<^verbatim>\<open>block_sync.go\<close>, \<^verbatim>\<open>tx_sync.go\<close>). They
    interleave the parts above with a key-value database, caches, timers and messages.
  \<^item> Consensus, group formation and the network (\<^verbatim>\<open>src/consensus\<close>, \<^verbatim>\<open>src/core/group\<close>, \<^verbatim>\<open>src/network\<close>): message
    handlers over goroutines, timers and cryptography. Group transactions enter the state processor as a
    parameter.
  \<^item> Cryptography (\<^verbatim>\<open>src/common/secp256k1\<close>, \<^verbatim>\<open>ed25519\<close>, \<^verbatim>\<open>ecies\<close>, \<^verbatim>\<open>src/consensus/groupsig\<close>,
    \<^verbatim>\<open>src/storage/sha3\<close>) and the contract virtual machine (\<^verbatim>\<open>src/tvm\<close>, a C library): parameters.
  \<^item> Serialisation by msgpack, protobuf and JSON, the databases, the RPC server, the command line, logging
    and metrics: input and output.
  \<^item> Locks and goroutines: every exported operation of the pool is one step; the promotion that
    \<^verbatim>\<open>RemoveFromPool\<close> starts in the background and the periodic clearing are steps of their own, in any order.
\<close>

end
